(* ===== verification/Prelude.thy ===== *)
theory Prelude
  imports Complex_Main "HOL-Library.AList" "HOL-Library.Char_ord" "HOL-Library.List_Lexorder"
    "HOL-Library.Code_Target_Nat"
begin

text \<open>
  The base of the development: how Python's effects and containers are read in HOL, and the
  lemmas every component shares.

  \<^item> A fallible pure function returns a sum, \<open>Inl\<close> the exception raised, \<open>Inr\<close> the value;
    \<open>bindE\<close> sequences two of them, \<open>mapE\<close> is a comprehension whose body may raise.
  \<^item> A stateful operation is a function of a world: the state of the component and the history
    of the calls made to the outside so far. It returns the outcome and the world, so that
    what the code did before an exception is kept. \<open>bindM\<close>, \<open>catchM\<close> and \<open>finallyM\<close> are Python's
    sequencing, \<open>try/except\<close> and \<open>try/finally\<close>.
  \<^item> \<open>wp m Q E\<close> is the weakest precondition of an operation for a postcondition on its
    value and one on its exception: the simplifier computes it along the program text.
  \<^item> A Python \<open>dict\<close> is an association list in insertion order (\<open>AList.update\<close> replaces in
    place or appends, as \<open>d[k] = v\<close> does), a \<open>set\<close> of integers is a list read up to order.
  \<^item> A Python \<open>str\<close> is the list of its UTF-8 bytes, as are \<open>bytes\<close>, so that
    \<open>value.encode("utf-8")\<close> is the identity. The order on strings is the one of their
    code points.
\<close>

named_theorems wp_simps "weakest preconditions of the primitive operations"
named_theorems dict_simps "lookups and keys of dictionaries after an update"

section \<open>Fallible functions\<close>

definition bindE :: "'e + 'a \<Rightarrow> ('a \<Rightarrow> 'e + 'b) \<Rightarrow> 'e + 'b" where
  "bindE m f = (case m of Inl e \<Rightarrow> Inl e | Inr x \<Rightarrow> f x)"

definition guardE :: "bool \<Rightarrow> 'e \<Rightarrow> 'e + unit" where
  "guardE b e = (if b then Inr () else Inl e)"

definition mapExcE :: "('e \<Rightarrow> 'f) \<Rightarrow> 'e + 'a \<Rightarrow> 'f + 'a" where
  "mapExcE f m = (case m of Inl e \<Rightarrow> Inl (f e) | Inr x \<Rightarrow> Inr x)"

fun mapE :: "('a \<Rightarrow> 'e + 'b) \<Rightarrow> 'a list \<Rightarrow> 'e + 'b list" where
  "mapE f [] = Inr []"
| "mapE f (x # xs) = bindE (f x) (\<lambda>y. bindE (mapE f xs) (\<lambda>ys. Inr (y # ys)))"

fun foldE :: "('a \<Rightarrow> 'b \<Rightarrow> 'e + 'b) \<Rightarrow> 'a list \<Rightarrow> 'b \<Rightarrow> 'e + 'b" where
  "foldE f [] b = Inr b"
| "foldE f (x # xs) b = bindE (f x b) (foldE f xs)"

lemma bindE_simps [simp]:
  "bindE (Inl e) f = Inl e" "bindE (Inr x) f = f x"
  by (simp_all add: bindE_def)

lemma bindE_Inr_iff [simp]: "bindE m f = Inr y \<longleftrightarrow> (\<exists>x. m = Inr x \<and> f x = Inr y)"
  by (cases m) auto

lemma bindE_Inl_iff: "bindE m f = Inl e \<longleftrightarrow> m = Inl e \<or> (\<exists>x. m = Inr x \<and> f x = Inl e)"
  by (cases m) auto

lemma bindE_assoc: "bindE (bindE m f) g = bindE m (\<lambda>x. bindE (f x) g)"
  by (cases m) auto

lemma bindE_cong [fundef_cong]:
  "m = m' \<Longrightarrow> (\<And>x. m' = Inr x \<Longrightarrow> f x = f' x) \<Longrightarrow> bindE m f = bindE m' f'"
  by (cases m') auto

lemma guardE_simps [simp]:
  "guardE True e = Inr ()" "guardE False e = Inl e"
  "guardE b e = Inr u \<longleftrightarrow> b" "guardE b e = Inl e' \<longleftrightarrow> \<not> b \<and> e' = e"
  by (auto simp: guardE_def)

lemma mapExcE_simps [simp]:
  "mapExcE f (Inl e) = Inl (f e)" "mapExcE f (Inr x) = Inr x"
  "mapExcE f m = Inr x \<longleftrightarrow> m = Inr x"
  by (auto simp: mapExcE_def split: sum.splits)

lemma mapExcE_Inl_iff: "mapExcE f m = Inl e \<longleftrightarrow> (\<exists>e'. m = Inl e' \<and> e = f e')"
  by (cases m) auto

lemma mapE_cong [fundef_cong]:
  "xs = ys \<Longrightarrow> (\<And>x. x \<in> set ys \<Longrightarrow> f x = g x) \<Longrightarrow> mapE f xs = mapE g ys"
  by (induction ys arbitrary: xs) auto

lemma mapE_Inr_iff: "mapE f xs = Inr ys \<longleftrightarrow> list_all2 (\<lambda>x y. f x = Inr y) xs ys"
  by (induction xs arbitrary: ys) (auto simp: list_all2_Cons1)

lemma mapE_length: "mapE f xs = Inr ys \<Longrightarrow> length ys = length xs"
  by (auto simp: mapE_Inr_iff dest: list_all2_lengthD)

lemma mapE_all: "(\<And>x. x \<in> set xs \<Longrightarrow> f x = Inr (g x)) \<Longrightarrow> mapE f xs = Inr (map g xs)"
  by (induction xs) auto

lemma mapE_in_set:
  "mapE f xs = Inr ys \<Longrightarrow> y \<in> set ys \<Longrightarrow> \<exists>x\<in>set xs. f x = Inr y"
  by (induction xs arbitrary: ys) auto

lemma mapE_Inl: "mapE f xs = Inl e \<Longrightarrow> \<exists>x\<in>set xs. f x = Inl e"
  by (induction xs) (auto simp: bindE_Inl_iff)

lemma foldE_append: "foldE f (xs @ ys) acc = bindE (foldE f xs acc) (foldE f ys)"
proof (induction xs arbitrary: acc)
  case (Cons x xs)
  then show ?case by (cases "f x acc") simp_all
qed simp

lemma foldE_invariant:
  assumes "foldE f xs b = Inr c" and "P b"
    and "\<And>x b c. x \<in> set xs \<Longrightarrow> P b \<Longrightarrow> f x b = Inr c \<Longrightarrow> P c"
  shows "P c"
  using assms by (induction xs arbitrary: b) auto

text \<open>The exceptions a fallible function can raise, computed along its text.\<close>

definition failsE :: "('e \<Rightarrow> bool) \<Rightarrow> 'e + 'a \<Rightarrow> bool" where
  "failsE P m \<longleftrightarrow> (\<forall>e. m = Inl e \<longrightarrow> P e)"

named_theorems fails_intros "the exceptions a fallible function can raise"

lemma failsD: "failsE P m \<Longrightarrow> m = Inl e \<Longrightarrow> P e"
  by (simp add: failsE_def)

lemma fails_Inr [fails_intros]: "failsE P (Inr x)"
  by (simp add: failsE_def)

lemma fails_Inl [fails_intros]: "P e \<Longrightarrow> failsE P (Inl e)"
  by (simp add: failsE_def)

lemma fails_bind [fails_intros]:
  "failsE P m \<Longrightarrow> (\<And>x. failsE P (f x)) \<Longrightarrow> failsE P (bindE m f)"
  by (auto simp: failsE_def bindE_Inl_iff)

lemma fails_guard [fails_intros]: "P e \<Longrightarrow> failsE P (guardE b e)"
  by (simp add: failsE_def)

lemma fails_if [fails_intros]: "failsE P m \<Longrightarrow> failsE P n \<Longrightarrow> failsE P (if b then m else n)"
  by simp

lemma fails_mapExc [fails_intros]: "failsE (\<lambda>e. P (g e)) m \<Longrightarrow> failsE P (mapExcE g m)"
  by (auto simp: failsE_def mapExcE_Inl_iff)

lemma fails_mapE [fails_intros]:
  assumes "\<And>x. failsE P (f x)" shows "failsE P (mapE f xs)"
  unfolding failsE_def by (auto dest!: mapE_Inl failsD [OF assms])

lemma fails_foldE [fails_intros]:
  assumes "\<And>x b. failsE P (f x b)" shows "failsE P (foldE f xs b)"
proof (induction xs arbitrary: b)
  case (Cons x xs)
  show ?case unfolding foldE.simps by (intro fails_bind assms Cons)
qed (simp add: failsE_def)

lemma fails_option [fails_intros]:
  "failsE P m \<Longrightarrow> (\<And>x. failsE P (f x)) \<Longrightarrow> failsE P (case r of None \<Rightarrow> m | Some x \<Rightarrow> f x)"
  by (cases r) auto

lemma fails_prod [fails_intros]: "(\<And>x y. failsE P (f x y)) \<Longrightarrow> failsE P (case p of (x, y) \<Rightarrow> f x y)"
  by (cases p) auto

lemma fails_let [fails_intros]: "failsE P (f x) \<Longrightarrow> failsE P (let y = x in f y)"
  by simp

lemma fails_mono: "failsE P m \<Longrightarrow> (\<And>e. P e \<Longrightarrow> Q e) \<Longrightarrow> failsE Q m"
  by (auto simp: failsE_def)

section \<open>Dictionaries and sets\<close>

type_synonym ('k, 'v) dict = "('k \<times> 'v) list"

abbreviation dset :: "'k \<Rightarrow> 'v \<Rightarrow> ('k, 'v) dict \<Rightarrow> ('k, 'v) dict" where
  "dset k v d \<equiv> AList.update k v d"

abbreviation dpop :: "'k \<Rightarrow> ('k, 'v) dict \<Rightarrow> ('k, 'v) dict" where
  "dpop k d \<equiv> AList.delete k d"

definition dget :: "('k, 'v) dict \<Rightarrow> 'k \<Rightarrow> 'v \<Rightarrow> 'v" where
  "dget d k v = (case map_of d k of None \<Rightarrow> v | Some x \<Rightarrow> x)"

definition dsetdefault :: "'k \<Rightarrow> 'v \<Rightarrow> ('k, 'v) dict \<Rightarrow> ('k, 'v) dict" where
  "dsetdefault k v d = (case map_of d k of None \<Rightarrow> dset k v d | Some _ \<Rightarrow> d)"

definition dfilter :: "('k \<Rightarrow> bool) \<Rightarrow> ('k, 'v) dict \<Rightarrow> ('k, 'v) dict" where
  "dfilter P d = filter (\<lambda>(k, v). P k) d"

definition dmove_to_end :: "'k \<Rightarrow> ('k, 'v) dict \<Rightarrow> ('k, 'v) dict" where
  "dmove_to_end k d = (case map_of d k of None \<Rightarrow> d | Some v \<Rightarrow> dpop k d @ [(k, v)])"

definition sorted_items :: "('k::linorder, 'v) dict \<Rightarrow> ('k, 'v) dict" where
  "sorted_items d = sort_key fst d"

abbreviation dkeys :: "('k, 'v) dict \<Rightarrow> 'k list" where
  "dkeys d \<equiv> map fst d"

lemma map_of_dset [simp, dict_simps]: "map_of (dset k v d) = (map_of d)(k \<mapsto> v)"
  by (rule AList.update_conv')

lemma map_of_dpop [simp, dict_simps]: "map_of (dpop k d) = (map_of d)(k := None)"
  by (rule AList.delete_conv')

lemma map_of_dfilter [simp, dict_simps]:
  "map_of (dfilter P d) k = (if P k then map_of d k else None)"
  by (induction d) (auto simp: dfilter_def)

lemma map_of_dsetdefault [dict_simps]:
  "map_of (dsetdefault k v d) = (case map_of d k of None \<Rightarrow> (map_of d)(k \<mapsto> v) | Some _ \<Rightarrow> map_of d)"
  by (simp add: dsetdefault_def split: option.splits)

lemma dsetdefault_dom [simp]: "map_of (dsetdefault k v d) k \<noteq> None"
  by (simp add: map_of_dsetdefault split: option.splits)

lemma map_of_dmove_to_end [simp, dict_simps]: "map_of (dmove_to_end k d) = map_of d"
  by (auto simp: dmove_to_end_def map_add_def fun_eq_iff split: option.splits)

lemma distinct_dset [simp]: "distinct (dkeys d) \<Longrightarrow> distinct (dkeys (dset k v d))"
  by (rule AList.distinct_update)

lemma distinct_dpop [simp]: "distinct (dkeys d) \<Longrightarrow> distinct (dkeys (dpop k d))"
  by (rule AList.distinct_delete)

lemma distinct_dfilter [simp]: "distinct (dkeys d) \<Longrightarrow> distinct (dkeys (dfilter P d))"
  by (simp add: dfilter_def distinct_map_filter)

lemma distinct_dsetdefault [simp]:
  "distinct (dkeys d) \<Longrightarrow> distinct (dkeys (dsetdefault k v d))"
  by (simp add: dsetdefault_def split: option.splits)

lemma dkeys_dpop: "dkeys (dpop k d) = removeAll k (dkeys d)"
  by (rule AList.delete_keys)

lemma dkeys_dmove_to_end:
  "distinct (dkeys d) \<Longrightarrow> map_of d k \<noteq> None \<Longrightarrow> dkeys (dmove_to_end k d) = removeAll k (dkeys d) @ [k]"
  by (auto simp: dmove_to_end_def dkeys_dpop)

lemma distinct_dmove_to_end [simp]:
  "distinct (dkeys d) \<Longrightarrow> distinct (dkeys (dmove_to_end k d))"
  by (auto simp: dmove_to_end_def dkeys_dpop distinct_removeAll split: option.splits)

lemma length_dset: "length (dset k v d) = (if k \<in> set (dkeys d) then length d else Suc (length d))"
  by (metis length_append_singleton length_map AList.update_keys)

lemma length_dpop:
  "distinct (dkeys d) \<Longrightarrow> length (dpop k d) = (if k \<in> set (dkeys d) then length d - 1 else length d)"
  by (metis dkeys_dpop distinct_remove1_removeAll length_map length_remove1)

lemma length_dmove_to_end:
  assumes "distinct (dkeys d)" shows "length (dmove_to_end k d) = length d"
proof (cases "map_of d k")
  case None
  then show ?thesis by (simp add: dmove_to_end_def)
next
  case (Some v)
  then have "k \<in> set (dkeys d)" by (force dest: map_of_SomeD)
  moreover from this have "d \<noteq> []" by auto
  ultimately show ?thesis
    using assms Some by (auto simp: dmove_to_end_def length_dpop)
qed

lemma set_sorted_items [simp]: "set (sorted_items d) = set d"
  by (simp add: sorted_items_def)

lemma length_sorted_items [simp]: "length (sorted_items d) = length d"
  by (simp add: sorted_items_def)

lemma sorted_items_keys: "sorted (dkeys (sorted_items d))"
  by (simp add: sorted_items_def)

lemma distinct_sorted_items [simp]: "distinct (dkeys (sorted_items d)) = distinct (dkeys d)"
  by (metis card_distinct distinct_card length_map length_sorted_items list.set_map set_sorted_items)

lemma map_of_sorted_items [simp]:
  assumes "distinct (dkeys d)" shows "map_of (sorted_items d) = map_of d"
  using assms by (metis distinct_sorted_items map_of_inject_set set_sorted_items)

lemma sorted_items_idem: "sorted_items (sorted_items d) = sorted_items d"
  by (simp add: sorted_items_def sort_key_id_if_sorted)

lemma sorted_items_id: "sorted (dkeys d) \<Longrightarrow> sorted_items d = d"
  by (simp add: sorted_items_def sort_key_id_if_sorted)

section \<open>Decimal numerals\<close>

text \<open>Decimal rendering of an integer, Python's \<open>str\<close>.\<close>

fun digits_of :: "nat \<Rightarrow> string" where
  "digits_of n = (if n < 10 then [char_of (48 + n)] else digits_of (n div 10) @ [char_of (48 + n mod 10)])"

declare digits_of.simps [simp del]

definition str_int :: "int \<Rightarrow> string" where
  "str_int i = (if i < 0 then CHR ''-'' # digits_of (nat (- i)) else digits_of (nat i))"

definition is_digit :: "char \<Rightarrow> bool" where
  "is_digit c \<longleftrightarrow> 48 \<le> (of_char c :: nat) \<and> (of_char c :: nat) \<le> 57"

fun digits_value :: "nat \<Rightarrow> string \<Rightarrow> nat" where
  "digits_value acc [] = acc"
| "digits_value acc (c # cs) = digits_value (10 * acc + (of_char c - 48)) cs"

lemma digits_value_append: "digits_value acc (xs @ ys) = digits_value (digits_value acc xs) ys"
  by (induction xs arbitrary: acc) auto

lemma digit_char [simp]:
  "d < 10 \<Longrightarrow> is_digit (char_of (48 + d))" "d < 10 \<Longrightarrow> (of_char (char_of (48 + d)) :: nat) = 48 + d"
  by (simp_all add: is_digit_def)

lemma digits_of_nonempty [simp]: "digits_of n \<noteq> []"
  by (subst digits_of.simps) simp

lemma digits_of_digits: "\<forall>c \<in> set (digits_of n). is_digit c"
proof (induction n rule: digits_of.induct)
  case (1 n)
  then show ?case by (subst digits_of.simps) auto
qed

lemma digits_value_digits_of: "digits_value 0 (digits_of n) = n"
proof (induction n rule: digits_of.induct)
  case (1 n)
  show ?case
  proof (cases "n < 10")
    case True
    then show ?thesis by (subst digits_of.simps) simp
  next
    case False
    then show ?thesis using 1 by (subst digits_of.simps) (simp add: digits_value_append)
  qed
qed

lemma digits_of_inj: "digits_of m = digits_of n \<Longrightarrow> m = n"
  by (metis digits_value_digits_of)

lemma minus_not_digit: "\<not> is_digit CHR ''-''"
  by (simp add: is_digit_def)

lemma hd_digits_of: "hd (digits_of n) \<noteq> CHR ''-''"
  using digits_of_digits [of n] minus_not_digit by (metis digits_of_nonempty list.set_sel(1))

lemma digits_of_no_minus: "digits_of n \<noteq> CHR ''-'' # xs"
  using hd_digits_of [of n] by auto

lemma str_int_inj: "str_int i = str_int j \<Longrightarrow> i = j"
  using digits_of_no_minus [symmetric]
  by (auto simp: str_int_def digits_of_no_minus split: if_splits dest!: digits_of_inj)

section \<open>Stateful operations with exceptions\<close>

type_synonym ('e, 's, 'a) op = "'s \<Rightarrow> ('e + 'a) \<times> 's"

definition retM :: "'a \<Rightarrow> ('e, 's, 'a) op" where
  "retM x = (\<lambda>s. (Inr x, s))"

definition throwM :: "'e \<Rightarrow> ('e, 's, 'a) op" where
  "throwM e = (\<lambda>s. (Inl e, s))"

definition liftE :: "'e + 'a \<Rightarrow> ('e, 's, 'a) op" where
  "liftE r = (\<lambda>s. (r, s))"

definition bindM :: "('e, 's, 'a) op \<Rightarrow> ('a \<Rightarrow> ('e, 's, 'b) op) \<Rightarrow> ('e, 's, 'b) op" where
  "bindM m f = (\<lambda>s. case m s of (Inl e, t) \<Rightarrow> (Inl e, t) | (Inr x, t) \<Rightarrow> f x t)"

definition getM :: "('s \<Rightarrow> 'a) \<Rightarrow> ('e, 's, 'a) op" where
  "getM f = (\<lambda>s. (Inr (f s), s))"

definition modM :: "('s \<Rightarrow> 's) \<Rightarrow> ('e, 's, unit) op" where
  "modM f = (\<lambda>s. (Inr (), f s))"

definition catchM :: "('e, 's, 'a) op \<Rightarrow> ('e \<Rightarrow> ('e, 's, 'a) op) \<Rightarrow> ('e, 's, 'a) op" where
  "catchM m f = (\<lambda>s. case m s of (Inl e, t) \<Rightarrow> f e t | (Inr x, t) \<Rightarrow> (Inr x, t))"

definition finallyM :: "('e, 's, 'a) op \<Rightarrow> ('e, 's, unit) op \<Rightarrow> ('e, 's, 'a) op" where
  "finallyM m f = (\<lambda>s. case m s of (r, t) \<Rightarrow>
     (case f t of (Inl e, u) \<Rightarrow> (Inl e, u) | (Inr _, u) \<Rightarrow> (r, u)))"

definition zoomM :: "('t \<Rightarrow> 's) \<Rightarrow> ('s \<Rightarrow> 't \<Rightarrow> 't) \<Rightarrow> ('e, 's, 'a) op \<Rightarrow> ('e, 't, 'a) op" where
  "zoomM g p m = (\<lambda>t. case m (g t) of (r, s) \<Rightarrow> (r, p s t))"

definition whenM :: "bool \<Rightarrow> ('e, 's, unit) op \<Rightarrow> ('e, 's, unit) op" where
  "whenM b m = (if b then m else retM ())"

fun forM :: "'a list \<Rightarrow> ('a \<Rightarrow> ('e, 's, unit) op) \<Rightarrow> ('e, 's, unit) op" where
  "forM [] f = retM ()"
| "forM (x # xs) f = bindM (f x) (\<lambda>_. forM xs f)"

fun mapM :: "('a \<Rightarrow> ('e, 's, 'b) op) \<Rightarrow> 'a list \<Rightarrow> ('e, 's, 'b list) op" where
  "mapM f [] = retM []"
| "mapM f (x # xs) = bindM (f x) (\<lambda>y. bindM (mapM f xs) (\<lambda>ys. retM (y # ys)))"

lemmas op_defs = retM_def throwM_def liftE_def bindM_def getM_def modM_def catchM_def
  finallyM_def zoomM_def whenM_def

lemma bindM_cong [fundef_cong]:
  "m s = m' s' \<Longrightarrow> (\<And>x t. m' s' = (Inr x, t) \<Longrightarrow> f x t = f' x t) \<Longrightarrow> bindM m f s = bindM m' f' s'"
  by (simp add: bindM_def split: prod.splits sum.splits)

subsection \<open>Weakest preconditions\<close>

definition wp :: "('e, 's, 'a) op \<Rightarrow> ('a \<Rightarrow> 's \<Rightarrow> bool) \<Rightarrow> ('e \<Rightarrow> 's \<Rightarrow> bool) \<Rightarrow> 's \<Rightarrow> bool" where
  "wp m Q E s = (case m s of (Inl e, t) \<Rightarrow> E e t | (Inr x, t) \<Rightarrow> Q x t)"

lemma bindM_Inr: "bindM m f s = (Inr y, t) \<longleftrightarrow> (\<exists>x u. m s = (Inr x, u) \<and> f x u = (Inr y, t))"
  by (auto simp: bindM_def split: prod.splits sum.splits)

lemma bind_lift: "bindM (liftE r) f = (case r of Inl x \<Rightarrow> throwM x | Inr y \<Rightarrow> f y)"
  by (simp add: bindM_def liftE_def throwM_def fun_eq_iff split: sum.split)

lemma wp_ret [wp_simps]: "wp (retM x) Q E s = Q x s"
  by (simp add: wp_def retM_def)

lemma wp_throw [wp_simps]: "wp (throwM e) Q E s = E e s"
  by (simp add: wp_def throwM_def)

lemma wp_lift [wp_simps]: "wp (liftE r) Q E s = (case r of Inl e \<Rightarrow> E e s | Inr x \<Rightarrow> Q x s)"
  by (simp add: wp_def liftE_def)

lemma wp_bind [wp_simps]: "wp (bindM m f) Q E s = wp m (\<lambda>x. wp (f x) Q E) E s"
  by (simp add: wp_def bindM_def split: prod.splits sum.splits)

lemma wp_get [wp_simps]: "wp (getM f) Q E s = Q (f s) s"
  by (simp add: wp_def getM_def)

lemma wp_mod [wp_simps]: "wp (modM f) Q E s = Q () (f s)"
  by (simp add: wp_def modM_def)

lemma wp_catch [wp_simps]: "wp (catchM m f) Q E s = wp m Q (\<lambda>e. wp (f e) Q E) s"
  by (simp add: wp_def catchM_def split: prod.splits sum.splits)

lemma wp_finally [wp_simps]:
  "wp (finallyM m f) Q E s = wp m (\<lambda>x. wp f (\<lambda>_. Q x) E) (\<lambda>e. wp f (\<lambda>_. E e) E) s"
  by (simp add: wp_def finallyM_def split: prod.splits sum.splits)

lemma wp_zoom [wp_simps]:
  "wp (zoomM g p m) Q E t = wp m (\<lambda>x s. Q x (p s t)) (\<lambda>e s. E e (p s t)) (g t)"
  by (simp add: wp_def zoomM_def split: prod.splits sum.splits)

lemma wp_when [wp_simps]: "wp (whenM b m) Q E s = (if b then wp m Q E s else Q () s)"
  by (simp add: whenM_def wp_ret)

lemma wp_if [wp_simps]: "wp (if b then m else n) Q E s = (if b then wp m Q E s else wp n Q E s)"
  by simp

lemma wp_mono:
  "wp m Q E s \<Longrightarrow> (\<And>x t. Q x t \<Longrightarrow> Q' x t) \<Longrightarrow> (\<And>e t. E e t \<Longrightarrow> E' e t) \<Longrightarrow> wp m Q' E' s"
  by (auto simp: wp_def split: prod.splits sum.splits)

lemma wp_conj:
  "wp m Q E s \<Longrightarrow> wp m Q' E' s \<Longrightarrow> wp m (\<lambda>x t. Q x t \<and> Q' x t) (\<lambda>e t. E e t \<and> E' e t) s"
  by (auto simp: wp_def split: prod.splits sum.splits)

lemma wp_Inr: "wp m Q E s \<Longrightarrow> m s = (Inr x, t) \<Longrightarrow> Q x t"
  by (simp add: wp_def)

lemma wp_Inl: "wp m Q E s \<Longrightarrow> m s = (Inl e, t) \<Longrightarrow> E e t"
  by (simp add: wp_def)

subsection \<open>Invariants of operations\<close>

text \<open>
  \<open>keeps I m\<close>: whatever \<open>m\<close> returns or raises, it leads from a state related to the start by
  \<open>I\<close> to one still related to it. With a reflexive and transitive relation this is a
  frame or a monotonicity property of the whole operation.
\<close>

definition keeps :: "('s \<Rightarrow> 's \<Rightarrow> bool) \<Rightarrow> ('e, 's, 'a) op \<Rightarrow> bool" where
  "keeps R m \<longleftrightarrow> (\<forall>s. R s (snd (m s)))"

named_theorems keeps_intros "closure of the relations an operation keeps"

locale op_preorder =
  fixes R :: "'s \<Rightarrow> 's \<Rightarrow> bool"
  assumes rel_refl: "R s s"
    and rel_trans: "R s t \<Longrightarrow> R t u \<Longrightarrow> R s u"
begin

lemma keeps_pure [intro]:
  "keeps R (retM x)" "keeps R (throwM e)" "keeps R (liftE r)" "keeps R (getM f)"
  by (simp_all add: keeps_def op_defs rel_refl)

lemma keeps_bind [intro]:
  assumes "keeps R m" and "\<And>x. keeps R (f x)"
  shows "keeps R (bindM m f)"
  unfolding keeps_def
proof
  fix s
  obtain r t where ms: "m s = (r, t)" by force
  then have "R s t" using assms(1) by (metis keeps_def snd_conv)
  then show "R s (snd (bindM m f s))"
    using ms assms(2) by (cases r) (auto simp: bindM_def keeps_def intro: rel_trans)
qed

lemma keeps_catch [intro]:
  assumes "keeps R m" and "\<And>e. keeps R (f e)"
  shows "keeps R (catchM m f)"
  unfolding keeps_def
proof
  fix s
  obtain r t where ms: "m s = (r, t)" by force
  then have "R s t" using assms(1) by (metis keeps_def snd_conv)
  then show "R s (snd (catchM m f s))"
    using ms assms(2) by (cases r) (auto simp: catchM_def keeps_def intro: rel_trans)
qed

lemma keeps_finally [intro]:
  assumes "keeps R m" and "keeps R f"
  shows "keeps R (finallyM m f)"
  unfolding keeps_def
proof
  fix s
  obtain r t where ms: "m s = (r, t)" by force
  obtain q u where fs: "f t = (q, u)" by force
  have "R s t" "R t u" using assms ms fs by (metis keeps_def snd_conv)+
  then show "R s (snd (finallyM m f s))"
    using ms fs by (cases q) (auto simp: finallyM_def intro: rel_trans)
qed

lemma keeps_if [intro]: "keeps R m \<Longrightarrow> keeps R n \<Longrightarrow> keeps R (if b then m else n)"
  by simp

lemma keeps_when [intro]: "keeps R m \<Longrightarrow> keeps R (whenM b m)"
  by (simp add: whenM_def keeps_pure)

lemma keeps_option [intro]:
  "keeps R m \<Longrightarrow> (\<And>x. keeps R (f x)) \<Longrightarrow> keeps R (case r of None \<Rightarrow> m | Some x \<Rightarrow> f x)"
  by (cases r) auto

lemma keeps_sum [intro]:
  "(\<And>x. keeps R (f x)) \<Longrightarrow> (\<And>x. keeps R (g x)) \<Longrightarrow> keeps R (case r of Inl x \<Rightarrow> f x | Inr x \<Rightarrow> g x)"
  by (cases r) auto

lemma keeps_prod [intro]:
  "(\<And>x y. keeps R (f x y)) \<Longrightarrow> keeps R (case p of (x, y) \<Rightarrow> f x y)"
  by (cases p) auto

lemma keeps_for [intro]: "(\<And>x. keeps R (f x)) \<Longrightarrow> keeps R (forM xs f)"
  by (induction xs) (auto simp: keeps_pure)

lemma keeps_map [intro]: "(\<And>x. keeps R (f x)) \<Longrightarrow> keeps R (mapM f xs)"
  by (induction xs) (auto simp: keeps_pure)

end

end
