(* ===== verification/Errors.thy ===== *)
theory Errors
  imports Prelude
begin

text \<open>
  The exceptions of the adapter and \<^verbatim>\<open>errors.py\<close>: the stable Meridian failures, the client's
  \<^verbatim>\<open>KafkaError\<close>, and \<open>normalize_kafka_error\<close>, which maps the second to the first.

  Meridian exception classes are owned by \<^verbatim>\<open>meridian_storage\<close> (but for the four that
  \<^verbatim>\<open>errors.py\<close> declares); a value of \<open>merr\<close> keeps the class and the keyword arguments the
  adapter gives it. \<open>retryable = None\<close> means the class default. Message texts are not kept.
  The numeric codes of \<^verbatim>\<open>confluent_kafka.KafkaError\<close> belong to that package: they come as a
  parameter, \<open>attrs\<close>, which looks an attribute name up.
\<close>

section \<open>Exceptions\<close>

datatype mkind =
    KafkaConfigurationError | KafkaAuthenticationFailed | KafkaTransactionAborted
  | KafkaOperationFailed | StreamingPolicyDenied | StreamingResourceNotFound | CursorExpired
  | RebalanceConflict | StreamingUnavailable | DeliveryRejected | DeliveryTimeout
  | InvalidCursor | InvalidEvent | GroupPositionConflict | RetentionBoundaryExceeded
  | InvalidStreamingDefinition | StreamingCapabilityMismatch | MigrationRequired

record merr =
  me_kind :: mkind
  me_requirement :: "string option"
  me_retryable :: "bool option"
  me_provenance :: "(string \<times> string) list"
  me_operation_contract :: "string option"

definition merror :: "mkind \<Rightarrow> merr" where
  "merror k = \<lparr>me_kind = k, me_requirement = None, me_retryable = None,
     me_provenance = [], me_operation_contract = None\<rparr>"

text \<open>The client's error value: \<open>ke_text\<close> is what \<open>str(error)\<close> would print, broker text included.\<close>

record kerr =
  ke_code :: int
  ke_name :: string
  ke_text :: string
  ke_retriable :: bool
  ke_fatal :: bool
  ke_txn_requires_abort :: bool

datatype pykind =
    ValueError | TypeError | KeyError | RuntimeError | BufferError | TimeoutError
  | AssertionError | AttributeError | JSONDecodeError | UnicodeError | TokenExpired
  | OtherError string

text \<open>
  \<open>Diverged\<close> is no exception of the program: it is the outcome of a loop of the model that has
  not ended within its fuel. No handler catches it and no \<open>finally\<close> block runs on it.
\<close>

datatype exc =
    Meridian merr
  | KafkaException "kerr option"
  | PyExc pykind
  | Diverged

abbreviation raised :: "mkind \<Rightarrow> exc" where
  "raised k \<equiv> Meridian (merror k)"

abbreviation raised_for :: "mkind \<Rightarrow> string \<Rightarrow> exc" where
  "raised_for k r \<equiv> Meridian ((merror k)\<lparr>me_requirement := Some r\<rparr>)"

abbreviation raised_retryable :: "mkind \<Rightarrow> bool \<Rightarrow> exc" where
  "raised_retryable k b \<equiv> Meridian ((merror k)\<lparr>me_retryable := Some b\<rparr>)"

text \<open>
  Python's subclass tests: \<open>JSONDecodeError\<close>, \<open>UnicodeError\<close> and the codec's own
  \<open>_TokenExpired\<close> are value errors.
\<close>

definition is_value_error :: "exc \<Rightarrow> bool" where
  "is_value_error e \<longleftrightarrow>
     e \<in> {PyExc ValueError, PyExc JSONDecodeError, PyExc UnicodeError, PyExc TokenExpired}"

definition is_meridian :: "exc \<Rightarrow> bool" where
  "is_meridian e = (case e of Meridian _ \<Rightarrow> True | _ \<Rightarrow> False)"

fun has_kind :: "mkind \<Rightarrow> exc \<Rightarrow> bool" where
  "has_kind k (Meridian m) = (me_kind m = k)"
| "has_kind k _ = False"

fun kind_name :: "mkind \<Rightarrow> string" where
  "kind_name KafkaConfigurationError = ''KafkaConfigurationError''"
| "kind_name KafkaAuthenticationFailed = ''KafkaAuthenticationFailed''"
| "kind_name KafkaTransactionAborted = ''KafkaTransactionAborted''"
| "kind_name KafkaOperationFailed = ''KafkaOperationFailed''"
| "kind_name StreamingPolicyDenied = ''StreamingPolicyDenied''"
| "kind_name StreamingResourceNotFound = ''StreamingResourceNotFound''"
| "kind_name CursorExpired = ''CursorExpired''"
| "kind_name RebalanceConflict = ''RebalanceConflict''"
| "kind_name StreamingUnavailable = ''StreamingUnavailable''"
| "kind_name DeliveryRejected = ''DeliveryRejected''"
| "kind_name DeliveryTimeout = ''DeliveryTimeout''"
| "kind_name InvalidCursor = ''InvalidCursor''"
| "kind_name InvalidEvent = ''InvalidEvent''"
| "kind_name GroupPositionConflict = ''GroupPositionConflict''"
| "kind_name RetentionBoundaryExceeded = ''RetentionBoundaryExceeded''"
| "kind_name InvalidStreamingDefinition = ''InvalidStreamingDefinition''"
| "kind_name StreamingCapabilityMismatch = ''StreamingCapabilityMismatch''"
| "kind_name MigrationRequired = ''MigrationRequired''"

fun type_name :: "exc \<Rightarrow> string" where
  "type_name (Meridian m) = kind_name (me_kind m)"
| "type_name (KafkaException _) = ''KafkaException''"
| "type_name (PyExc ValueError) = ''ValueError''"
| "type_name (PyExc TypeError) = ''TypeError''"
| "type_name (PyExc KeyError) = ''KeyError''"
| "type_name (PyExc RuntimeError) = ''RuntimeError''"
| "type_name (PyExc BufferError) = ''BufferError''"
| "type_name (PyExc TimeoutError) = ''TimeoutError''"
| "type_name (PyExc AssertionError) = ''AssertionError''"
| "type_name (PyExc AttributeError) = ''AttributeError''"
| "type_name (PyExc JSONDecodeError) = ''JSONDecodeError''"
| "type_name (PyExc UnicodeError) = ''UnicodeEncodeError''"
| "type_name (PyExc TokenExpired) = ''_TokenExpired''"
| "type_name (PyExc (OtherError n)) = n"
| "type_name Diverged = []"

section \<open>Classification of client errors\<close>

type_synonym attrs = "string \<Rightarrow> int option"

definition ADAPTER_ID :: string where
  "ADAPTER_ID = ''meridian.kafka''"

definition known_codes :: "attrs \<Rightarrow> string list \<Rightarrow> int list" where
  "known_codes attrs names = List.map_filter attrs names"

definition AUTHENTICATION :: "attrs \<Rightarrow> int list" where
  "AUTHENTICATION attrs = known_codes attrs [''_AUTHENTICATION'', ''SASL_AUTHENTICATION_FAILED'']"

definition AUTHORIZATION :: "attrs \<Rightarrow> int list" where
  "AUTHORIZATION attrs = known_codes attrs
     [''TOPIC_AUTHORIZATION_FAILED'', ''GROUP_AUTHORIZATION_FAILED'',
      ''CLUSTER_AUTHORIZATION_FAILED'', ''TRANSACTIONAL_ID_AUTHORIZATION_FAILED'']"

definition NOT_FOUND :: "attrs \<Rightarrow> int list" where
  "NOT_FOUND attrs = known_codes attrs [''UNKNOWN_TOPIC_OR_PART'', ''UNKNOWN_TOPIC_ID'']"

definition OFFSET :: "attrs \<Rightarrow> int list" where
  "OFFSET attrs = known_codes attrs [''OFFSET_OUT_OF_RANGE'']"

definition REBALANCE :: "attrs \<Rightarrow> int list" where
  "REBALANCE attrs = known_codes attrs
     [''FENCED_INSTANCE_ID'', ''ILLEGAL_GENERATION'', ''UNKNOWN_MEMBER_ID'',
      ''REBALANCE_IN_PROGRESS'']"

definition TRANSACTION :: "attrs \<Rightarrow> int list" where
  "TRANSACTION attrs = known_codes attrs
     [''PRODUCER_FENCED'', ''INVALID_PRODUCER_EPOCH'', ''CONCURRENT_TRANSACTIONS'',
      ''TRANSACTION_COORDINATOR_FENCED'', ''INVALID_TXN_STATE'']"

definition UNAVAILABLE :: "attrs \<Rightarrow> int list" where
  "UNAVAILABLE attrs = known_codes attrs
     [''_ALL_BROKERS_DOWN'', ''_TRANSPORT'', ''_TIMED_OUT'', ''_MSG_TIMED_OUT'',
      ''BROKER_NOT_AVAILABLE'', ''LEADER_NOT_AVAILABLE'', ''NOT_CONTROLLER'',
      ''NOT_COORDINATOR'', ''COORDINATOR_NOT_AVAILABLE'']"

text \<open>A value handed to the mapping: an exception, or the error object of a message.\<close>

datatype failure = Failed exc | KafkaErrorValue kerr

fun kafka_error :: "failure \<Rightarrow> kerr option" where
  "kafka_error (KafkaErrorValue k) = Some k"
| "kafka_error (Failed (KafkaException k)) = k"
| "kafka_error (Failed _) = None"

fun failure_type :: "failure \<Rightarrow> string" where
  "failure_type (Failed e) = type_name e"
| "failure_type (KafkaErrorValue _) = ''KafkaError''"

definition normalize_kafka_error :: "attrs \<Rightarrow> failure \<Rightarrow> string option \<Rightarrow> exc" where
  "normalize_kafka_error attrs value contract =
     (case kafka_error value of
        None \<Rightarrow> Meridian \<lparr>me_kind = KafkaOperationFailed, me_requirement = None,
           me_retryable = Some False,
           me_provenance = [(''adapterId'', ADAPTER_ID), (''errorType'', failure_type value)],
           me_operation_contract = contract\<rparr>
      | Some error \<Rightarrow>
          (let code = ke_code error;
               provenance = [(''adapterId'', ADAPTER_ID), (''kafkaErrorCode'', str_int code),
                 (''kafkaErrorName'', ke_name error)];
               build = (\<lambda>k requirement retryable. Meridian \<lparr>me_kind = k,
                 me_requirement = requirement, me_retryable = retryable,
                 me_provenance = provenance, me_operation_contract = contract\<rparr>)
           in if code \<in> set (AUTHENTICATION attrs) then build KafkaAuthenticationFailed None None
              else if code \<in> set (AUTHORIZATION attrs)
              then build StreamingPolicyDenied (Some ''binding.authorization'') None
              else if code \<in> set (NOT_FOUND attrs)
              then build StreamingResourceNotFound (Some ''binding.physical-resource'') None
              else if code \<in> set (OFFSET attrs)
              then build CursorExpired (Some ''cursor.retained-range'') None
              else if code \<in> set (REBALANCE attrs)
              then build RebalanceConflict (Some ''delivery.group-generation'') None
              else if code \<in> set (TRANSACTION attrs) \<or> ke_txn_requires_abort error \<or> ke_fatal error
              then build KafkaTransactionAborted None (Some (ke_retriable error))
              else if code \<in> set (UNAVAILABLE attrs) \<or> ke_retriable error
              then build StreamingUnavailable (Some ''binding.availability'') None
              else build KafkaOperationFailed None (Some False)))"

section \<open>Lemmas\<close>

lemma is_meridian_simps [simp]:
  "is_meridian (Meridian m)" "\<not> is_meridian (KafkaException k)" "\<not> is_meridian (PyExc p)" "\<not> is_meridian Diverged"
  by (simp_all add: is_meridian_def)

lemma is_value_error_simps [simp]:
  "is_value_error (PyExc ValueError)" "is_value_error (PyExc JSONDecodeError)"
  "is_value_error (PyExc UnicodeError)" "is_value_error (PyExc TokenExpired)"
  "\<not> is_value_error (Meridian m)" "\<not> is_value_error (PyExc TypeError)"
  "\<not> is_value_error (PyExc KeyError)" "\<not> is_value_error (KafkaException k)" "\<not> is_value_error Diverged"
  by (simp_all add: is_value_error_def)

lemma me_kind_merror [simp]: "me_kind (merror k) = k"
  by (simp add: merror_def)

lemma normalize_meridian [simp]: "is_meridian (normalize_kafka_error attrs v c)"
  by (simp add: normalize_kafka_error_def Let_def split: option.splits)

section \<open>Properties\<close>

text \<open>
  The mapping never leaks broker text: two client errors that differ only in their text
  are mapped to the same failure, whatever the code tables are.
\<close>

theorem normalize_redacts_text:
  "normalize_kafka_error attrs (KafkaErrorValue (k\<lparr>ke_text := t\<rparr>)) c
     = normalize_kafka_error attrs (KafkaErrorValue k) c
   \<and> normalize_kafka_error attrs (Failed (KafkaException (Some (k\<lparr>ke_text := t\<rparr>)))) c
     = normalize_kafka_error attrs (KafkaErrorValue k) c"
  by (simp add: normalize_kafka_error_def Let_def)

text \<open>
  C26. Classification: the result is always a Meridian failure that carries the operation
  contract and the adapter id; it is a transaction abort exactly for an error with a
  transaction code, a fatal one or one that requires an abort which is not already an
  authentication, authorization, not-found, offset or rebalance error.
\<close>

theorem normalize_classification:
  "\<exists>m. normalize_kafka_error attrs v c = Meridian m
     \<and> me_operation_contract m = c
     \<and> (''adapterId'', ADAPTER_ID) \<in> set (me_provenance m)
     \<and> (me_kind m = KafkaTransactionAborted \<longleftrightarrow>
          (\<exists>k. kafka_error v = Some k
             \<and> (ke_code k \<in> set (TRANSACTION attrs) \<or> ke_txn_requires_abort k \<or> ke_fatal k)
             \<and> ke_code k \<notin> set (AUTHENTICATION attrs) \<union> set (AUTHORIZATION attrs)
                 \<union> set (NOT_FOUND attrs) \<union> set (OFFSET attrs) \<union> set (REBALANCE attrs)))"
  by (cases "kafka_error v") (auto simp: normalize_kafka_error_def Let_def)

end
