(* ===== verification/Json.thy ===== *)
theory Json
  imports Errors
begin

text \<open>
  The part of Python's \<^verbatim>\<open>json\<close> module the adapter relies on: \<open>json_dumps\<close> with
  \<^verbatim>\<open>ensure_ascii=False, sort_keys=True, separators=(",", ":")\<close> and \<open>json_loads\<close> with the
  default decoder, both on UTF-8 bytes, and the round trip between them.

  A \<open>json\<close> value stands for a Python object the adapter inspects: \<open>JObj\<close> is a \<open>dict\<close> with
  string keys in insertion order, \<open>JList\<close> a list or tuple, \<open>JOpaque\<close> any object that is not
  JSON. A float is kept as its literal text (the adapter never computes with one); \<open>nan\<close>,
  \<open>inf\<close> and \<open>-inf\<close> are the non-finite ones. Input that \<^verbatim>\<open>json.loads\<close> would detect as
  UTF-16 or UTF-32, and Python's limit on the number of digits of an integer, are left out.
\<close>

section \<open>Values\<close>

datatype json =
    JNull
  | JBool bool
  | JInt int
  | JFloat string
  | JStr string
  | JList "json list"
  | JObj "(string \<times> json) list"
  | JOpaque

section \<open>Printing\<close>

definition hex_digit :: "nat \<Rightarrow> char" where
  "hex_digit n = (if n < 10 then char_of (48 + n) else char_of (87 + n))"

definition escape_char :: "char \<Rightarrow> string" where
  "escape_char c = (let n = (of_char c :: nat) in
     if c = CHR 0x22 then [CHR 0x5C, CHR 0x22]
     else if c = CHR 0x5C then [CHR 0x5C, CHR 0x5C]
     else if c = CHR 0x0A then [CHR 0x5C, CHR ''n'']
     else if c = CHR 0x0D then [CHR 0x5C, CHR ''r'']
     else if c = CHR 0x09 then [CHR 0x5C, CHR ''t'']
     else if c = CHR 0x0C then [CHR 0x5C, CHR ''f'']
     else if c = CHR 0x08 then [CHR 0x5C, CHR ''b'']
     else if n < 32
     then [CHR 0x5C, CHR ''u'', CHR ''0'', CHR ''0'', hex_digit (n div 16), hex_digit (n mod 16)]
     else [c])"

definition dump_string :: "string \<Rightarrow> string" where
  "dump_string s = CHR 0x22 # concat (map escape_char s) @ [CHR 0x22]"

fun dump :: "json \<Rightarrow> string"
and dump_list :: "json list \<Rightarrow> string"
and dump_items :: "(string \<times> json) list \<Rightarrow> string" where
  "dump JNull = ''null''"
| "dump (JBool b) = (if b then ''true'' else ''false'')"
| "dump (JInt i) = str_int i"
| "dump (JFloat s) = s"
| "dump (JStr s) = dump_string s"
| "dump (JList xs) = ''['' @ dump_list xs @ '']''"
| "dump (JObj kvs) = ''{'' @ dump_items kvs @ ''}''"
| "dump JOpaque = ''''"
| "dump_list [] = ''''"
| "dump_list [x] = dump x"
| "dump_list (x # y # ys) = dump x @ '','' @ dump_list (y # ys)"
| "dump_items [] = ''''"
| "dump_items [(k, v)] = dump_string k @ '':'' @ dump v"
| "dump_items ((k, v) # kv # kvs) = dump_string k @ '':'' @ dump v @ '','' @ dump_items (kv # kvs)"

primrec sort_keys :: "json \<Rightarrow> json" where
  "sort_keys JNull = JNull"
| "sort_keys (JBool b) = JBool b"
| "sort_keys (JInt i) = JInt i"
| "sort_keys (JFloat s) = JFloat s"
| "sort_keys (JStr s) = JStr s"
| "sort_keys (JList xs) = JList (map sort_keys xs)"
| "sort_keys (JObj kvs) = JObj (sorted_items (map (map_prod id sort_keys) kvs))"
| "sort_keys JOpaque = JOpaque"

definition json_dumps :: "json \<Rightarrow> string" where
  "json_dumps v = dump (sort_keys v)"

section \<open>Parsing\<close>

definition is_ws :: "char \<Rightarrow> bool" where
  "is_ws c \<longleftrightarrow> (of_char c :: nat) \<in> {32, 9, 10, 13}"

definition skip_ws :: "string \<Rightarrow> string" where
  "skip_ws s = dropWhile is_ws s"

fun strip_prefix :: "string \<Rightarrow> string \<Rightarrow> string option" where
  "strip_prefix [] s = Some s"
| "strip_prefix (p # ps) [] = None"
| "strip_prefix (p # ps) (c # cs) = (if p = c then strip_prefix ps cs else None)"

definition hex_value :: "char \<Rightarrow> nat option" where
  "hex_value c = (let n = (of_char c :: nat) in
     if 48 \<le> n \<and> n \<le> 57 then Some (n - 48)
     else if 97 \<le> n \<and> n \<le> 102 then Some (n - 87)
     else if 65 \<le> n \<and> n \<le> 70 then Some (n - 55) else None)"

fun take_hex4 :: "string \<Rightarrow> (nat \<times> string) option" where
  "take_hex4 (a # b # c # d # cs) =
     (case (hex_value a, hex_value b, hex_value c, hex_value d) of
        (Some x, Some y, Some z, Some w) \<Rightarrow> Some (4096 * x + 256 * y + 16 * z + w, cs)
      | _ \<Rightarrow> None)"
| "take_hex4 _ = None"

text \<open>The UTF-8 bytes of a code point; a lone surrogate gets its three-byte form.\<close>

definition utf8_of :: "nat \<Rightarrow> string" where
  "utf8_of n =
     (if n < 128 then [char_of n]
      else if n < 2048 then [char_of (192 + n div 64), char_of (128 + n mod 64)]
      else if n < 65536
      then [char_of (224 + n div 4096), char_of (128 + n div 64 mod 64), char_of (128 + n mod 64)]
      else [char_of (240 + n div 262144), char_of (128 + n div 4096 mod 64),
        char_of (128 + n div 64 mod 64), char_of (128 + n mod 64)])"

definition cont :: "char \<Rightarrow> bool" where
  "cont c \<longleftrightarrow> 128 \<le> (of_char c :: nat) \<and> (of_char c :: nat) < 192"

text \<open>Well-formed UTF-8, surrogates passed (\<^verbatim>\<open>errors="surrogatepass"\<close>).\<close>

fun utf8_valid :: "string \<Rightarrow> bool" where
  "utf8_valid [] = True"
| "utf8_valid (c # cs) = (let n = (of_char c :: nat) in
     if n < 128 then utf8_valid cs
     else case cs of [] \<Rightarrow> False
     | d # ds \<Rightarrow> if 194 \<le> n \<and> n < 224 then cont d \<and> utf8_valid ds
       else case ds of [] \<Rightarrow> False
       | e # es \<Rightarrow> if 224 \<le> n \<and> n < 240
           then cont d \<and> cont e \<and> (n = 224 \<longrightarrow> 160 \<le> (of_char d :: nat)) \<and> utf8_valid es
         else case es of [] \<Rightarrow> False
         | f # fs \<Rightarrow> 240 \<le> n \<and> n < 245 \<and> cont d \<and> cont e \<and> cont f
             \<and> (n = 240 \<longrightarrow> 144 \<le> (of_char d :: nat)) \<and> (n = 244 \<longrightarrow> (of_char d :: nat) < 144)
             \<and> utf8_valid fs)"

text \<open>The text after the opening quote, up to and without the closing one.\<close>

function parse_string :: "string \<Rightarrow> (string \<times> string) option" where
  "parse_string [] = None"
| "parse_string (c # cs) = 
     (if c = CHR 0x22 then Some ([], cs)
     else if (of_char c :: nat) < 32 then None
     else if c \<noteq> CHR 0x5C then map_option (apfst ((#) c)) (parse_string cs)
     else case cs of [] \<Rightarrow> None
     | d # ds \<Rightarrow> (
         if d = CHR 0x22 \<or> d = CHR 0x5C \<or> d = CHR ''/'' then map_option (apfst ((#) d)) (parse_string ds)
         else if d = CHR ''b'' then map_option (apfst ((#) (CHR 0x08))) (parse_string ds)
         else if d = CHR ''f'' then map_option (apfst ((#) (CHR 0x0C))) (parse_string ds)
         else if d = CHR ''n'' then map_option (apfst ((#) (CHR 0x0A))) (parse_string ds)
         else if d = CHR ''r'' then map_option (apfst ((#) (CHR 0x0D))) (parse_string ds)
         else if d = CHR ''t'' then map_option (apfst ((#) (CHR 0x09))) (parse_string ds)
         else if d \<noteq> CHR ''u'' then None
         else case take_hex4 ds of None \<Rightarrow> None
         | Some (u, es) \<Rightarrow>
             (case es of
                b1 # b2 # es2 \<Rightarrow>
                  (if 55296 \<le> u \<and> u < 56320 \<and> b1 = CHR 0x5C \<and> b2 = CHR ''u''
                   then case take_hex4 es2 of
                       Some (v, fs) \<Rightarrow>
                         (if 56320 \<le> v \<and> v < 57344
                          then map_option (apfst ((@) (utf8_of (65536 + 1024 * (u - 55296) + (v - 56320)))))
                                 (parse_string fs)
                          else map_option (apfst ((@) (utf8_of u))) (parse_string es))
                     | None \<Rightarrow> None
                   else map_option (apfst ((@) (utf8_of u))) (parse_string es))
              | _ \<Rightarrow> map_option (apfst ((@) (utf8_of u))) (parse_string es))))"
  by pat_completeness auto

lemma take_hex4_length: "take_hex4 s = Some (u, t) \<Longrightarrow> length s = length t + 4"
  by (cases s rule: take_hex4.cases) (auto split: option.splits)

termination parse_string
  by (relation "measure length") (auto dest!: take_hex4_length)

declare parse_string.simps [simp del]

definition take_digits :: "string \<Rightarrow> string \<times> string" where
  "take_digits s = (takeWhile is_digit s, dropWhile is_digit s)"

definition parse_frac :: "string \<Rightarrow> string \<times> string" where
  "parse_frac s = (case s of
      c # cs \<Rightarrow> (if c = CHR ''.'' \<and> fst (take_digits cs) \<noteq> []
        then (c # fst (take_digits cs), snd (take_digits cs)) else ([], s))
    | [] \<Rightarrow> ([], s))"

definition parse_exp :: "string \<Rightarrow> string \<times> string" where
  "parse_exp s = (case s of
      c # cs \<Rightarrow>
        (if c = CHR ''e'' \<or> c = CHR ''E''
         then (case cs of
             d # ds \<Rightarrow>
               (if d = CHR ''+'' \<or> d = CHR ''-''
                then (if fst (take_digits ds) \<noteq> []
                  then (c # d # fst (take_digits ds), snd (take_digits ds)) else ([], s))
                else (if fst (take_digits cs) \<noteq> []
                  then (c # fst (take_digits cs), snd (take_digits cs)) else ([], s)))
           | [] \<Rightarrow> ([], s))
         else ([], s))
    | [] \<Rightarrow> ([], s))"

definition parse_number :: "string \<Rightarrow> (json \<times> string) option" where
  "parse_number s =
     (let neg = (case s of c # _ \<Rightarrow> c = CHR ''-'' | [] \<Rightarrow> False);
          t = (if neg then tl s else s)
      in case t of
           [] \<Rightarrow> None
         | c # cs \<Rightarrow>
             (if \<not> is_digit c then None
              else let (ip, r) = (if c = CHR ''0'' then ([c], cs) else take_digits t);
                       (fp, r2) = parse_frac r; (ep, r3) = parse_exp r2
                   in if fp = [] \<and> ep = []
                      then Some (JInt (if neg then - int (digits_value 0 ip) else int (digits_value 0 ip)), r3)
                      else Some (JFloat ((if neg then ''-'' else []) @ ip @ fp @ ep), r3)))"

definition parse_literal :: "string \<Rightarrow> (json \<times> string) option" where
  "parse_literal s =
     (case strip_prefix ''null'' s of Some r \<Rightarrow> Some (JNull, r) | None \<Rightarrow>
      case strip_prefix ''true'' s of Some r \<Rightarrow> Some (JBool True, r) | None \<Rightarrow>
      case strip_prefix ''false'' s of Some r \<Rightarrow> Some (JBool False, r) | None \<Rightarrow>
      case parse_number s of Some r \<Rightarrow> Some r | None \<Rightarrow>
      case strip_prefix ''NaN'' s of Some r \<Rightarrow> Some (JFloat ''nan'', r) | None \<Rightarrow>
      case strip_prefix ''Infinity'' s of Some r \<Rightarrow> Some (JFloat ''inf'', r) | None \<Rightarrow>
      case strip_prefix ''-Infinity'' s of Some r \<Rightarrow> Some (JFloat ''-inf'', r) | None \<Rightarrow> None)"

text \<open>
  Values, the elements after \<open>[\<close> (or after a comma) and the members after \<open>{\<close> (or after a
  comma, with the pairs read so far). The fuel bounds the nesting; one more than the length of
  the text is always enough, since every call consumes a character before the next.
\<close>

fun parse_value :: "nat \<Rightarrow> string \<Rightarrow> (json \<times> string) option"
and parse_elements :: "nat \<Rightarrow> string \<Rightarrow> (json list \<times> string) option"
and parse_members :: "nat \<Rightarrow> (string \<times> json) list \<Rightarrow> string \<Rightarrow> ((string \<times> json) list \<times> string) option"
where
  "parse_value 0 s = None"
| "parse_value (Suc f) s = (case s of [] \<Rightarrow> None
     | c # cs \<Rightarrow>
         if c = CHR 0x22 then map_option (apfst JStr) (parse_string cs)
         else if c = CHR ''['' then
           (case skip_ws cs of
              d # ds \<Rightarrow> if d = CHR '']'' then Some (JList [], ds)
                else map_option (apfst JList) (parse_elements f (skip_ws cs))
            | [] \<Rightarrow> None)
         else if c = CHR ''{'' then
           (case skip_ws cs of
              d # ds \<Rightarrow> if d = CHR ''}'' then Some (JObj [], ds)
                else map_option (apfst JObj) (parse_members f [] (skip_ws cs))
            | [] \<Rightarrow> None)
         else parse_literal s)"
| "parse_elements 0 s = None"
| "parse_elements (Suc f) s =
     (case parse_value f s of None \<Rightarrow> None
      | Some (v, r) \<Rightarrow>
          (case skip_ws r of [] \<Rightarrow> None
           | c # cs \<Rightarrow>
               if c = CHR '']'' then Some ([v], cs)
               else if c = CHR '','' then map_option (apfst ((#) v)) (parse_elements f (skip_ws cs))
               else None))"
| "parse_members 0 acc s = None"
| "parse_members (Suc f) acc s =
     (case s of [] \<Rightarrow> None
      | q # qs \<Rightarrow>
          if q \<noteq> CHR 0x22 then None
          else case parse_string qs of None \<Rightarrow> None
          | Some (k, r) \<Rightarrow>
              (case skip_ws r of [] \<Rightarrow> None
               | c # cs \<Rightarrow>
                   if c \<noteq> CHR '':'' then None
                   else case parse_value f (skip_ws cs) of None \<Rightarrow> None
                   | Some (v, r2) \<Rightarrow>
                       (case skip_ws r2 of [] \<Rightarrow> None
                        | d # ds \<Rightarrow>
                            if d = CHR ''}'' then Some (dset k v acc, ds)
                            else if d = CHR '','' then parse_members f (dset k v acc) (skip_ws ds)
                            else None)))"

definition json_loads :: "string \<Rightarrow> exc + json" where
  "json_loads s =
     (if \<not> utf8_valid s then Inl (PyExc UnicodeError)
      else case parse_value (Suc (length s)) (skip_ws s) of
             None \<Rightarrow> Inl (PyExc JSONDecodeError)
           | Some (v, r) \<Rightarrow> if skip_ws r = [] then Inr v else Inl (PyExc JSONDecodeError))"

section \<open>Round trip\<close>

definition delimited :: "string \<Rightarrow> bool" where
  "delimited r \<longleftrightarrow> (case r of [] \<Rightarrow> True | c # _ \<Rightarrow> c = CHR '','' \<or> c = CHR '']'' \<or> c = CHR ''}'')"

text \<open>Values whose printing is read back exactly: no float, distinct keys, valid text.\<close>

fun plain :: "json \<Rightarrow> bool" where
  "plain (JFloat s) = False"
| "plain JOpaque = False"
| "plain (JStr s) = utf8_valid s"
| "plain (JList xs) = list_all plain xs"
| "plain (JObj kvs) = (distinct (dkeys kvs) \<and> list_all (\<lambda>(k, v). utf8_valid k \<and> plain v) kvs)"
| "plain _ = True"

lemma hex_value_digit: "n < 16 \<Longrightarrow> hex_value (hex_digit n) = Some n"
  by (auto simp: hex_value_def hex_digit_def Let_def)

lemma escape_large: "93 \<le> (of_char c :: nat) \<Longrightarrow> escape_char c = [c]"
  by (subgoal_tac "c \<notin> {CHR 0x22, CHR 0x5C, CHR 0x0A, CHR 0x0D, CHR 0x09, CHR 0x0C, CHR 0x08}")
    (simp add: escape_char_def Let_def, force)

lemma parse_string_quote: "parse_string (CHR 0x22 # cs) = Some ([], cs)"
  by (simp add: parse_string.simps)

lemma parse_string_char:
  "c \<noteq> CHR 0x22 \<Longrightarrow> c \<noteq> CHR 0x5C \<Longrightarrow> 32 \<le> (of_char c :: nat) \<Longrightarrow>
     parse_string (c # cs) = map_option (apfst ((#) c)) (parse_string cs)"
  by (simp add: parse_string.simps(2))

lemma parse_string_backslash:
  "parse_string (CHR 0x5C # CHR 0x22 # t) = map_option (apfst ((#) CHR 0x22)) (parse_string t)"
  "parse_string (CHR 0x5C # CHR 0x5C # t) = map_option (apfst ((#) CHR 0x5C)) (parse_string t)"
  "parse_string (CHR 0x5C # CHR ''n'' # t) = map_option (apfst ((#) CHR 0x0A)) (parse_string t)"
  "parse_string (CHR 0x5C # CHR ''r'' # t) = map_option (apfst ((#) CHR 0x0D)) (parse_string t)"
  "parse_string (CHR 0x5C # CHR ''t'' # t) = map_option (apfst ((#) CHR 0x09)) (parse_string t)"
  "parse_string (CHR 0x5C # CHR ''f'' # t) = map_option (apfst ((#) CHR 0x0C)) (parse_string t)"
  "parse_string (CHR 0x5C # CHR ''b'' # t) = map_option (apfst ((#) CHR 0x08)) (parse_string t)"
  by (subst parse_string.simps(2), simp)+

lemma parse_string_unicode:
  "take_hex4 s = Some (n, t) \<Longrightarrow> n < 32 \<Longrightarrow>
     parse_string (CHR 0x5C # CHR ''u'' # s) = map_option (apfst ((@) (utf8_of n))) (parse_string t)"
  by (subst parse_string.simps(2)) (simp split: list.split)

lemma parse_string_escape:
  "parse_string (escape_char c @ t) = map_option (apfst ((#) c)) (parse_string t)"
proof -
  define n where "n = (of_char c :: nat)"
  have small: "n < 32 \<Longrightarrow> utf8_of n = [c]" by (simp add: n_def utf8_of_def)
  consider "c \<in> {CHR 0x22, CHR 0x5C, CHR 0x0A, CHR 0x0D, CHR 0x09, CHR 0x0C, CHR 0x08}"
    | "n < 32" "c \<notin> {CHR 0x0A, CHR 0x0D, CHR 0x09, CHR 0x0C, CHR 0x08}"
    | "32 \<le> n" "c \<notin> {CHR 0x22, CHR 0x5C}" by fastforce
  then show ?thesis
  proof cases
    case 1
    then show ?thesis
      by (elim insertE) (simp_all add: escape_char_def Let_def parse_string_backslash)
  next
    case 2
    have h: "take_hex4 (CHR ''0'' # CHR ''0'' # hex_digit (n div 16) # hex_digit (n mod 16) # t) = Some (n, t)"
      using 2 by (simp add: hex_value_digit) (simp add: hex_value_def)
    have "escape_char c = [CHR 0x5C, CHR ''u'', CHR ''0'', CHR ''0'', hex_digit (n div 16), hex_digit (n mod 16)]"
    proof -
      have "c \<noteq> CHR 0x22" "c \<noteq> CHR 0x5C" using 2(1) by (auto simp: n_def)
      with 2 show ?thesis by (simp add: escape_char_def n_def Let_def)
    qed
    then show ?thesis
      using 2 h by (simp add: parse_string_unicode small apfst_def map_prod_def del: take_hex4.simps)
  next
    case 3
    then have "c \<notin> {CHR 0x0A, CHR 0x0D, CHR 0x09, CHR 0x0C, CHR 0x08}" by (auto simp: n_def)
    with 3 have "escape_char c = [c]" by (simp add: escape_char_def n_def Let_def)
    then show ?thesis using 3 by (simp add: parse_string_char n_def)
  qed
qed

lemma parse_string_dump:
  "parse_string (concat (map escape_char s) @ CHR 0x22 # t) = Some (s, t)"
  by (induction s) (simp_all add: parse_string_escape parse_string_quote)

lemma delimited_digits:
  "delimited r \<Longrightarrow> takeWhile is_digit r = [] \<and> dropWhile is_digit r = r"
  by (auto simp: delimited_def is_digit_def split: list.splits)

lemma take_digits_digits_of: "delimited r \<Longrightarrow> take_digits (digits_of n @ r) = (digits_of n, r)"
  using digits_of_digits [of n] delimited_digits [of r]
  by (simp add: take_digits_def takeWhile_append dropWhile_append)

lemma digits_of_zero: "digits_of n = CHR ''0'' # cs \<Longrightarrow> n = 0 \<and> cs = []"
proof (induction n arbitrary: cs rule: digits_of.induct)
  case (1 n)
  show ?case
  proof (cases "n < 10")
    case True
    then have "char_of (48 + n) = CHR ''0''" "cs = []"
      using 1(2) by (simp_all add: digits_of.simps [of n])
    moreover from this have "48 + n = (of_char CHR ''0'' :: nat)"
      using True by (metis digit_char(2))
    ultimately show ?thesis by simp
  next
    case False
    then obtain ds where "digits_of (n div 10) = CHR ''0'' # ds"
      using 1(2) by (cases "digits_of (n div 10)") (auto simp: digits_of.simps [of n])
    then show ?thesis using 1(1) False by auto
  qed
qed

lemma parse_number_nat:
  assumes "delimited r"
  shows "parse_number (digits_of n @ r) = Some (JInt (int n), r)"
    and "parse_number (CHR ''-'' # digits_of n @ r) = Some (JInt (- int n), r)"
proof -
  obtain c cs where d: "digits_of n = c # cs" by (cases "digits_of n") auto
  have c: "is_digit c" "c \<noteq> CHR ''-''"
    using digits_of_digits [of n] minus_not_digit by (auto simp: d)
  have r: "parse_frac r = ([], r)" "parse_exp r = ([], r)"
    using assms by (auto simp: delimited_def parse_frac_def parse_exp_def split: list.splits)
  have ip: "(if c = CHR ''0'' then ([c], cs @ r) else take_digits (c # cs @ r)) = (digits_of n, r)"
    using digits_of_zero [of n cs] take_digits_digits_of [OF assms, of n] by (auto simp: d)
  have v: "digits_value 0 (c # cs) = n"
    using digits_value_digits_of [of n] by (simp only: d)
  show "parse_number (digits_of n @ r) = Some (JInt (int n), r)"
    using c ip r v by (simp add: parse_number_def d Let_def split: if_splits)
  show "parse_number (CHR ''-'' # digits_of n @ r) = Some (JInt (- int n), r)"
    using c ip r v by (simp add: parse_number_def d Let_def split: if_splits)
qed

lemma str_int_hd: "\<exists>c cs. str_int i = c # cs \<and> (is_digit c \<or> c = CHR ''-'')"
proof (cases "i < 0")
  case True
  then show ?thesis by (simp add: str_int_def)
next
  case False
  then show ?thesis using digits_of_digits [of "nat i"]
    by (cases "digits_of (nat i)") (auto simp: str_int_def)
qed

lemma strip_prefix_number:
  "is_digit c \<or> c = CHR ''-'' \<Longrightarrow> strip_prefix ''null'' (c # cs) = None
     \<and> strip_prefix ''true'' (c # cs) = None \<and> strip_prefix ''false'' (c # cs) = None"
  by (auto simp: is_digit_def)

lemma parse_literal_int: "delimited r \<Longrightarrow> parse_literal (str_int i @ r) = Some (JInt i, r)"
proof -
  assume r: "delimited r"
  obtain c cs where s: "str_int i = c # cs" "is_digit c \<or> c = CHR ''-''"
    using str_int_hd by blast
  have "parse_number (str_int i @ r) = Some (JInt i, r)"
    using parse_number_nat [OF r] by (simp add: str_int_def)
  then show ?thesis using strip_prefix_number [OF s(2), of "cs @ r"] s(1)
    by (simp add: parse_literal_def)
qed

lemma parse_value_int:
  assumes "delimited r" shows "parse_value (Suc f) (str_int i @ r) = Some (JInt i, r)"
proof -
  obtain c cs where s: "str_int i = c # cs" "is_digit c \<or> c = CHR ''-''"
    using str_int_hd by blast
  then have "c \<noteq> CHR 0x22" "c \<noteq> CHR ''[''" "c \<noteq> CHR ''{''"
    by (auto simp: is_digit_def)
  then show ?thesis using parse_literal_int [OF assms, of i] s(1) by simp
qed

lemma skip_ws_id: "\<not> is_ws c \<Longrightarrow> skip_ws (c # cs) = c # cs"
  by (simp add: skip_ws_def)

lemma delim_not_ws [simp]:
  "\<not> is_ws CHR '',''" "\<not> is_ws CHR '']''" "\<not> is_ws CHR ''}''" "\<not> is_ws CHR '':''"
  "\<not> is_ws (CHR 0x22)"
  by (simp_all add: is_ws_def)

lemma dump_hd:
  "plain v \<Longrightarrow> \<exists>c cs. dump v = c # cs \<and> \<not> is_ws c \<and> c \<noteq> CHR '']'' \<and> c \<noteq> CHR ''}''"
proof (cases v)
  case (JInt i)
  then show ?thesis using str_int_hd [of i] by (auto simp: is_digit_def is_ws_def)
qed (auto simp: dump_string_def is_ws_def)


lemma skip_ws_dump: "plain v \<Longrightarrow> skip_ws (dump v @ r) = dump v @ r"
  using dump_hd [of v] by (auto simp: skip_ws_id)

lemma dump_list_hd:
  "xs \<noteq> [] \<Longrightarrow> list_all plain xs \<Longrightarrow>
     \<exists>c cs. dump_list xs = c # cs \<and> \<not> is_ws c \<and> c \<noteq> CHR '']''"
  by (cases xs rule: dump_list.cases) (auto dest: dump_hd)

lemma dump_items_hd: "kvs \<noteq> [] \<Longrightarrow> \<exists>cs. dump_items kvs = CHR 0x22 # cs"
  by (cases kvs rule: dump_items.cases) (auto simp: dump_string_def)

lemma delimited_simps [simp]:
  "delimited (CHR '','' # r)" "delimited (CHR '']'' # r)" "delimited (CHR ''}'' # r)" "delimited []"
  by (simp_all add: delimited_def)

lemma dset_new: "k \<notin> fst ` set d \<Longrightarrow> dset k v d = d @ [(k, v)]"
  by (induction d) auto

lemma parse_members_dump_string:
  "parse_members (Suc f) acc (dump_string k @ CHR '':'' # s) =
     (case parse_value f (skip_ws s) of None \<Rightarrow> None
      | Some (v, r2) \<Rightarrow>
          (case skip_ws r2 of [] \<Rightarrow> None
           | d # ds \<Rightarrow>
               if d = CHR ''}'' then Some (dset k v acc, ds)
               else if d = CHR '','' then parse_members f (dset k v acc) (skip_ws ds)
               else None))"
  by (simp add: dump_string_def parse_string_dump skip_ws_id)

lemma parse_roundtrip:
  "plain v \<Longrightarrow> length (dump v) < f \<Longrightarrow> delimited r \<Longrightarrow> parse_value f (dump v @ r) = Some (v, r)"
  "xs \<noteq> [] \<Longrightarrow> list_all plain xs \<Longrightarrow> length (dump_list xs) + 1 < f \<Longrightarrow>
     parse_elements f (dump_list xs @ '']'' @ r) = Some (xs, r)"
  "kvs \<noteq> [] \<Longrightarrow> list_all (\<lambda>(k, v). utf8_valid k \<and> plain v) kvs \<Longrightarrow>
     distinct (dkeys acc @ dkeys kvs) \<Longrightarrow> length (dump_items kvs) + 1 < f \<Longrightarrow>
     parse_members f acc (dump_items kvs @ ''}'' @ r) = Some (acc @ kvs, r)"
proof (induction v and xs and kvs arbitrary: f r and f r and f r acc rule: dump_dump_list_dump_items.induct)
  case 1
  then show ?case by (cases f) (simp_all add: parse_literal_def)
next
  case (2 b)
  then show ?case by (cases f) (auto simp: parse_literal_def)
next
  case (5 s)
  then show ?case by (cases f) (simp_all add: dump_string_def parse_string_dump)
next
  case (3 i)
  then show ?case by (cases f) (simp_all add: parse_value_int del: parse_value.simps)
next
  case (6 xs)
  then obtain g where g: "f = Suc g" by (cases f) auto
  show ?case
  proof (cases "xs = []")
    case True
    then show ?thesis by (simp add: g skip_ws_id)
  next
    case False
    with 6 g dump_list_hd [of xs] show ?thesis by (auto simp: skip_ws_id)
  qed
next
  case (7 kvs)
  then obtain g where g: "f = Suc g" by (cases f) auto
  show ?case
  proof (cases "kvs = []")
    case True
    then show ?thesis by (simp add: g skip_ws_id)
  next
    case False
    with 7 g dump_items_hd [of kvs] show ?thesis by (auto simp: skip_ws_id)
  qed
next
  case (10 x)
  then obtain g where "f = Suc g" by (cases f) auto
  with 10 show ?case by (simp add: skip_ws_id)
next
  case (11 x y ys)
  then obtain g where "f = Suc g" by (cases f) auto
  with 11 dump_list_hd [of "y # ys"] show ?case by (auto simp: skip_ws_id)
next
  case (13 k v)
  then obtain g where "f = Suc g" by (cases f) auto
  with 13 show ?case
    by (simp add: parse_members_dump_string skip_ws_dump skip_ws_id dset_new del: parse_members.simps)
next
  case (14 k v kv kvs)
  then obtain g where "f = Suc g" by (cases f) auto
  with 14 dump_items_hd [of "kv # kvs"] show ?case
    by (auto simp: parse_members_dump_string skip_ws_dump skip_ws_id dset_new simp del: parse_members.simps)
qed simp_all

lemma utf8_valid_ascii: "\<forall>c \<in> set s. (of_char c :: nat) < 128 \<Longrightarrow> utf8_valid (s @ t) = utf8_valid t"
  by (induction s) (auto simp: Let_def)

lemma hex_digit_ascii: "n < 16 \<Longrightarrow> (of_char (hex_digit n) :: nat) < 128"
  by (simp add: hex_digit_def)

lemma escape_ascii:
  "(of_char c :: nat) < 128 \<Longrightarrow> \<forall>d \<in> set (escape_char c). (of_char d :: nat) < 128"
  by (simp add: escape_char_def Let_def hex_digit_ascii)

lemma utf8_valid_multi:
  assumes "utf8_valid (c # cs)" and "128 \<le> (of_char c :: nat)"
  obtains xs ys where "cs = xs @ ys" "\<forall>x \<in> set xs. cont x" "utf8_valid ys"
    and "\<And>t. utf8_valid (c # xs @ t) = utf8_valid t"
proof -
  obtain d ds where d: "cs = d # ds" using assms by (cases cs) (auto simp: Let_def)
  define n where "n = (of_char c :: nat)"
  show thesis
  proof (cases "n < 224")
    case True
    have "194 \<le> n \<and> cont d \<and> utf8_valid ds"
      using assms d True by (simp add: n_def Let_def split: if_splits list.splits)
    with True d assms(2) show thesis using that [of "[d]" ds] by (simp add: n_def Let_def)
  next
    case three: False
    obtain e es where e: "ds = e # es" using assms d three
      by (cases ds) (auto simp: n_def Let_def split: if_splits)
    show thesis
    proof (cases "n < 240")
      case True
      then show thesis using assms d e three that [of "[d, e]" es]
        by (simp add: n_def Let_def)
    next
      case False
      obtain f fs where "es = f # fs" using assms d e three False
        by (cases es) (auto simp: n_def Let_def split: if_splits)
      then show thesis using assms d e three False that [of "[d, e, f]" fs]
        by (simp add: n_def Let_def)
    qed
  qed
qed

lemma escape_cont: "\<forall>x \<in> set xs. cont x \<Longrightarrow> concat (map escape_char xs) = xs"
  by (induction xs) (auto simp: escape_large cont_def)

lemma utf8_valid_escape:
  "utf8_valid s \<Longrightarrow> utf8_valid (concat (map escape_char s) @ t) = utf8_valid t"
proof (induction s rule: length_induct)
  case (1 s)
  show ?case
  proof (cases s)
    case Nil
    then show ?thesis by simp
  next
    case (Cons c cs)
    show ?thesis
    proof (cases "(of_char c :: nat) < 128")
      case True
      then show ?thesis using 1 Cons escape_ascii [of c] by (simp add: Let_def utf8_valid_ascii)
    next
      case False
      with 1 Cons obtain xs ys where x: "cs = xs @ ys" "\<forall>x \<in> set xs. cont x" "utf8_valid ys"
          "\<And>t. utf8_valid (c # xs @ t) = utf8_valid t"
        by (metis utf8_valid_multi not_less)
      have "concat (map escape_char s) @ t = c # xs @ concat (map escape_char ys) @ t"
        using x(1,2) Cons False by (simp add: escape_cont escape_large)
      moreover have "utf8_valid (concat (map escape_char ys) @ t) = utf8_valid t"
        using 1 Cons x(1,3) by simp
      ultimately show ?thesis using x(4) by simp
    qed
  qed
qed

lemma utf8_valid_dump_string: "utf8_valid s \<Longrightarrow> utf8_valid (dump_string s @ t) = utf8_valid t"
  by (simp add: dump_string_def utf8_valid_escape)

lemma str_int_ascii: "\<forall>c \<in> set (str_int i). (of_char c :: nat) < 128"
  using digits_of_digits [of "nat i"] digits_of_digits [of "nat (- i)"]
  by (auto simp: str_int_def is_digit_def)

lemma utf8_valid_dump:
  "plain v \<Longrightarrow> utf8_valid (dump v @ t) = utf8_valid t"
  "list_all plain xs \<Longrightarrow> utf8_valid (dump_list xs @ t) = utf8_valid t"
  "list_all (\<lambda>(k, v). utf8_valid k \<and> plain v) kvs \<Longrightarrow> utf8_valid (dump_items kvs @ t) = utf8_valid t"
  by (induction v and xs and kvs arbitrary: t and t and t rule: dump_dump_list_dump_items.induct)
    (auto simp: utf8_valid_dump_string utf8_valid_ascii str_int_ascii)

lemma plain_sort_keys: "plain v \<Longrightarrow> plain (sort_keys v)"
proof (induction v)
  case (JObj kvs)
  then have *: "list_all (\<lambda>(k, v). utf8_valid k \<and> plain (sort_keys v)) kvs"
    by (auto simp: list_all_iff)
  have "dkeys (map (map_prod id sort_keys) kvs) = dkeys kvs" by (induction kvs) auto
  then show ?case using * JObj.prems by (auto simp: list_all_iff)
qed (auto simp: list_all_iff)

lemma json_roundtrip: "plain v \<Longrightarrow> json_loads (json_dumps v) = Inr (sort_keys v)"
proof -
  assume "plain v"
  then have p: "plain (sort_keys v)" by (rule plain_sort_keys)
  have "utf8_valid (json_dumps v)"
    using utf8_valid_dump(1) [OF p, of "[]"] by (simp add: json_dumps_def)
  moreover have "parse_value (Suc (length (json_dumps v))) (skip_ws (json_dumps v)) = Some (sort_keys v, [])"
    using parse_roundtrip(1) [OF p _ delimited_simps(4)] skip_ws_dump [OF p, of "[]"]
    by (simp add: json_dumps_def del: parse_value.simps)
  ultimately show ?thesis by (simp add: json_loads_def skip_ws_def del: parse_value.simps)
qed

end
