(* ===== verification/Canonical.thy ===== *)
theory Canonical
  imports Json
begin

text \<open>
  \<^verbatim>\<open>canonical.py\<close>: bounded strings, the portable-JSON copy, canonical bytes, fingerprints and
  closed objects.

  The digests of \<^verbatim>\<open>hashlib\<close> and \<^verbatim>\<open>hmac\<close> come as a parameter, \<open>digests\<close>: every statement
  holds for any functions in their place. \<open>sha256_hex\<close> is \<open>sha256(...).hexdigest()\<close>.
  Texts of value errors are not kept; \<open>utc_now\<close> and \<open>utc_text\<close> are readings of the clock and
  belong to the client interface.
\<close>

record digests =
  sha256_hex :: "string \<Rightarrow> string"
  hmac_sha256 :: "string \<Rightarrow> string \<Rightarrow> string"

definition control_char :: "char \<Rightarrow> bool" where
  "control_char c \<longleftrightarrow> (of_char c :: nat) < 32 \<or> (of_char c :: nat) = 127"

definition bounded_string :: "json \<Rightarrow> int \<Rightarrow> exc + string" where
  "bounded_string value maximum = (case value of
     JStr s \<Rightarrow> if s = [] \<or> maximum < int (length s) \<or> list_ex control_char s
       then Inl (PyExc ValueError) else Inr s
   | _ \<Rightarrow> Inl (PyExc ValueError))"

definition is_finite_float :: "string \<Rightarrow> bool" where
  "is_finite_float s \<longleftrightarrow> s \<notin> {''nan'', ''inf'', ''-inf''}"

fun json_value :: "json \<Rightarrow> exc + json"
and json_values :: "json list \<Rightarrow> exc + json list"
and json_items :: "(string \<times> json) list \<Rightarrow> exc + (string \<times> json) list" where
  "json_value JNull = Inr JNull"
| "json_value (JBool b) = Inr (JBool b)"
| "json_value (JStr s) = Inr (JStr s)"
| "json_value (JInt i) = Inr (JInt i)"
| "json_value (JFloat s) = (if is_finite_float s then Inr (JFloat s) else Inl (PyExc ValueError))"
| "json_value (JObj kvs) = bindE (json_items kvs) (\<lambda>r. Inr (JObj r))"
| "json_value (JList xs) = bindE (json_values xs) (\<lambda>r. Inr (JList r))"
| "json_value JOpaque = Inl (PyExc TypeError)"
| "json_values [] = Inr []"
| "json_values (x # xs) = bindE (json_value x) (\<lambda>y. bindE (json_values xs) (\<lambda>ys. Inr (y # ys)))"
| "json_items [] = Inr []"
| "json_items ((k, v) # kvs) =
     bindE (bounded_string (JStr k) 512) (\<lambda>_. bindE (json_value v) (\<lambda>w.
       bindE (json_items kvs) (\<lambda>r. Inr ((k, w) # r))))"

definition canonical_json_bytes :: "json \<Rightarrow> exc + string" where
  "canonical_json_bytes value = bindE (json_value value) (\<lambda>selected. Inr (json_dumps selected))"

definition sha256_fingerprint :: "digests \<Rightarrow> json \<Rightarrow> exc + string" where
  "sha256_fingerprint d value =
     bindE (canonical_json_bytes value) (\<lambda>b. Inr (''sha256:'' @ sha256_hex d b))"

definition sha256_bytes :: "digests \<Rightarrow> string \<Rightarrow> string" where
  "sha256_bytes d value = ''sha256:'' @ sha256_hex d value"

definition as_object :: "json \<Rightarrow> exc + (string \<times> json) list" where
  "as_object value = (case value of JObj kvs \<Rightarrow> Inr kvs | _ \<Rightarrow> Inl (PyExc TypeError))"

definition closed_object :: "json \<Rightarrow> string list \<Rightarrow> string list \<Rightarrow> exc + (string \<times> json) list" where
  "closed_object value required optional = bindE (as_object value) (\<lambda>item.
     let missing = filter (\<lambda>k. k \<notin> set (dkeys item)) required;
         unknown = filter (\<lambda>k. k \<notin> set required \<and> k \<notin> set optional) (dkeys item)
     in if missing \<noteq> [] \<or> unknown \<noteq> [] then Inl (PyExc ValueError) else Inr item)"

text \<open>\<open>item[key]\<close> and \<open>item.get(key)\<close> on a parsed object.\<close>

definition item_at :: "(string \<times> json) list \<Rightarrow> string \<Rightarrow> exc + json" where
  "item_at item k = (case map_of item k of None \<Rightarrow> Inl (PyExc KeyError) | Some v \<Rightarrow> Inr v)"

definition item_get :: "(string \<times> json) list \<Rightarrow> string \<Rightarrow> json" where
  "item_get item k = (case map_of item k of None \<Rightarrow> JNull | Some v \<Rightarrow> v)"

section \<open>Lemmas\<close>

lemma bounded_string_Inr [simp]:
  "bounded_string v m = Inr s \<longleftrightarrow>
     v = JStr s \<and> s \<noteq> [] \<and> int (length s) \<le> m \<and> \<not> list_ex control_char s"
  by (auto simp: bounded_string_def split: json.splits)

lemma bounded_string_Inl: "bounded_string v m = Inl e \<Longrightarrow> e = PyExc ValueError"
  by (auto simp: bounded_string_def split: json.splits if_splits)

lemma json_value_copy:
  "json_value v = Inr w \<Longrightarrow> w = v"
  "json_values vs = Inr ws \<Longrightarrow> ws = vs"
  "json_items kvs = Inr lws \<Longrightarrow> lws = kvs"
  by (induction v and vs and kvs arbitrary: w and ws and lws rule: json_value_json_values_json_items.induct)
    (auto split: if_splits)

lemma canonical_Inr: "canonical_json_bytes v = Inr b \<longleftrightarrow> json_value v = Inr v \<and> b = json_dumps v"
  by (auto simp: canonical_json_bytes_def dest: json_value_copy(1))

lemma as_object_Inr [simp]: "as_object v = Inr kvs \<longleftrightarrow> v = JObj kvs"
  by (auto simp: as_object_def split: json.splits)

lemma closed_object_Inr:
  "closed_object v required optional = Inr item \<longleftrightarrow>
     v = JObj item \<and> set required \<subseteq> set (dkeys item) \<and> set (dkeys item) \<subseteq> set required \<union> set optional"
  by (cases v) (auto simp: closed_object_def as_object_def Let_def filter_empty_conv subset_iff)

lemma closed_object_Inl:
  "closed_object v required optional = Inl e \<Longrightarrow> e = PyExc TypeError \<or> e = PyExc ValueError"
  by (cases v) (auto simp: closed_object_def as_object_def Let_def split: if_splits)

lemma item_at_Inr [simp]: "item_at item k = Inr v \<longleftrightarrow> map_of item k = Some v"
  by (auto simp: item_at_def split: option.splits)

lemma closed_object_item:
  assumes "closed_object v required optional = Inr item" and "k \<in> set required"
  obtains w where "map_of item k = Some w"
  using assms by (auto simp: closed_object_Inr) (metis in_mono map_of_eq_None_iff not_None_eq)

section \<open>Properties\<close>



end
