(* ===== verification/Base64.thy ===== *)
theory Base64
  imports Canonical
begin

text \<open>
  \<^verbatim>\<open>base64\<close> of the standard library as the adapter uses it, and the codec's \<open>_b64\<close> and
  \<open>_unb64\<close>. An alphabet is given by its characters for 62 and 63; decoding translates them
  to \<open>+\<close> and \<open>/\<close> first, so that those two are accepted as well.
\<close>

definition b64_char :: "char \<times> char \<Rightarrow> nat \<Rightarrow> char" where
  "b64_char alt n =
     (if n < 26 then char_of (65 + n)
      else if n < 52 then char_of (71 + n)
      else if n < 62 then char_of (n - 4)
      else if n = 62 then fst alt else snd alt)"

definition b64_value :: "char \<times> char \<Rightarrow> char \<Rightarrow> nat option" where
  "b64_value alt c = (let n = (of_char c :: nat) in
     if 65 \<le> n \<and> n \<le> 90 then Some (n - 65)
     else if 97 \<le> n \<and> n \<le> 122 then Some (n - 71)
     else if 48 \<le> n \<and> n \<le> 57 then Some (n + 4)
     else if c = fst alt \<or> c = CHR ''+'' then Some 62
     else if c = snd alt \<or> c = CHR ''/'' then Some 63 else None)"

fun b64encode :: "char \<times> char \<Rightarrow> string \<Rightarrow> string" where
  "b64encode alt [] = []"
| "b64encode alt [a] = (let x = (of_char a :: nat) in
     [b64_char alt (x div 4), b64_char alt (x mod 4 * 16), CHR ''='', CHR ''=''])"
| "b64encode alt [a, b] = (let x = (of_char a :: nat); y = (of_char b :: nat) in
     [b64_char alt (x div 4), b64_char alt (x mod 4 * 16 + y div 16),
      b64_char alt (y mod 16 * 4), CHR ''=''])"
| "b64encode alt (a # b # c # r) =
     (let x = (of_char a :: nat); y = (of_char b :: nat); z = (of_char c :: nat) in
     [b64_char alt (x div 4), b64_char alt (x mod 4 * 16 + y div 16),
      b64_char alt (y mod 16 * 4 + z div 64), b64_char alt (z mod 64)]) @ b64encode alt r"

text \<open>\<open>b64decode(..., validate=True)\<close>: \<open>None\<close> is \<open>binascii.Error\<close>, a value error.\<close>

fun b64decode :: "char \<times> char \<Rightarrow> string \<Rightarrow> string option" where
  "b64decode alt [] = Some []"
| "b64decode alt (a # b # c # d # r) =
     (case (b64_value alt a, b64_value alt b) of
        (Some x, Some y) \<Rightarrow>
          (if c = CHR ''='' \<and> d = CHR ''=''
           then (if r = [] then Some [char_of (4 * x + y div 16)] else None)
           else case b64_value alt c of None \<Rightarrow> None
           | Some z \<Rightarrow>
               (if d = CHR ''=''
                then (if r = []
                  then Some [char_of (4 * x + y div 16), char_of (y mod 16 * 16 + z div 4)] else None)
                else case b64_value alt d of None \<Rightarrow> None
                | Some w \<Rightarrow> map_option ((@) [char_of (4 * x + y div 16),
                    char_of (y mod 16 * 16 + z div 4), char_of (z mod 4 * 64 + w)]) (b64decode alt r)))
      | _ \<Rightarrow> None)"
| "b64decode alt _ = None"

abbreviation std_alt :: "char \<times> char" where
  "std_alt \<equiv> (CHR ''+'', CHR ''/'')"

abbreviation url_alt :: "char \<times> char" where
  "url_alt \<equiv> (CHR ''-'', CHR ''_'')"

definition rstrip_eq :: "string \<Rightarrow> string" where
  "rstrip_eq s = rev (dropWhile (\<lambda>c. c = CHR ''='') (rev s))"

definition b64 :: "string \<Rightarrow> string" where
  "b64 value = rstrip_eq (b64encode url_alt value)"

definition unb64 :: "string \<Rightarrow> exc + string" where
  "unb64 value =
     (if value = [] then Inl (PyExc ValueError)
      else case b64decode url_alt (value @ replicate (nat ((- int (length value)) mod 4)) CHR ''='') of
             None \<Rightarrow> Inl (PyExc ValueError)
           | Some decoded \<Rightarrow> if b64 decoded \<noteq> value then Inl (PyExc ValueError) else Inr decoded)"

section \<open>Lemmas\<close>

definition good_alt :: "char \<times> char \<Rightarrow> bool" where
  "good_alt alt \<longleftrightarrow> alt = std_alt \<or> alt = url_alt"

lemma good_alts [simp]: "good_alt std_alt" "good_alt url_alt"
  by (simp_all add: good_alt_def)

lemma b64_value_char:
  assumes "good_alt alt" and "n < 64" shows "b64_value alt (b64_char alt n) = Some n"
proof -
  consider "n < 26" | "26 \<le> n" "n < 52" | "52 \<le> n" "n < 62" | "n = 62" | "n = 63"
    using assms(2) by linarith
  then show ?thesis
    using assms(1) by cases (auto simp: good_alt_def b64_value_def b64_char_def Let_def)
qed

lemma b64_value_pad: "good_alt alt \<Longrightarrow> b64_value alt CHR ''='' = None"
  by (auto simp: good_alt_def b64_value_def Let_def)

lemma b64_char_not_pad: "good_alt alt \<Longrightarrow> n < 64 \<Longrightarrow> b64_char alt n \<noteq> CHR ''=''"
  by (metis b64_value_char b64_value_pad option.distinct(1))

lemma radix:
  "b < (k::nat) \<Longrightarrow> (a * k + b) div k = a" "b < k \<Longrightarrow> (a * k + b) mod k = b"
  by simp_all

lemma join_bits:
  assumes "x < (256::nat)" "y < (256::nat)" "z < (256::nat)"
  shows "4 * (x div 4) + (x mod 4 * 16 + y div 16) div 16 = x"
    and "(x mod 4 * 16 + y div 16) mod 16 * 16 + (y mod 16 * 4 + z div 64) div 4 = y"
    and "(y mod 16 * 4 + z div 64) mod 4 * 64 + z mod 64 = z"
proof -
  have "y div 16 < 16" "z div 64 < 4" using assms by auto
  then show "4 * (x div 4) + (x mod 4 * 16 + y div 16) div 16 = x"
    "(x mod 4 * 16 + y div 16) mod 16 * 16 + (y mod 16 * 4 + z div 64) div 4 = y"
    "(y mod 16 * 4 + z div 64) mod 4 * 64 + z mod 64 = z"
    by (simp_all only: radix mult_div_mod_eq div_mult_mod_eq)
qed

lemma sextets:
  assumes "x < (256::nat)" "y < (256::nat)" "z < (256::nat)"
  shows "x div 4 < 64" "x mod 4 * 16 + y div 16 < 64" "y mod 16 * 4 + z div 64 < 64" "z mod 64 < 64"
    and "x mod 4 * 16 < 64" "y mod 16 * 4 < 64"
proof -
  have "y div 16 < 16" "z div 64 < 4" "x mod 4 < 4" "y mod 16 < 16" using assms by auto
  then show "x div 4 < 64" "x mod 4 * 16 + y div 16 < 64" "y mod 16 * 4 + z div 64 < 64"
    "z mod 64 < 64" "x mod 4 * 16 < 64" "y mod 16 * 4 < 64"
    using assms by linarith+
qed

lemma b64_roundtrip: "good_alt alt \<Longrightarrow> b64decode alt (b64encode alt s) = Some s"
proof (induction alt s rule: b64encode.induct)
  case (2 alt a)
  show ?case using 2 join_bits(1) [of "of_char a" 0 0] sextets [of "of_char a" 0 0]
    by (simp add: Let_def b64_value_char b64_char_not_pad)
next
  case (3 alt a b)
  show ?case using 3 join_bits [of "of_char a" "of_char b" 0] sextets [of "of_char a" "of_char b" 0]
    by (simp add: Let_def b64_value_char b64_char_not_pad)
next
  case (4 alt a b c r)
  have low: "of_char b div 16 mod 16 = (of_char b div 16 :: nat)" "of_char c div 64 mod 4 = (of_char c div 64 :: nat)"
    "of_char b div 16 div 16 = (0 :: nat)" "of_char c div 64 div 4 = (0 :: nat)"
    by (simp_all add: div_less_iff_less_mult)
  show ?case using 4 sextets [of "of_char a" "of_char b" "of_char c"]
    by (simp add: Let_def b64_value_char b64_char_not_pad low)
qed simp

definition b64_alphabet :: "char \<times> char \<Rightarrow> char set" where
  "b64_alphabet alt = b64_char alt ` {..<64}"

lemma b64_alphabetI: "i < 64 \<Longrightarrow> b64_char alt i \<in> b64_alphabet alt"
  by (simp add: b64_alphabet_def)

lemma b64_alphabet_value: "good_alt alt \<Longrightarrow> c \<in> b64_alphabet alt \<Longrightarrow> b64_value alt c \<noteq> None"
  by (auto simp: b64_alphabet_def b64_value_char)

lemma b64encode_shape:
  "good_alt alt \<Longrightarrow> \<exists>body n. b64encode alt s = body @ replicate n CHR ''='' \<and> n < 3
     \<and> (length body + n) mod 4 = 0 \<and> (s \<noteq> [] \<longrightarrow> body \<noteq> []) \<and> set body \<subseteq> b64_alphabet alt"
proof (induction alt s rule: b64encode.induct)
  case (1 alt)
  then show ?case by (intro exI [of _ "[]"] exI [of _ 0]) simp
next
  case (2 alt a)
  let ?x = "of_char a :: nat"
  show ?case using sextets [of ?x 0 0]
    by (intro exI [of _ "[b64_char alt (?x div 4), b64_char alt (?x mod 4 * 16)]"] exI [of _ 2])
      (simp add: Let_def numeral_2_eq_2 b64_alphabetI)
next
  case (3 alt a b)
  let ?x = "of_char a :: nat" and ?y = "of_char b :: nat"
  show ?case using sextets [of ?x ?y 0]
    by (intro exI [of _ "[b64_char alt (?x div 4), b64_char alt (?x mod 4 * 16 + ?y div 16),
        b64_char alt (?y mod 16 * 4)]"] exI [of _ 1]) (simp add: Let_def b64_alphabetI)
next
  case (4 alt a b c r)
  let ?x = "of_char a :: nat" and ?y = "of_char b :: nat" and ?z = "of_char c :: nat"
  let ?h = "[b64_char alt (?x div 4), b64_char alt (?x mod 4 * 16 + ?y div 16),
    b64_char alt (?y mod 16 * 4 + ?z div 64), b64_char alt (?z mod 64)]"
  obtain body n where b: "b64encode alt r = body @ replicate n CHR ''=''" "n < 3"
      "(length body + n) mod 4 = 0" "set body \<subseteq> b64_alphabet alt"
    using 4 by metis
  have "set ?h \<subseteq> b64_alphabet alt"
    using sextets [of ?x ?y ?z] by (simp add: b64_alphabetI)
  moreover have "(length (?h @ body) + n) mod 4 = 0"
    using b(3) by (simp add: mod_Suc)
  ultimately show ?case using b(1,2,4)
    by (intro exI [of _ "?h @ body"] exI [of _ n]) (simp add: Let_def)
qed

lemma rstrip_eq_app: "\<forall>c \<in> set s. c \<noteq> CHR ''='' \<Longrightarrow> rstrip_eq (s @ replicate n CHR ''='') = s"
proof (induction n)
  case 0
  then show ?case
    by (cases s rule: rev_cases) (auto simp: rstrip_eq_def)
next
  case (Suc n)
  have "rstrip_eq (s @ replicate (Suc n) CHR ''='') = rstrip_eq (s @ replicate n CHR ''='')"
    by (simp add: rstrip_eq_def replicate_app_Cons_same)
  with Suc show ?case by simp
qed

lemma b64_shape:
  obtains n where "b64encode url_alt s = b64 s @ replicate n CHR ''=''" "n < 3"
    "(length (b64 s) + n) mod 4 = 0" "s \<noteq> [] \<longrightarrow> b64 s \<noteq> []"
    "set (b64 s) \<subseteq> b64_alphabet url_alt"
proof -
  obtain body n where b: "b64encode url_alt s = body @ replicate n CHR ''=''" "n < 3"
      "(length body + n) mod 4 = 0" "s \<noteq> [] \<longrightarrow> body \<noteq> []"
      "set body \<subseteq> b64_alphabet url_alt"
    using b64encode_shape [OF good_alts(2), of s] by metis
  have "\<forall>c \<in> set body. c \<noteq> CHR ''=''"
    using b(5) b64_alphabet_value [OF good_alts(2)] b64_value_pad [OF good_alts(2)] by blast
  then have eq: "b64 s = body" by (simp add: b64_def b(1) rstrip_eq_app)
  show thesis using b(4) by (intro that [of n]) (simp_all only: eq b)
qed

lemma pad_count: "n < 3 \<Longrightarrow> (m + n) mod 4 = (0::nat) \<Longrightarrow> nat ((- int m) mod 4) = n"
proof -
  assume n: "n < 3" and m: "(m + n) mod 4 = (0::nat)"
  from m obtain q where "m + n = 4 * q" by auto
  then have "- int m = int n + (- int q) * 4" by linarith
  then have "(- int m) mod 4 = int n mod 4" by (metis mod_mult_self1)
  then show ?thesis using n by simp
qed

lemma unb64_b64: "s \<noteq> [] \<Longrightarrow> unb64 (b64 s) = Inr s"
proof -
  assume s: "s \<noteq> []"
  obtain n where n: "b64encode url_alt s = b64 s @ replicate n CHR ''=''" "n < 3"
    "(length (b64 s) + n) mod 4 = 0" "b64 s \<noteq> []" using b64_shape s by metis
  have "b64decode url_alt (b64 s @ replicate (nat ((- int (length (b64 s))) mod 4)) CHR ''='') = Some s"
    using n pad_count [OF n(2,3)] b64_roundtrip [OF good_alts(2), of s] by simp
  with n(4) show ?thesis by (simp add: unb64_def)
qed

lemma unb64_Inr: "unb64 v = Inr s \<longleftrightarrow> v \<noteq> [] \<and> v = b64 s"
proof
  assume "unb64 v = Inr s"
  then show "v \<noteq> [] \<and> v = b64 s" by (auto simp: unb64_def split: if_splits option.splits)
next
  assume v: "v \<noteq> [] \<and> v = b64 s"
  then have "s \<noteq> []" by (auto simp: b64_def rstrip_eq_def)
  with v show "unb64 v = Inr s" by (simp add: unb64_b64)
qed

lemma unb64_Inl: "unb64 v = Inl e \<Longrightarrow> e = PyExc ValueError"
  by (auto simp: unb64_def split: if_splits option.splits)

lemma b64_alphabet_token:
  "c \<in> b64_alphabet url_alt \<Longrightarrow> c \<noteq> CHR ''.'' \<and> (of_char c :: nat) < 128"
proof -
  assume c: "c \<in> b64_alphabet url_alt"
  have "b64_value url_alt CHR ''.'' = None" by (simp add: b64_value_def)
  moreover have "128 \<le> (of_char c :: nat) \<Longrightarrow> b64_value url_alt c = None"
    by (auto simp: b64_value_def Let_def)
  ultimately show ?thesis using b64_alphabet_value [OF good_alts(2) c] by force
qed

lemma b64_token_chars: "\<forall>c \<in> set (b64 s). c \<noteq> CHR ''.'' \<and> (of_char c :: nat) < 128"
  using b64_shape [of s] b64_alphabet_token by (metis subsetD)

lemma b64_nonempty: "s \<noteq> [] \<Longrightarrow> b64 s \<noteq> []"
  using b64_shape [of s] by metis

lemma b64_Nil [simp]: "b64 [] = []"
  by (simp add: b64_def rstrip_eq_def)

section \<open>Properties\<close>

text \<open>
  The url-safe base64 of the codec is a bijection with its image: decoding accepts exactly
  the canonical, non-empty encodings and returns the bytes they encode.
\<close>

theorem unb64_canonical: "unb64 v = Inr s \<longleftrightarrow> s \<noteq> [] \<and> v = b64 s"
  using b64_nonempty [of s] by (cases s) (auto simp: unb64_Inr)

end
