(* ===== verification/Core.thy ===== *)
theory Core
  imports Base64
begin

text \<open>
  What the adapter uses of \<^verbatim>\<open>meridian_storage\<close> (Core and Streaming, other distributions). Their
  values appear as records of the attributes the adapter reads; their functions (parsing a
  reference, an event, a token envelope, and printing them) come as one parameter, \<open>core\<close>,
  an argument of every definition that calls them. Nothing is assumed of it here.
  \<open>value_error_kind\<close> tells which Meridian exception classes derive from \<open>ValueError\<close>; the
  \<open>max_\<dots>\<close> fields are the size limits Streaming exports, \<open>ref_make\<close> the constructor of a
  reference.
\<close>

record ref =
  ref_catalog :: string
  ref_namespace :: string
  ref_name :: string

record schema_ref =
  sr_catalog :: string
  sr_namespace :: string
  sr_name :: string
  sr_version :: string

text \<open>An event; \<open>ev_rest\<close> stands for the attributes the adapter only passes on.\<close>

record event =
  ev_format_version :: string
  ev_event_id :: string
  ev_stream :: ref
  ev_schema :: schema_ref
  ev_occurred_at :: json
  ev_logical_partition_key :: "string option"
  ev_headers :: "(string \<times> json) list"
  ev_trace_context :: "(string \<times> string) list"
  ev_rest :: json

text \<open>Opaque tokens as the adapter builds them; instants are milliseconds.\<close>

record cursor =
  cu_value :: string
  cu_resource :: ref
  cu_expires_at :: int

record position =
  po_value :: string
  po_resource :: ref
  po_logical_partition :: "string option"

record delivery_token =
  dt_value :: string
  dt_subscription :: ref
  dt_consumer_group :: ref
  dt_expires_at :: int

record core =
  ref_str :: "ref \<Rightarrow> string"
  ref_dict :: "ref \<Rightarrow> json"
  ref_parse :: "json \<Rightarrow> exc + ref"
  ref_make :: "string \<Rightarrow> string \<Rightarrow> string \<Rightarrow> exc + ref"
  schema_dict :: "schema_ref \<Rightarrow> json"
  schema_parse :: "json \<Rightarrow> exc + schema_ref"
  event_parse :: "json \<Rightarrow> exc + event"
  event_dict :: "event \<Rightarrow> json"
  cursor_parse :: "json \<Rightarrow> exc + string \<times> ref"
  position_parse :: "json \<Rightarrow> exc + string \<times> ref"
  delivery_parse :: "json \<Rightarrow> exc + string \<times> ref \<times> ref"
  value_error_kind :: "mkind \<Rightarrow> bool"
  max_batch_size :: int
  max_poll_size :: int
  max_range_size :: int
  max_wait_timeout_ms :: int

fun is_error_of :: "core \<Rightarrow> pykind list \<Rightarrow> exc \<Rightarrow> bool" where
  "is_error_of c ks (Meridian m) = (ValueError \<in> set ks \<and> value_error_kind c (me_kind m))"
| "is_error_of c ks (PyExc k) = (k \<in> set ks \<or> ValueError \<in> set ks \<and> is_value_error (PyExc k))"
| "is_error_of c ks (KafkaException _) = False"
| "is_error_of c ks Diverged = False"

text \<open>\<open>except (ks) as exc: raise e\<close>.\<close>

definition exceptE :: "core \<Rightarrow> pykind list \<Rightarrow> exc \<Rightarrow> exc + 'a \<Rightarrow> exc + 'a" where
  "exceptE c ks e = mapExcE (\<lambda>x. if is_error_of c ks x then e else x)"

lemma exceptE_Inr [simp]: "exceptE c ks e m = Inr x \<longleftrightarrow> m = Inr x"
  by (simp add: exceptE_def)

lemma exceptE_simps [simp]:
  "exceptE c ks e (Inr x) = Inr x"
  "exceptE c ks e (Inl x) = Inl (if is_error_of c ks x then e else x)"
  by (simp_all add: exceptE_def)

lemma exceptE_Inl: "exceptE c ks e m = Inl x \<longleftrightarrow>
    (\<exists>y. m = Inl y \<and> x = (if is_error_of c ks y then e else y))"
  by (auto simp: exceptE_def mapExcE_Inl_iff)

section \<open>A concrete instance\<close>

text \<open>
  A small stand-in for the functions of \<^verbatim>\<open>meridian_storage\<close>, on which the witnesses of the
  development evaluate the model. It is not a model of that package.
\<close>

definition sample_ref :: "string \<Rightarrow> ref" where
  "sample_ref n = \<lparr>ref_catalog = ''streaming'', ref_namespace = ''ns'', ref_name = n\<rparr>"

definition sample_schema :: schema_ref where
  "sample_schema = \<lparr>sr_catalog = ''streaming'', sr_namespace = ''ns'', sr_name = ''s'', sr_version = ''1.0.0''\<rparr>"

definition sample_event :: "string \<Rightarrow> event" where
  "sample_event eid = \<lparr>ev_format_version = ''1'', ev_event_id = eid, ev_stream = sample_ref ''a'',
     ev_schema = sample_schema, ev_occurred_at = JNull, ev_logical_partition_key = None,
     ev_headers = [], ev_trace_context = [], ev_rest = JNull\<rparr>"

definition sample_parse :: "json \<Rightarrow> exc + string" where
  "sample_parse v = (case v of JObj [(k, JStr s)] \<Rightarrow> Inr s | _ \<Rightarrow> Inl (PyExc ValueError))"

definition sample_core :: core where
  "sample_core = \<lparr>ref_str = ref_name, ref_dict = (\<lambda>r. JStr (ref_name r)),
     ref_parse = (\<lambda>v. case v of JStr s \<Rightarrow> Inr (sample_ref s) | _ \<Rightarrow> Inl (PyExc ValueError)),
     ref_make = (\<lambda>ca ns n. Inr \<lparr>ref_catalog = ca, ref_namespace = ns, ref_name = n\<rparr>),
     schema_dict = (\<lambda>s. JObj []), schema_parse = (\<lambda>v. Inr sample_schema),
     event_parse = (\<lambda>v. bindE (sample_parse v) (\<lambda>s. Inr (sample_event s))),
     event_dict = (\<lambda>e. JObj [(''eventId'', JStr (ev_event_id e))]),
     cursor_parse = (\<lambda>v. bindE (sample_parse v) (\<lambda>s. Inr (s, sample_ref ''a''))),
     position_parse = (\<lambda>v. bindE (sample_parse v) (\<lambda>s. Inr (s, sample_ref ''a''))),
     delivery_parse = (\<lambda>v. bindE (sample_parse v) (\<lambda>s. Inr (s, sample_ref ''sub'', sample_ref ''g''))),
     value_error_kind = (\<lambda>k. False), max_batch_size = 10, max_poll_size = 10,
     max_range_size = 10, max_wait_timeout_ms = 1000\<rparr>"

end
