(* ===== verification/Config.thy ===== *)
theory Config
  imports Core
begin

text \<open>
  \<^verbatim>\<open>config.py\<close> and \<^verbatim>\<open>_constants.py\<close>: parsing of a Binding's settings, identity and secrets into
  a closed record, lookups of physical mappings, and the librdkafka dictionaries built from it.

  The create context of the Core SPI is the record \<open>create_context\<close> (resolved secrets are their
  bytes); the versions of installed distributions come as the parameter \<open>installed\<close>
  (\<^verbatim>\<open>importlib.metadata.version\<close>). Configuration errors keep their class and provenance.
\<close>

section \<open>Constants\<close>

definition ADAPTER_CONTRACT_VERSION :: string where
  "ADAPTER_CONTRACT_VERSION = ''1.0.0''"

definition PRODUCTION_ENGINE_PROFILE :: string where
  "PRODUCTION_ENGINE_PROFILE = ''apache-kafka''"

definition TEST_ENGINE_PROFILE :: string where
  "TEST_ENGINE_PROFILE = ''apache-kafka-test''"

definition TRANSACTION_OPERATION_CONTRACT :: string where
  "TRANSACTION_OPERATION_CONTRACT = ''meridian.streaming.transactional-consume-publish''"

definition TRANSACTION_OPERATION_VERSION :: string where
  "TRANSACTION_OPERATION_VERSION = ''1.0.0''"

definition SASL_MECHANISMS :: "string list" where
  "SASL_MECHANISMS = [''PLAIN'', ''SCRAM-SHA-256'', ''SCRAM-SHA-512'']"

definition MAX_CURSOR_KEYS :: nat where
  "MAX_CURSOR_KEYS = 4"

section \<open>Scalar fields\<close>

abbreviation bad_config :: exc where
  "bad_config \<equiv> raised KafkaConfigurationError"

definition lower_hex :: "char \<Rightarrow> bool" where
  "lower_hex c \<longleftrightarrow> is_digit c \<or> 97 \<le> (of_char c :: nat) \<and> (of_char c :: nat) \<le> 102"

definition is_alnum :: "char \<Rightarrow> bool" where
  "is_alnum c \<longleftrightarrow> is_digit c \<or> 65 \<le> (of_char c :: nat) \<and> (of_char c :: nat) \<le> 90
     \<or> 97 \<le> (of_char c :: nat) \<and> (of_char c :: nat) \<le> 122"

definition is_fingerprint :: "string \<Rightarrow> bool" where
  "is_fingerprint s \<longleftrightarrow> take 7 s = ''sha256:'' \<and> length s = 71 \<and> list_all lower_hex (drop 7 s)"

definition token_safe :: "string \<Rightarrow> bool" where
  "token_safe s \<longleftrightarrow> s \<noteq> [] \<and> list_all (\<lambda>c. is_alnum c \<or> c = CHR ''_'' \<or> c = CHR ''-'') s"

definition is_kafka_name :: "string \<Rightarrow> bool" where
  "is_kafka_name s \<longleftrightarrow> s \<noteq> []
     \<and> list_all (\<lambda>c. is_alnum c \<or> c = CHR ''.'' \<or> c = CHR ''_'' \<or> c = CHR ''-'') s
     \<and> s \<notin> {''.'', ''..''}"

definition fingerprint :: "json \<Rightarrow> exc + string" where
  "fingerprint value = (case value of
     JStr s \<Rightarrow> if is_fingerprint s then Inr s else Inl bad_config | _ \<Rightarrow> Inl bad_config)"

definition positive :: "json \<Rightarrow> int \<Rightarrow> exc + int" where
  "positive value maximum = (case value of
     JInt i \<Rightarrow> if 1 \<le> i \<and> i \<le> maximum then Inr i else Inl bad_config | _ \<Rightarrow> Inl bad_config)"

definition boolean :: "json \<Rightarrow> exc + bool" where
  "boolean value = (case value of JBool b \<Rightarrow> Inr b | _ \<Rightarrow> Inl bad_config)"

definition kafka_name :: "json \<Rightarrow> int \<Rightarrow> exc + string" where
  "kafka_name value maximum =
     bindE (mapExcE (\<lambda>_. bad_config) (bounded_string value maximum)) (\<lambda>selected.
       if is_kafka_name selected then Inr selected else Inl bad_config)"

definition resource_ref :: "core \<Rightarrow> json \<Rightarrow> exc + ref" where
  "resource_ref c value = exceptE c [TypeError, ValueError] bad_config
     (case value of
        JStr _ \<Rightarrow> bindE (ref_parse c value) (\<lambda>selected.
          if ref_catalog selected \<noteq> ''streaming'' then Inl (PyExc ValueError) else Inr selected)
      | JObj _ \<Rightarrow> bindE (ref_parse c value) (\<lambda>selected.
          if ref_catalog selected \<noteq> ''streaming'' then Inl (PyExc ValueError) else Inr selected)
      | _ \<Rightarrow> Inl (PyExc TypeError))"

definition parse_schema_ref :: "core \<Rightarrow> json \<Rightarrow> exc + schema_ref" where
  "parse_schema_ref c value = exceptE c [TypeError, ValueError] bad_config
     (case value of
        JObj _ \<Rightarrow> bindE (schema_parse c value) (\<lambda>selected.
          if sr_catalog selected \<noteq> ''streaming'' then Inl (PyExc ValueError) else Inr selected)
      | _ \<Rightarrow> Inl (PyExc TypeError))"

section \<open>Data\<close>

record token_key =
  tk_key_id :: string
  tk_key :: string
  tk_active :: bool

definition mk_token_key :: "json \<Rightarrow> string \<Rightarrow> bool \<Rightarrow> exc + token_key" where
  "mk_token_key key_id key active =
     bindE (bounded_string key_id 64) (\<lambda>kid.
       if \<not> token_safe kid then Inl bad_config
       else if length key < 32 \<or> length key > 128 then Inl bad_config
       else Inr \<lparr>tk_key_id = kid, tk_key = key, tk_active = active\<rparr>)"

record identity =
  id_principal :: string
  id_username :: "string option"

record secrets =
  se_password :: "string option"
  se_private_key_pem :: "string option"
  se_private_key_password :: "string option"
  se_cursor_keys :: "token_key list"

definition active_cursor_key :: "secrets \<Rightarrow> token_key option" where
  "active_cursor_key s = find tk_active (se_cursor_keys s)"

record physical_stream =
  ps_ref :: ref
  ps_topic :: string
  ps_schema_ref :: schema_ref
  ps_schema_fingerprint :: string
  ps_compatible_schema_fingerprints :: "string list"
  ps_resource_fingerprint :: string
  ps_logical_partitions :: int
  ps_retention_ms :: int
  ps_compacted :: bool

record physical_subscription =
  sub_ref :: ref
  sub_stream :: ref
  sub_resource_fingerprint :: string
  sub_acknowledgement_timeout_ms :: int
  sub_max_delivery_attempts :: int
  sub_dead_letter_stream :: "ref option"
  sub_filter :: "(string \<times> json) list"

record physical_consumer_group =
  cg_ref :: ref
  cg_subscription :: ref
  cg_group_id :: string
  cg_resource_fingerprint :: string

datatype physical_resource =
    PhysicalStream physical_stream
  | PhysicalSubscription physical_subscription
  | PhysicalConsumerGroup physical_consumer_group

fun physical_ref :: "physical_resource \<Rightarrow> ref" where
  "physical_ref (PhysicalStream s) = ps_ref s"
| "physical_ref (PhysicalSubscription s) = sub_ref s"
| "physical_ref (PhysicalConsumerGroup g) = cg_ref g"

fun is_stream :: "physical_resource \<Rightarrow> bool" where
  "is_stream (PhysicalStream s) = True"
| "is_stream _ = False"

record settings =
  st_binding_id :: string
  st_engine_profile :: string
  st_engine_version :: string
  st_bootstrap_servers :: string
  st_client_id :: string
  st_cursor_ttl_ms :: int
  st_sasl_mechanism :: "string option"
  st_transactional_id :: "string option"
  st_read_committed :: bool
  st_auto_offset_reset :: string
  st_session_timeout_ms :: int
  st_max_poll_interval_ms :: int
  st_allow_plaintext_for_testing :: bool
  st_resources :: "(ref, physical_resource) dict"
  st_identity :: identity
  st_secrets :: secrets
  st_tls_mode :: string
  st_tls_server_name :: "string option"
  st_tls_ca_pem :: "string option"
  st_tls_client_certificate_pem :: "string option"
  st_operation_timeout_ms :: int

section \<open>Secrets\<close>

fun no_surrogate :: "string \<Rightarrow> bool" where
  "no_surrogate (c # d # cs) =
     (\<not> ((of_char c :: nat) = 237 \<and> 160 \<le> (of_char d :: nat)) \<and> no_surrogate (d # cs))"
| "no_surrogate _ = True"

definition secret_text :: "string \<Rightarrow> exc + string" where
  "secret_text value =
     (if value = [] \<or> int (length value) > 1024 * 1024 then Inl bad_config
      else if utf8_valid value \<and> no_surrogate value then Inr value
      else Inl bad_config)"

text \<open>\<open>optional_secret\<close>, and the optional username.\<close>

definition optional_bounded :: "json \<Rightarrow> int \<Rightarrow> exc + string option" where
  "optional_bounded raw maximum =
     (if raw = JNull then Inr None else bindE (bounded_string raw maximum) (\<lambda>s. Inr (Some s)))"

definition parse_identity :: "string \<Rightarrow> exc + identity" where
  "parse_identity value = bindE (secret_text value) (\<lambda>text.
     case json_loads text of
       Inl _ \<Rightarrow> bindE (bounded_string (JStr text) 512) (\<lambda>p.
         Inr \<lparr>id_principal = p, id_username = None\<rparr>)
     | Inr decoded \<Rightarrow>
         bindE (closed_object decoded [''principal'', ''username''] []) (\<lambda>item.
         bindE (item_at item ''principal'') (\<lambda>rawp.
         bindE (bounded_string rawp 512) (\<lambda>principal.
         bindE (item_at item ''username'') (\<lambda>rawu.
         bindE (optional_bounded rawu 512) (\<lambda>username.
           Inr \<lparr>id_principal = principal, id_username = username\<rparr>))))))"

definition parse_cursor_key :: "json \<Rightarrow> exc + token_key" where
  "parse_cursor_key raw =
     bindE (closed_object raw [''id'', ''keyBase64'', ''active''] []) (\<lambda>key_item.
     bindE (item_at key_item ''keyBase64'') (\<lambda>raw_key.
     bindE (bounded_string raw_key 256) (\<lambda>encoded.
     case b64decode std_alt encoded of
       None \<Rightarrow> Inl bad_config
     | Some key_bytes \<Rightarrow>
         bindE (item_at key_item ''id'') (\<lambda>raw_id.
         bindE (bounded_string raw_id 64) (\<lambda>kid.
         bindE (item_at key_item ''active'') (\<lambda>raw_active.
         bindE (boolean raw_active) (\<lambda>active.
           mk_token_key (JStr kid) key_bytes active)))))))"

definition parse_cursor_keys :: "json \<Rightarrow> exc + token_key list" where
  "parse_cursor_keys raw_keys = (case raw_keys of
     JList raws \<Rightarrow>
       (if \<not> (1 \<le> length raws \<and> length raws \<le> MAX_CURSOR_KEYS) then Inl bad_config
        else bindE (mapE parse_cursor_key raws) (\<lambda>keys.
          if length (filter tk_active keys) \<noteq> 1 then Inl bad_config
          else if \<not> distinct (map tk_key_id keys) then Inl bad_config
          else Inr keys))
   | _ \<Rightarrow> Inl bad_config)"

definition parse_secrets :: "string \<Rightarrow> exc + secrets" where
  "parse_secrets value = bindE (secret_text value) (\<lambda>text.
     bindE (mapExcE (\<lambda>_. bad_config) (json_loads text)) (\<lambda>decoded.
     bindE (closed_object decoded
       [''password'', ''privateKeyPem'', ''privateKeyPassword'', ''cursorKeys''] []) (\<lambda>item.
     bindE (item_at item ''cursorKeys'') (\<lambda>raw_keys.
     bindE (parse_cursor_keys raw_keys) (\<lambda>keys.
     bindE (bindE (item_at item ''password'') (\<lambda>r. optional_bounded r 4096)) (\<lambda>password.
     bindE (bindE (item_at item ''privateKeyPem'') (\<lambda>r. optional_bounded r (64 * 1024))) (\<lambda>pem.
     bindE (bindE (item_at item ''privateKeyPassword'') (\<lambda>r. optional_bounded r 4096)) (\<lambda>pwd.
       Inr \<lparr>se_password = password, se_private_key_pem = pem,
         se_private_key_password = pwd, se_cursor_keys = keys\<rparr>))))))))"

section \<open>Physical mappings\<close>

text \<open>The loop state: the result and the topics and group ids seen so far.\<close>

type_synonym mapping_state = "(ref, physical_resource) dict \<times> string list \<times> string list"

definition fingerprint_set :: "string list \<Rightarrow> string list" where
  "fingerprint_set fps = sort (remdups fps)"

definition parse_stream :: "core \<Rightarrow> ref \<Rightarrow> json \<Rightarrow> string list \<Rightarrow> exc + physical_stream" where
  "parse_stream c rf item stream_topics =
     bindE (closed_object item [''kind'', ''topic'', ''schemaRef'', ''schemaFingerprint'',
       ''resourceFingerprint'', ''logicalPartitions'', ''retentionMs'', ''compacted'']
       [''compatibleSchemaFingerprints'']) (\<lambda>selected.
     bindE (bindE (item_at selected ''topic'') (\<lambda>v. kafka_name v 249)) (\<lambda>topic.
     if topic \<in> set stream_topics then Inl bad_config
     else case (case map_of selected ''compatibleSchemaFingerprints'' of
                  None \<Rightarrow> JList [] | Some v \<Rightarrow> v) of
       JList raw_compatible \<Rightarrow>
         bindE (bindE (item_at selected ''schemaFingerprint'') fingerprint) (\<lambda>schema_fp.
         bindE (bindE (item_at selected ''schemaRef'') (parse_schema_ref c)) (\<lambda>sref.
         if sr_namespace sref \<noteq> ref_namespace rf then Inl bad_config
         else bindE (mapE fingerprint raw_compatible) (\<lambda>more.
         bindE (bindE (item_at selected ''resourceFingerprint'') fingerprint) (\<lambda>resource_fp.
         bindE (bindE (item_at selected ''logicalPartitions'') (\<lambda>v. positive v 1000000)) (\<lambda>parts.
         bindE (bindE (item_at selected ''retentionMs'') (\<lambda>v. positive v (10 ^ 15))) (\<lambda>retention.
         bindE (bindE (item_at selected ''compacted'') boolean) (\<lambda>compacted.
           Inr \<lparr>ps_ref = rf, ps_topic = topic, ps_schema_ref = sref,
             ps_schema_fingerprint = schema_fp,
             ps_compatible_schema_fingerprints = fingerprint_set (schema_fp # more),
             ps_resource_fingerprint = resource_fp, ps_logical_partitions = parts,
             ps_retention_ms = retention, ps_compacted = compacted\<rparr>)))))))
     | _ \<Rightarrow> Inl bad_config))"

definition parse_subscription :: "core \<Rightarrow> ref \<Rightarrow> json \<Rightarrow> exc + physical_subscription" where
  "parse_subscription c rf item =
     bindE (closed_object item [''kind'', ''stream'', ''resourceFingerprint'',
       ''acknowledgementTimeoutMs'', ''maxDeliveryAttempts'', ''deadLetterStream'', ''filter''] [])
       (\<lambda>selected.
     bindE (bindE (item_at selected ''filter'') as_object) (\<lambda>filter_value.
     bindE (item_at selected ''deadLetterStream'') (\<lambda>dead_letter.
     bindE (bindE (item_at selected ''stream'') (resource_ref c)) (\<lambda>stream.
     bindE (bindE (item_at selected ''resourceFingerprint'') fingerprint) (\<lambda>resource_fp.
     bindE (bindE (item_at selected ''acknowledgementTimeoutMs'') (\<lambda>v. positive v 86400000)) (\<lambda>ack.
     bindE (bindE (item_at selected ''maxDeliveryAttempts'') (\<lambda>v. positive v 10000)) (\<lambda>attempts.
     bindE (if dead_letter = JNull then Inr None
       else bindE (resource_ref c dead_letter) (\<lambda>r. Inr (Some r))) (\<lambda>dl.
       Inr \<lparr>sub_ref = rf, sub_stream = stream, sub_resource_fingerprint = resource_fp,
         sub_acknowledgement_timeout_ms = ack, sub_max_delivery_attempts = attempts,
         sub_dead_letter_stream = dl, sub_filter = filter_value\<rparr>))))))))"

definition parse_consumer_group ::
  "core \<Rightarrow> ref \<Rightarrow> json \<Rightarrow> string list \<Rightarrow> exc + physical_consumer_group" where
  "parse_consumer_group c rf item group_ids =
     bindE (closed_object item [''kind'', ''subscription'', ''groupId'', ''resourceFingerprint''] [])
       (\<lambda>selected.
     bindE (bindE (item_at selected ''groupId'') (\<lambda>v. kafka_name v 255)) (\<lambda>group_id.
     if group_id \<in> set group_ids then Inl bad_config
     else bindE (bindE (item_at selected ''subscription'') (resource_ref c)) (\<lambda>sub.
     bindE (bindE (item_at selected ''resourceFingerprint'') fingerprint) (\<lambda>resource_fp.
       Inr \<lparr>cg_ref = rf, cg_subscription = sub, cg_group_id = group_id,
         cg_resource_fingerprint = resource_fp\<rparr>))))"

definition parse_entry :: "core \<Rightarrow> ref \<Rightarrow> (string \<times> json) list \<Rightarrow> string list \<Rightarrow> string list \<Rightarrow>
    exc + physical_resource \<times> string list \<times> string list" where
  "parse_entry c rf item stream_topics group_ids =
     (let kind = item_get item ''kind'' in
      if kind = JStr ''stream''
      then bindE (parse_stream c rf (JObj item) stream_topics) (\<lambda>s.
        Inr (PhysicalStream s, ps_topic s # stream_topics, group_ids))
      else if kind = JStr ''subscription''
      then bindE (parse_subscription c rf (JObj item)) (\<lambda>s.
        Inr (PhysicalSubscription s, stream_topics, group_ids))
      else if kind = JStr ''consumer-group''
      then bindE (parse_consumer_group c rf (JObj item) group_ids) (\<lambda>g.
        Inr (PhysicalConsumerGroup g, stream_topics, cg_group_id g # group_ids))
      else Inl bad_config)"

definition parse_resource :: "core \<Rightarrow> string \<times> json \<Rightarrow> mapping_state \<Rightarrow> exc + mapping_state" where
  "parse_resource c = (\<lambda>(logical_name, document) (result, stream_topics, group_ids).
     bindE (resource_ref c (JStr logical_name)) (\<lambda>rf.
     bindE (as_object document) (\<lambda>item.
     bindE (parse_entry c rf item stream_topics group_ids) (\<lambda>(entry, topics, ids).
       if rf \<in> set (dkeys result) then Inl bad_config
       else Inr (dset rf entry result, topics, ids)))))"

text \<open>The second loop: what a mapping refers to is mapped, and to the right kind.\<close>

definition check_resource :: "(ref, physical_resource) dict \<Rightarrow> physical_resource \<Rightarrow> exc + unit" where
  "check_resource result resource = (case resource of
     PhysicalStream _ \<Rightarrow> Inr ()
   | PhysicalSubscription s \<Rightarrow>
       (case map_of result (sub_stream s) of
          Some (PhysicalStream stream) \<Rightarrow>
            bindE (case sub_dead_letter_stream s of
                None \<Rightarrow> Inr ()
              | Some d \<Rightarrow>
                  (case map_of result d of
                     Some (PhysicalStream dead_letter) \<Rightarrow>
                       if ps_ref dead_letter = ps_ref stream then Inl bad_config else Inr ()
                   | _ \<Rightarrow> Inl bad_config))
              (\<lambda>_. if sub_filter s \<noteq> [] then Inl bad_config else Inr ())
        | _ \<Rightarrow> Inl bad_config)
   | PhysicalConsumerGroup g \<Rightarrow>
       (case map_of result (cg_subscription g) of
          Some (PhysicalSubscription _) \<Rightarrow> Inr ()
        | _ \<Rightarrow> Inl bad_config))"

definition parse_resources :: "core \<Rightarrow> json \<Rightarrow> exc + (ref, physical_resource) dict" where
  "parse_resources c value =
     bindE (as_object value) (\<lambda>raw.
     bindE (foldE (parse_resource c) raw ([], [], [])) (\<lambda>(result, _, _).
       if result = [] \<or> \<not> list_ex (is_stream \<circ> snd) result then Inl bad_config
       else bindE (mapE (check_resource result) (map snd result)) (\<lambda>_. Inr result)))"

section \<open>Binding settings\<close>

record create_context =
  cx_adapter_id :: string
  cx_adapter_contract :: string
  cx_engine_profile :: string
  cx_engine_version :: string
  cx_binding_id :: string
  cx_compatibility_pins :: "(string, string) dict"
  cx_endpoint :: "string option"
  cx_service_ref :: "string option"
  cx_settings :: json
  cx_tls_mode :: string
  cx_tls_server_name :: "string option"
  cx_operation_timeout_ms :: int
  cx_identity :: string
  cx_credential :: string
  cx_tls_ca :: "string option"
  cx_tls_client_certificate :: "string option"

fun str_contains :: "string \<Rightarrow> string \<Rightarrow> bool" where
  "str_contains needle [] = (needle = [])"
| "str_contains needle (c # cs) =
     (take (length needle) (c # cs) = needle \<or> str_contains needle cs)"

definition opt_contains :: "string \<Rightarrow> string option \<Rightarrow> bool" where
  "opt_contains needle v = (case v of None \<Rightarrow> False | Some s \<Rightarrow> str_contains needle s)"

definition truthy :: "string option \<Rightarrow> bool" where
  "truthy v = (case v of None \<Rightarrow> False | Some s \<Rightarrow> s \<noteq> [])"

definition observed_pins :: "(string \<Rightarrow> string) \<Rightarrow> (string, string) dict" where
  "observed_pins installed =
     [(''adapterContract'', ADAPTER_CONTRACT_VERSION),
      (''clientVersion'', installed ''confluent-kafka''),
      (''coreVersion'', ''1.0.0''),
      (''coreDistributionVersion'', installed ''meridian-storage-core''),
      (''semanticsVersion'', installed ''meridian-storage-semantics''),
      (''streamingVersion'', installed ''meridian-storage-streaming''),
      (''driver'', ''confluent-kafka'')]"

definition check_pin :: "create_context \<Rightarrow> string \<times> string \<Rightarrow> exc + unit" where
  "check_pin cx = (\<lambda>(key, actual). case map_of (cx_compatibility_pins cx) key of
     None \<Rightarrow> Inr ()
   | Some selected \<Rightarrow> if selected \<noteq> actual
       then Inl (Meridian ((merror KafkaConfigurationError)
         \<lparr>me_provenance := [(''requirement'', ''binding.artifact-integrity'')]\<rparr>))
       else Inr ())"

definition bootstrap_of :: "create_context \<Rightarrow> exc + string" where
  "bootstrap_of cx =
     (case (if truthy (cx_endpoint cx) then cx_endpoint cx else cx_service_ref cx) of
        None \<Rightarrow> Inl bad_config
      | Some b \<Rightarrow> bounded_string (JStr b) 2048)"

text \<open>\<open>value in {...}\<close> for a set of strings: a list or a dict is not hashable.\<close>

definition in_strings :: "json \<Rightarrow> string list \<Rightarrow> exc + bool" where
  "in_strings value names = (case value of
     JStr s \<Rightarrow> Inr (s \<in> set names)
   | JList _ \<Rightarrow> Inl (PyExc TypeError)
   | JObj _ \<Rightarrow> Inl (PyExc TypeError)
   | _ \<Rightarrow> Inr False)"

fun json_text :: "json \<Rightarrow> string" where
  "json_text (JStr s) = s"
| "json_text _ = []"

definition parse_sasl :: "json \<Rightarrow> exc + string option" where
  "parse_sasl sasl_raw =
     (if sasl_raw = JNull then Inr None
      else bindE (in_strings sasl_raw SASL_MECHANISMS) (\<lambda>ok.
        if ok then Inr (Some (json_text sasl_raw)) else Inl bad_config))"

definition check_profile :: "create_context \<Rightarrow> string option \<Rightarrow> bool \<Rightarrow> exc + unit" where
  "check_profile cx sasl allow_plaintext =
     (if cx_engine_profile cx = PRODUCTION_ENGINE_PROFILE
      then if cx_tls_mode cx = ''disabled'' then Inl bad_config
           else if cx_tls_mode cx \<noteq> ''mutual'' \<and> sasl = None then Inl bad_config
           else if allow_plaintext then Inl bad_config else Inr ()
      else if \<not> allow_plaintext \<or> cx_tls_mode cx \<noteq> ''disabled'' then Inl bad_config
      else Inr ())"

definition optional_secret_text :: "string option \<Rightarrow> exc + string option" where
  "optional_secret_text v =
     (case v of None \<Rightarrow> Inr None | Some s \<Rightarrow> bindE (secret_text s) (\<lambda>t. Inr (Some t)))"

definition check_tls_material ::
  "create_context \<Rightarrow> string option \<Rightarrow> string option \<Rightarrow> secrets \<Rightarrow> exc + unit" where
  "check_tls_material cx ca_pem certificate_pem sec =
     (if cx_tls_mode cx \<in> {''server'', ''mutual''} \<and> \<not> opt_contains ''BEGIN CERTIFICATE'' ca_pem
      then Inl bad_config
      else if cx_tls_mode cx = ''mutual'' \<and> \<not> opt_contains ''BEGIN CERTIFICATE'' certificate_pem
      then Inl bad_config
      else if cx_tls_mode cx = ''mutual''
        \<and> \<not> opt_contains ''PRIVATE KEY'' (se_private_key_pem sec)
      then Inl bad_config else Inr ())"

definition settings_from_context :: "core \<Rightarrow> (string \<Rightarrow> string) \<Rightarrow> create_context \<Rightarrow> exc + settings" where
  "settings_from_context c installed cx =
     bindE (guardE (cx_adapter_id cx = ADAPTER_ID) bad_config) (\<lambda>_.
     bindE (guardE (cx_adapter_contract cx = ADAPTER_CONTRACT_VERSION) bad_config) (\<lambda>_.
     bindE (guardE (cx_engine_profile cx \<in> {PRODUCTION_ENGINE_PROFILE, TEST_ENGINE_PROFILE})
       bad_config) (\<lambda>_.
     bindE (mapE (check_pin cx) (observed_pins installed)) (\<lambda>_.
     bindE (bootstrap_of cx) (\<lambda>bootstrap.
     bindE (closed_object (cx_settings cx) [''clientId'', ''cursorTtlMs'', ''saslMechanism'',
       ''transactionalId'', ''readCommitted'', ''autoOffsetReset'', ''sessionTimeoutMs'',
       ''maxPollIntervalMs'', ''allowPlaintextForTesting'', ''resources''] []) (\<lambda>item.
     bindE (parse_identity (cx_identity cx)) (\<lambda>ident.
     bindE (parse_secrets (cx_credential cx)) (\<lambda>sec.
     bindE (bindE (item_at item ''resources'') (parse_resources c)) (\<lambda>resources.
     bindE (bindE (item_at item ''saslMechanism'') parse_sasl) (\<lambda>sasl.
     bindE (bindE (item_at item ''transactionalId'') (\<lambda>v. if v = JNull then Inr None
       else bindE (kafka_name v 255) (\<lambda>s. Inr (Some s)))) (\<lambda>transactional_id.
     bindE (bindE (item_at item ''autoOffsetReset'') (\<lambda>v. bindE (in_strings v [''earliest'', ''latest''])
       (\<lambda>ok. if ok then Inr (json_text v) else Inl bad_config))) (\<lambda>auto_offset_reset.
     bindE (bindE (item_at item ''allowPlaintextForTesting'') boolean) (\<lambda>allow_plaintext.
     bindE (check_profile cx sasl allow_plaintext) (\<lambda>_.
     bindE (guardE (\<not> (sasl \<noteq> None \<and> (id_username ident = None \<or> se_password sec = None)))
       bad_config) (\<lambda>_.
     bindE (optional_secret_text (cx_tls_ca cx)) (\<lambda>ca_pem.
     bindE (optional_secret_text (cx_tls_client_certificate cx)) (\<lambda>certificate_pem.
     bindE (check_tls_material cx ca_pem certificate_pem sec) (\<lambda>_.
     bindE (bindE (item_at item ''clientId'') (\<lambda>v. bounded_string v 255)) (\<lambda>client_id.
     bindE (bindE (item_at item ''cursorTtlMs'') (\<lambda>v. positive v 31536000000)) (\<lambda>ttl.
     bindE (bindE (item_at item ''readCommitted'') boolean) (\<lambda>read_committed.
     bindE (bindE (item_at item ''sessionTimeoutMs'') (\<lambda>v. positive v 3600000)) (\<lambda>session_timeout.
     bindE (bindE (item_at item ''maxPollIntervalMs'') (\<lambda>v. positive v 86400000)) (\<lambda>max_poll.
       Inr \<lparr>st_binding_id = cx_binding_id cx, st_engine_profile = cx_engine_profile cx,
         st_engine_version = cx_engine_version cx, st_bootstrap_servers = bootstrap,
         st_client_id = client_id, st_cursor_ttl_ms = ttl, st_sasl_mechanism = sasl,
         st_transactional_id = transactional_id, st_read_committed = read_committed,
         st_auto_offset_reset = auto_offset_reset, st_session_timeout_ms = session_timeout,
         st_max_poll_interval_ms = max_poll,
         st_allow_plaintext_for_testing = allow_plaintext, st_resources = resources,
         st_identity = ident, st_secrets = sec, st_tls_mode = cx_tls_mode cx,
         st_tls_server_name = cx_tls_server_name cx, st_tls_ca_pem = ca_pem,
         st_tls_client_certificate_pem = certificate_pem,
         st_operation_timeout_ms = cx_operation_timeout_ms cx\<rparr>)))))))))))))))))))))))"

definition from_context :: "core \<Rightarrow> (string \<Rightarrow> string) \<Rightarrow> create_context \<Rightarrow> exc + settings" where
  "from_context c installed cx =
     mapExcE (\<lambda>e. if has_kind KafkaConfigurationError e then e
       else if is_error_of c [TypeError, ValueError, KeyError, UnicodeError, JSONDecodeError] e
       then bad_config else e) (settings_from_context c installed cx)"

definition transaction_enabled :: "settings \<Rightarrow> bool" where
  "transaction_enabled s \<longleftrightarrow> st_transactional_id s \<noteq> None \<and> st_read_committed s"

section \<open>Lookups\<close>

definition resource :: "settings \<Rightarrow> ref \<Rightarrow> exc + physical_resource" where
  "resource s r = (case map_of (st_resources s) r of
     None \<Rightarrow> Inl bad_config | Some p \<Rightarrow> Inr p)"

definition stream :: "settings \<Rightarrow> ref \<Rightarrow> exc + physical_stream" where
  "stream s r = bindE (resource s r) (\<lambda>selected.
     case selected of PhysicalStream x \<Rightarrow> Inr x | _ \<Rightarrow> Inl bad_config)"

definition subscription :: "settings \<Rightarrow> ref \<Rightarrow> exc + physical_subscription" where
  "subscription s r = bindE (resource s r) (\<lambda>selected.
     case selected of PhysicalSubscription x \<Rightarrow> Inr x | _ \<Rightarrow> Inl bad_config)"

definition consumer_group :: "settings \<Rightarrow> ref \<Rightarrow> exc + physical_consumer_group" where
  "consumer_group s r = bindE (resource s r) (\<lambda>selected.
     case selected of PhysicalConsumerGroup x \<Rightarrow> Inr x | _ \<Rightarrow> Inl bad_config)"

definition group_stream :: "settings \<Rightarrow> ref \<Rightarrow> ref \<Rightarrow>
    exc + physical_subscription \<times> physical_consumer_group \<times> physical_stream" where
  "group_stream s subscription_ref group_ref =
     bindE (subscription s subscription_ref) (\<lambda>sub.
     bindE (consumer_group s group_ref) (\<lambda>grp.
     if cg_subscription grp \<noteq> sub_ref sub then Inl bad_config
     else bindE (stream s (sub_stream sub)) (\<lambda>st. Inr (sub, grp, st))))"

section \<open>Client dictionaries\<close>

datatype cval = CStr string | CInt int | CBool bool

definition dupdate :: "('k, 'v) dict \<Rightarrow> ('k, 'v) dict \<Rightarrow> ('k, 'v) dict" where
  "dupdate d new = fold (\<lambda>(k, v). dset k v) new d"

definition optional_json :: "string option \<Rightarrow> json" where
  "optional_json v = (case v of None \<Rightarrow> JNull | Some s \<Rightarrow> JStr s)"

definition redacted_summary :: "settings \<Rightarrow> (string, json) dict" where
  "redacted_summary s =
     [(''bindingId'', JStr (st_binding_id s)), (''engineProfile'', JStr (st_engine_profile s)),
      (''engineVersion'', JStr (st_engine_version s)), (''clientId'', JStr (st_client_id s)),
      (''tlsMode'', JStr (st_tls_mode s)), (''saslMechanism'', optional_json (st_sasl_mechanism s)),
      (''transactionEnabled'', JBool (transaction_enabled s)),
      (''resourceCount'', JInt (int (length (st_resources s))))]"

definition security_protocol :: "settings \<Rightarrow> string" where
  "security_protocol s =
     (if st_tls_mode s = ''disabled''
      then if truthy (st_sasl_mechanism s) then ''SASL_PLAINTEXT'' else ''PLAINTEXT''
      else if truthy (st_sasl_mechanism s) then ''SASL_SSL'' else ''SSL'')"

definition sasl_entries :: "settings \<Rightarrow> exc + (string, cval) dict" where
  "sasl_entries s = (case st_sasl_mechanism s of
     Some mechanism \<Rightarrow>
       if mechanism = [] then Inr []
       else (case (id_username (st_identity s), se_password (st_secrets s)) of
          (Some username, Some password) \<Rightarrow>
            Inr [(''sasl.mechanism'', CStr mechanism), (''sasl.username'', CStr username),
              (''sasl.password'', CStr password)]
        | _ \<Rightarrow> Inl bad_config)
   | None \<Rightarrow> Inr [])"

definition tls_entries :: "settings \<Rightarrow> exc + (string, cval) dict" where
  "tls_entries s =
     (if st_tls_mode s = ''disabled'' then Inr []
      else case st_tls_ca_pem s of
             None \<Rightarrow> Inl bad_config
           | Some ca \<Rightarrow> Inr [(''enable.ssl.certificate.verification'', CBool True),
               (''ssl.endpoint.identification.algorithm'', CStr ''https''),
               (''ssl.ca.pem'', CStr ca)])"

definition mtls_entries :: "settings \<Rightarrow> exc + (string, cval) dict" where
  "mtls_entries s =
     (if st_tls_mode s \<noteq> ''mutual'' then Inr []
      else case (st_tls_client_certificate_pem s, se_private_key_pem (st_secrets s)) of
             (Some certificate, Some private_key) \<Rightarrow>
               Inr ([(''ssl.certificate.pem'', CStr certificate), (''ssl.key.pem'', CStr private_key)]
                 @ (case se_private_key_password (st_secrets s) of
                      Some pwd \<Rightarrow> if pwd = [] then [] else [(''ssl.key.password'', CStr pwd)]
                    | None \<Rightarrow> []))
           | _ \<Rightarrow> Inl bad_config)"

definition base_entries :: "settings \<Rightarrow> (string, cval) dict" where
  "base_entries s =
     [(''bootstrap.servers'', CStr (st_bootstrap_servers s)),
      (''client.id'', CStr (st_client_id s)), (''security.protocol'', CStr (security_protocol s)),
      (''socket.timeout.ms'', CInt (st_operation_timeout_ms s)),
      (''statistics.interval.ms'', CInt 10000)]"

definition common :: "settings \<Rightarrow> exc + (string, cval) dict" where
  "common s =
     bindE (sasl_entries s) (\<lambda>sasl. bindE (tls_entries s) (\<lambda>tls. bindE (mtls_entries s) (\<lambda>mtls.
       Inr (dupdate (dupdate (dupdate (base_entries s) sasl) tls) mtls))))"

definition producer_config :: "settings \<Rightarrow> bool \<Rightarrow> exc + (string, cval) dict" where
  "producer_config s transactional = bindE (common s) (\<lambda>base.
     let result = dupdate base [(''enable.idempotence'', CBool True), (''acks'', CStr ''all''),
        (''retries'', CInt 2147483647), (''max.in.flight.requests.per.connection'', CInt 5),
        (''delivery.timeout.ms'', CInt (st_operation_timeout_ms s)),
        (''request.timeout.ms'', CInt (st_operation_timeout_ms s)),
        (''message.send.max.retries'', CInt 2147483647)]
     in if transactional
        then if \<not> transaction_enabled s then Inl bad_config
             else case st_transactional_id s of
                    None \<Rightarrow> Inl bad_config
                  | Some tid \<Rightarrow> Inr (dset ''transactional.id'' (CStr tid) result)
        else Inr result)"

definition consumer_config :: "settings \<Rightarrow> string \<Rightarrow> bool \<Rightarrow> exc + (string, cval) dict" where
  "consumer_config s group_id range_reader = bindE (common s) (\<lambda>base.
     Inr (dupdate base [(''group.id'', CStr group_id), (''enable.auto.commit'', CBool False),
        (''enable.auto.offset.store'', CBool False),
        (''auto.offset.reset'', CStr (st_auto_offset_reset s)),
        (''isolation.level'',
           CStr (if st_read_committed s then ''read_committed'' else ''read_uncommitted'')),
        (''session.timeout.ms'', CInt (st_session_timeout_ms s)),
        (''max.poll.interval.ms'', CInt (st_max_poll_interval_ms s)),
        (''enable.partition.eof'', CBool range_reader)]))"

definition admin_config :: "settings \<Rightarrow> exc + (string, cval) dict" where
  "admin_config s = common s"

section \<open>Lemmas\<close>

lemma positive_Inr [simp]: "positive v m = Inr i \<longleftrightarrow> v = JInt i \<and> 1 \<le> i \<and> i \<le> m"
  by (auto simp: positive_def split: json.splits)

lemma boolean_Inr [simp]: "boolean v = Inr b \<longleftrightarrow> v = JBool b"
  by (auto simp: boolean_def split: json.splits)

lemma fingerprint_Inr [simp]: "fingerprint v = Inr s \<longleftrightarrow> v = JStr s \<and> is_fingerprint s"
  by (auto simp: fingerprint_def split: json.splits)

definition good_key :: "token_key \<Rightarrow> bool" where
  "good_key k \<longleftrightarrow> token_safe (tk_key_id k) \<and> int (length (tk_key_id k)) \<le> 64
     \<and> 32 \<le> length (tk_key k) \<and> length (tk_key k) \<le> 128"

text \<open>A key ring as the codec expects it.\<close>

definition good_ring :: "token_key list \<Rightarrow> bool" where
  "good_ring ks \<longleftrightarrow> list_all good_key ks \<and> length (filter tk_active ks) = 1
     \<and> distinct (map tk_key_id ks) \<and> length ks \<le> MAX_CURSOR_KEYS"

lemma mk_token_key_good: "mk_token_key kid key a = Inr k \<Longrightarrow> good_key k"
  by (auto simp: mk_token_key_def good_key_def split: if_splits)

lemma parse_cursor_key_good: "parse_cursor_key raw = Inr k \<Longrightarrow> good_key k"
  by (auto simp: parse_cursor_key_def dest: mk_token_key_good split: option.splits)

lemma parse_cursor_keys_all: "mapE parse_cursor_key raws = Inr ks \<Longrightarrow> list_all good_key ks"
  by (induction raws arbitrary: ks) (auto dest: parse_cursor_key_good)

lemma parse_cursor_keys_good: "parse_cursor_keys raw = Inr ks \<Longrightarrow> good_ring ks"
  by (auto simp: parse_cursor_keys_def good_ring_def dest: mapE_length parse_cursor_keys_all
      split: json.splits if_splits)

lemma parse_secrets_good: "parse_secrets v = Inr s \<Longrightarrow> good_ring (se_cursor_keys s)"
  by (auto simp: parse_secrets_def dest: parse_cursor_keys_good)

subsection \<open>Mappings\<close>

fun topic_of :: "physical_resource \<Rightarrow> string option" where
  "topic_of (PhysicalStream s) = Some (ps_topic s)"
| "topic_of _ = None"

fun group_id_of :: "physical_resource \<Rightarrow> string option" where
  "group_id_of (PhysicalConsumerGroup g) = Some (cg_group_id g)"
| "group_id_of _ = None"

definition topics_of :: "(ref, physical_resource) dict \<Rightarrow> string list" where
  "topics_of r = List.map_filter (topic_of \<circ> snd) r"

definition group_ids_of :: "(ref, physical_resource) dict \<Rightarrow> string list" where
  "group_ids_of r = List.map_filter (group_id_of \<circ> snd) r"

lemma topics_of_simps [simp]:
  "topics_of [] = []" "topics_of (r @ [(k, p)]) = topics_of r @ (case topic_of p of None \<Rightarrow> [] | Some t \<Rightarrow> [t])"
  by (simp_all add: topics_of_def List.map_filter_def split: option.splits)

lemma group_ids_of_simps [simp]:
  "group_ids_of [] = []"
  "group_ids_of (r @ [(k, p)]) = group_ids_of r @ (case group_id_of p of None \<Rightarrow> [] | Some t \<Rightarrow> [t])"
  by (simp_all add: group_ids_of_def List.map_filter_def split: option.splits)

definition mapping_inv :: "mapping_state \<Rightarrow> bool" where
  "mapping_inv st = (case st of (r, topics, ids) \<Rightarrow>
     distinct (dkeys r) \<and> (\<forall>(k, p) \<in> set r. physical_ref p = k)
     \<and> distinct (topics_of r) \<and> set topics = set (topics_of r)
     \<and> distinct (group_ids_of r) \<and> set ids = set (group_ids_of r))"

lemma set_fingerprint_set [simp]: "set (fingerprint_set fps) = set fps"
  by (simp add: fingerprint_set_def)

lemma parse_stream_Inr:
  "parse_stream c rf item ts = Inr s \<Longrightarrow> ps_ref s = rf \<and> ps_topic s \<notin> set ts
     \<and> sr_namespace (ps_schema_ref s) = ref_namespace rf
     \<and> ps_schema_fingerprint s \<in> set (ps_compatible_schema_fingerprints s)"
  by (auto simp: parse_stream_def split: if_splits json.splits option.splits)

lemma parse_subscription_ref: "parse_subscription c rf item = Inr s \<Longrightarrow> sub_ref s = rf"
  by (auto simp: parse_subscription_def)

lemma parse_consumer_group_Inr:
  "parse_consumer_group c rf item ids = Inr g \<Longrightarrow> cg_ref g = rf \<and> cg_group_id g \<notin> set ids"
  by (auto simp: parse_consumer_group_def split: if_splits)

fun fresh_entry :: "physical_resource \<Rightarrow> string list \<Rightarrow> string list \<Rightarrow> string list \<Rightarrow> string list \<Rightarrow> bool" where
  "fresh_entry (PhysicalStream s) ts ids ts' ids' = (ps_topic s \<notin> set ts \<and> ts' = ps_topic s # ts \<and> ids' = ids)"
| "fresh_entry (PhysicalSubscription s) ts ids ts' ids' = (ts' = ts \<and> ids' = ids)"
| "fresh_entry (PhysicalConsumerGroup g) ts ids ts' ids' =
     (cg_group_id g \<notin> set ids \<and> ts' = ts \<and> ids' = cg_group_id g # ids)"

lemma parse_entry_Inr:
  "parse_entry c rf item ts ids = Inr (p, ts', ids') \<Longrightarrow> physical_ref p = rf \<and> fresh_entry p ts ids ts' ids'"
  by (auto simp: parse_entry_def Let_def split: if_splits
      dest: parse_stream_Inr parse_consumer_group_Inr parse_subscription_ref)

lemma parse_resource_Inr:
  assumes "parse_resource c (n, d) (r, ts, ids) = Inr st'"
  obtains rf p ts' ids' where "st' = (dset rf p r, ts', ids')" "rf \<notin> fst ` set r"
    "physical_ref p = rf" "fresh_entry p ts ids ts' ids'"
  using assms by (auto simp: parse_resource_def split: if_splits dest!: parse_entry_Inr)

lemma parse_resource_inv:
  assumes "parse_resource c e st = Inr st'" and "mapping_inv st"
  shows "mapping_inv st'"
proof -
  obtain n d r ts ids where st: "e = (n, d)" "st = (r, ts, ids)" by (metis prod_cases3 surj_pair)
  obtain rf p ts' ids' where st': "st' = (dset rf p r, ts', ids')" "rf \<notin> fst ` set r"
    and p: "physical_ref p = rf" "fresh_entry p ts ids ts' ids'"
    using assms(1) unfolding st by (rule parse_resource_Inr)
  show ?thesis
    using assms(2) p st'(2)
    by (cases p) (auto simp: mapping_inv_def st st'(1) dset_new)
qed

lemma parse_resources_inv:
  assumes "parse_resources c v = Inr r"
  obtains topics ids where "mapping_inv (r, topics, ids)"
    and "\<And>k p. map_of r k = Some p \<Longrightarrow> check_resource r p = Inr ()"
    and "list_ex (is_stream \<circ> snd) r"
proof -
  from assms obtain raw ts ids where f: "foldE (parse_resource c) raw ([], [], []) = Inr (r, ts, ids)"
    and chk: "list_ex (is_stream \<circ> snd) r" "\<exists>us. mapE (check_resource r) (map snd r) = Inr us"
    by (auto simp: parse_resources_def split: if_splits)
  have inv: "mapping_inv (r, ts, ids)"
    by (rule foldE_invariant [OF f]) (simp add: mapping_inv_def, rule parse_resource_inv)
  moreover have "check_resource r p = Inr ()" if "map_of r k = Some p" for k p
  proof -
    from that have "p \<in> set (map snd r)" by (force dest: map_of_SomeD)
    moreover obtain us where "list_all2 (\<lambda>x y. check_resource r x = Inr y) (map snd r) us"
      using chk(2) by (auto simp: mapE_Inr_iff)
    ultimately show ?thesis by (metis (mono_tags) in_set_conv_nth list_all2_conv_all_nth unit.exhaust)
  qed
  ultimately show ?thesis using chk(1) that by blast
qed

lemma mapping_ref: "mapping_inv (r, ts, ids) \<Longrightarrow> map_of r k = Some p \<Longrightarrow> physical_ref p = k"
  by (auto simp: mapping_inv_def dest!: map_of_SomeD)

lemma check_subscription:
  "check_resource r (PhysicalSubscription s) = Inr u \<Longrightarrow>
     \<exists>st. map_of r (sub_stream s) = Some (PhysicalStream st) \<and> sub_filter s = []
       \<and> (\<forall>d. sub_dead_letter_stream s = Some d \<longrightarrow>
            (\<exists>dl. map_of r d = Some (PhysicalStream dl) \<and> ps_ref dl \<noteq> ps_ref st))"
  by (auto simp: check_resource_def split: option.splits physical_resource.splits if_splits)

lemma check_group:
  "check_resource r (PhysicalConsumerGroup g) = Inr u \<Longrightarrow>
     \<exists>s. map_of r (cg_subscription g) = Some (PhysicalSubscription s)"
  by (auto simp: check_resource_def split: option.splits physical_resource.splits)

subsection \<open>Settings\<close>

lemma optional_secret_text_Inr:
  "optional_secret_text v = Inr (Some s) \<Longrightarrow> v = Some s"
  by (auto simp: optional_secret_text_def secret_text_def split: option.splits if_splits)

lemma parse_sasl_Inr: "parse_sasl v = Inr (Some m) \<Longrightarrow> m \<in> set SASL_MECHANISMS"
  by (auto simp: parse_sasl_def in_strings_def split: if_splits json.splits)

lemma opt_contains_None [simp]: "\<not> opt_contains n None"
  by (simp add: opt_contains_def)

text \<open>What every accepted Binding satisfies.\<close>

definition settings_ok :: "settings \<Rightarrow> bool" where
  "settings_ok s \<longleftrightarrow>
     good_ring (se_cursor_keys (st_secrets s))
     \<and> (1 \<le> st_cursor_ttl_ms s \<and> st_cursor_ttl_ms s \<le> 31536000000)
     \<and> st_engine_profile s \<in> {PRODUCTION_ENGINE_PROFILE, TEST_ENGINE_PROFILE}
     \<and> (if st_engine_profile s = PRODUCTION_ENGINE_PROFILE
        then st_tls_mode s \<noteq> ''disabled'' \<and> (st_tls_mode s = ''mutual'' \<or> st_sasl_mechanism s \<noteq> None)
          \<and> \<not> st_allow_plaintext_for_testing s
        else st_allow_plaintext_for_testing s \<and> st_tls_mode s = ''disabled'')
     \<and> (\<forall>m. st_sasl_mechanism s = Some m \<longrightarrow> m \<in> set SASL_MECHANISMS)
     \<and> \<not> (st_sasl_mechanism s \<noteq> None
          \<and> (id_username (st_identity s) = None \<or> se_password (st_secrets s) = None))
     \<and> (st_tls_mode s \<in> {''server'', ''mutual''} \<longrightarrow>
          opt_contains ''BEGIN CERTIFICATE'' (st_tls_ca_pem s))
     \<and> (st_tls_mode s = ''mutual'' \<longrightarrow>
          opt_contains ''BEGIN CERTIFICATE'' (st_tls_client_certificate_pem s)
          \<and> opt_contains ''PRIVATE KEY'' (se_private_key_pem (st_secrets s)))"

lemma profiles_differ [simp]: "PRODUCTION_ENGINE_PROFILE \<noteq> TEST_ENGINE_PROFILE"
  by (simp add: PRODUCTION_ENGINE_PROFILE_def TEST_ENGINE_PROFILE_def)

lemma check_profile_Inr:
  "check_profile cx sasl p = Inr u \<longleftrightarrow>
     (if cx_engine_profile cx = PRODUCTION_ENGINE_PROFILE
      then cx_tls_mode cx \<noteq> ''disabled'' \<and> (cx_tls_mode cx = ''mutual'' \<or> sasl \<noteq> None) \<and> \<not> p
      else p \<and> cx_tls_mode cx = ''disabled'')"
  by (auto simp: check_profile_def)

lemma check_tls_material_Inr:
  "check_tls_material cx ca cert sec = Inr u \<longleftrightarrow>
     (cx_tls_mode cx \<in> {''server'', ''mutual''} \<longrightarrow> opt_contains ''BEGIN CERTIFICATE'' ca)
     \<and> (cx_tls_mode cx = ''mutual'' \<longrightarrow> opt_contains ''BEGIN CERTIFICATE'' cert
          \<and> opt_contains ''PRIVATE KEY'' (se_private_key_pem sec))"
  by (auto simp: check_tls_material_def)

lemma from_context_parts:
  assumes "from_context c installed cx = Inr s"
  shows "st_engine_profile s = cx_engine_profile cx
    \<and> cx_engine_profile cx \<in> {PRODUCTION_ENGINE_PROFILE, TEST_ENGINE_PROFILE}
    \<and> st_tls_mode s = cx_tls_mode cx
    \<and> parse_secrets (cx_credential cx) = Inr (st_secrets s)
    \<and> (\<exists>v. parse_sasl v = Inr (st_sasl_mechanism s))
    \<and> (\<exists>v. parse_resources c v = Inr (st_resources s))
    \<and> (\<exists>u. check_profile cx (st_sasl_mechanism s) (st_allow_plaintext_for_testing s) = Inr u)
    \<and> \<not> (st_sasl_mechanism s \<noteq> None
          \<and> (id_username (st_identity s) = None \<or> se_password (st_secrets s) = None))
    \<and> (\<exists>u. check_tls_material cx (st_tls_ca_pem s) (st_tls_client_certificate_pem s)
          (st_secrets s) = Inr u)
    \<and> (\<exists>v. positive v 31536000000 = Inr (st_cursor_ttl_ms s))"
  using assms unfolding from_context_def settings_from_context_def mapExcE_simps bindE_Inr_iff guardE_simps
  apply (elim exE conjE)
  apply (drule sum.inject(2) [THEN iffD1])
  apply hypsubst
  apply (unfold settings.simps)
  apply (intro conjI)
           apply (rule refl | assumption | (rule exI, assumption))+
  done

lemma from_context_ok:
  assumes "from_context c installed cx = Inr s" shows "settings_ok s"
proof -
  note parts = from_context_parts [OF assms]
  have ring: "good_ring (se_cursor_keys (st_secrets s))"
    using parts by (blast dest: parse_secrets_good)
  have sasl: "m \<in> set SASL_MECHANISMS" if "st_sasl_mechanism s = Some m" for m
    using parts that by (metis parse_sasl_Inr)
  have ttl: "1 \<le> st_cursor_ttl_ms s \<and> st_cursor_ttl_ms s \<le> 31536000000"
    using parts by (simp only: positive_Inr) metis
  have engine: "st_engine_profile s \<in> {PRODUCTION_ENGINE_PROFILE, TEST_ENGINE_PROFILE}"
    using parts by (simp only:)
  have profile: "if st_engine_profile s = PRODUCTION_ENGINE_PROFILE
      then st_tls_mode s \<noteq> ''disabled'' \<and> (st_tls_mode s = ''mutual'' \<or> st_sasl_mechanism s \<noteq> None)
        \<and> \<not> st_allow_plaintext_for_testing s
      else st_allow_plaintext_for_testing s \<and> st_tls_mode s = ''disabled''"
    using parts unfolding check_profile_Inr by metis
  have tls: "st_tls_mode s \<in> {''server'', ''mutual''} \<longrightarrow> opt_contains ''BEGIN CERTIFICATE'' (st_tls_ca_pem s)"
    "st_tls_mode s = ''mutual'' \<longrightarrow> opt_contains ''BEGIN CERTIFICATE'' (st_tls_client_certificate_pem s)
        \<and> opt_contains ''PRIVATE KEY'' (se_private_key_pem (st_secrets s))"
    using parts unfolding check_tls_material_Inr by metis+
  have both: "\<not> (st_sasl_mechanism s \<noteq> None
      \<and> (id_username (st_identity s) = None \<or> se_password (st_secrets s) = None))"
    using parts by (elim conjE)
  show ?thesis unfolding settings_ok_def
    using ring ttl engine profile both tls
    by (intro conjI) (assumption | (elim conjE, assumption) | metis sasl)+
qed


lemma map_of_dupdate: "map_of (dupdate d new) = map_of d ++ map_of (rev new)"
  by (induction new arbitrary: d) (auto simp: dupdate_def map_add_upd_left fun_eq_iff map_add_def split: option.splits)

lemma dupdate_Cons: "dupdate d ((k, v) # new) = dupdate (dset k v d) new"
  by (simp add: dupdate_def)

lemma dupdate_Nil: "dupdate d [] = d"
  by (simp add: dupdate_def)

lemma sasl_nonempty: "settings_ok s \<Longrightarrow> st_sasl_mechanism s = Some m \<Longrightarrow> m \<noteq> []"
  by (auto simp: settings_ok_def SASL_MECHANISMS_def)

lemma sasl_entries_cases:
  assumes "sasl_entries s = Inr e" and "settings_ok s"
  shows "e = [] \<and> st_sasl_mechanism s = None \<or>
    (\<exists>m u p. e = [(''sasl.mechanism'', CStr m), (''sasl.username'', CStr u), (''sasl.password'', CStr p)]
       \<and> truthy (st_sasl_mechanism s))"
  using assms(1) sasl_nonempty [OF assms(2)]
  by (auto simp: sasl_entries_def truthy_def split: option.splits if_splits)

lemma tls_entries_cases:
  "tls_entries s = Inr e \<Longrightarrow> st_tls_mode s \<noteq> ''disabled'' \<Longrightarrow>
    \<exists>ca. e = [(''enable.ssl.certificate.verification'', CBool True),
      (''ssl.endpoint.identification.algorithm'', CStr ''https''), (''ssl.ca.pem'', CStr ca)]"
  by (auto simp: tls_entries_def split: option.splits)

lemma mtls_entries_cases:
  "mtls_entries s = Inr e \<Longrightarrow> e = [] \<and> st_tls_mode s \<noteq> ''mutual'' \<or>
    (\<exists>c k. e = [(''ssl.certificate.pem'', c), (''ssl.key.pem'', k)]) \<or>
    (\<exists>c k p. e = [(''ssl.certificate.pem'', c), (''ssl.key.pem'', k), (''ssl.key.password'', p)])"
  by (simp add: mtls_entries_def split: if_splits option.splits) auto

lemma map_of_dupdate_distinct:
  "distinct (dkeys new) \<Longrightarrow> map_of (dupdate d new) = map_of d ++ map_of new"
  by (metis map_of_dupdate map_of_inject_set distinct_rev rev_map set_rev)

lemma resource_Inr [simp]: "resource s r = Inr p \<longleftrightarrow> map_of (st_resources s) r = Some p"
  by (auto simp: resource_def split: option.splits)

lemma lookup_Inr [simp]:
  "stream s r = Inr x \<longleftrightarrow> map_of (st_resources s) r = Some (PhysicalStream x)"
  "subscription s r = Inr y \<longleftrightarrow> map_of (st_resources s) r = Some (PhysicalSubscription y)"
  "consumer_group s r = Inr z \<longleftrightarrow> map_of (st_resources s) r = Some (PhysicalConsumerGroup z)"
  by (cases "map_of (st_resources s) r";
      auto simp: stream_def subscription_def consumer_group_def resource_def
        split: physical_resource.split physical_resource.split_asm)+

lemma lookup_Inl:
  "stream s r = Inl e \<Longrightarrow> e = bad_config" "subscription s r = Inl e \<Longrightarrow> e = bad_config"
  "consumer_group s r = Inl e \<Longrightarrow> e = bad_config"
  by (cases "map_of (st_resources s) r";
      auto simp: stream_def subscription_def consumer_group_def resource_def
        split: physical_resource.split_asm)+

lemma group_stream_Inr [simp]:
  "group_stream s a b = Inr (sub, grp, st) \<longleftrightarrow>
     map_of (st_resources s) a = Some (PhysicalSubscription sub)
     \<and> map_of (st_resources s) b = Some (PhysicalConsumerGroup grp)
     \<and> cg_subscription grp = sub_ref sub
     \<and> map_of (st_resources s) (sub_stream sub) = Some (PhysicalStream st)"
  by (auto simp: group_stream_def)

section \<open>Properties\<close>

text \<open>
  C23. Referential integrity of an accepted resource map: references are unique and each
  mapping carries the reference it is stored under; topics and group ids are unique; the stream
  of a Subscription is mapped to a Stream, its dead-letter target to another Stream, its filter
  is empty; the Subscription of a ConsumerGroup is mapped to a Subscription.
\<close>

theorem parse_resources_integrity:
  assumes "parse_resources c v = Inr r"
  shows "distinct (dkeys r) \<and> distinct (topics_of r) \<and> distinct (group_ids_of r)
    \<and> (\<forall>k p. map_of r k = Some p \<longrightarrow> physical_ref p = k)
    \<and> (\<forall>k s. map_of r k = Some (PhysicalSubscription s) \<longrightarrow>
         (\<exists>st. map_of r (sub_stream s) = Some (PhysicalStream st)) \<and> sub_filter s = []
         \<and> (\<forall>d. sub_dead_letter_stream s = Some d \<longrightarrow>
              d \<noteq> sub_stream s \<and> (\<exists>dl. map_of r d = Some (PhysicalStream dl))))
    \<and> (\<forall>k g. map_of r k = Some (PhysicalConsumerGroup g) \<longrightarrow>
         (\<exists>s. map_of r (cg_subscription g) = Some (PhysicalSubscription s)))"
proof -
  obtain topics ids where inv: "mapping_inv (r, topics, ids)"
    and chk: "\<And>k p. map_of r k = Some p \<Longrightarrow> check_resource r p = Inr ()"
    using parse_resources_inv [OF assms] by metis
  have "(\<exists>st. map_of r (sub_stream s) = Some (PhysicalStream st)) \<and> sub_filter s = []
      \<and> (\<forall>d. sub_dead_letter_stream s = Some d \<longrightarrow>
           d \<noteq> sub_stream s \<and> (\<exists>dl. map_of r d = Some (PhysicalStream dl)))"
    if "map_of r k = Some (PhysicalSubscription s)" for k s
    using check_subscription [OF chk [OF that]] by auto
  moreover have "\<exists>s. map_of r (cg_subscription g) = Some (PhysicalSubscription s)"
    if "map_of r k = Some (PhysicalConsumerGroup g)" for k g
    using check_group [OF chk [OF that]] .
  ultimately show ?thesis
    using inv mapping_ref [OF inv] by (simp add: mapping_inv_def)
qed

text \<open>
  C24. A Binding accepted for the production profile never talks plaintext: its client
  dictionary, whenever it can be built, selects TLS with certificate verification and host name
  checks, and carries either SASL credentials or a client certificate.
\<close>

theorem production_clients_authenticated:
  assumes "from_context c installed cx = Inr s"
    and "st_engine_profile s = PRODUCTION_ENGINE_PROFILE" and "common s = Inr d"
  shows "map_of d ''security.protocol'' \<in> {Some (CStr ''SSL''), Some (CStr ''SASL_SSL'')}
    \<and> map_of d ''enable.ssl.certificate.verification'' = Some (CBool True)
    \<and> map_of d ''ssl.endpoint.identification.algorithm'' = Some (CStr ''https'')
    \<and> (map_of d ''sasl.password'' \<noteq> None \<or> map_of d ''ssl.key.pem'' \<noteq> None)"
proof -
  note ok = from_context_ok [OF assms(1)]
  have tls: "st_tls_mode s \<noteq> ''disabled''" "st_tls_mode s = ''mutual'' \<or> st_sasl_mechanism s \<noteq> None"
    using ok assms(2) by (simp_all add: settings_ok_def)
  obtain sasl tlse mtls where e: "sasl_entries s = Inr sasl" "tls_entries s = Inr tlse"
      "mtls_entries s = Inr mtls"
    and d: "map_of d = map_of (base_entries s) ++ map_of (rev sasl) ++ map_of (rev tlse) ++ map_of (rev mtls)"
    using assms(3) by (auto simp: common_def map_of_dupdate)
  obtain ca where "tlse = [(''enable.ssl.certificate.verification'', CBool True),
      (''ssl.endpoint.identification.algorithm'', CStr ''https''), (''ssl.ca.pem'', CStr ca)]"
    using tls_entries_cases [OF e(2) tls(1)] by blast
  then show ?thesis
    using sasl_entries_cases [OF e(1) ok] mtls_entries_cases [OF e(3)] tls unfolding d
    by (elim disjE exE conjE)
      (simp_all add: base_entries_def security_protocol_def map_add_def)
qed

text \<open>
  In an accepted Binding every mapped ConsumerGroup can be used: the lookup of its
  Subscription and Stream succeeds, and returns the mappings stored under those references.
\<close>

theorem group_stream_total:
  assumes "from_context c installed cx = Inr s"
    and "map_of (st_resources s) gr = Some (PhysicalConsumerGroup g)"
  shows "\<exists>sub st. group_stream s (cg_subscription g) gr = Inr (sub, g, st)
    \<and> sub_ref sub = cg_subscription g \<and> cg_ref g = gr \<and> ps_ref st = sub_stream sub"
proof -
  obtain v where v: "parse_resources c v = Inr (st_resources s)" using from_context_parts [OF assms(1)] by blast
  obtain topics ids where inv: "mapping_inv (st_resources s, topics, ids)"
    and chk: "\<And>k p. map_of (st_resources s) k = Some p \<Longrightarrow> check_resource (st_resources s) p = Inr ()"
    using parse_resources_inv [OF v] by metis
  obtain sub where sub: "map_of (st_resources s) (cg_subscription g) = Some (PhysicalSubscription sub)"
    using check_group [OF chk [OF assms(2)]] by blast
  obtain st where st: "map_of (st_resources s) (sub_stream sub) = Some (PhysicalStream st)"
    using check_subscription [OF chk [OF sub]] by blast
  show ?thesis
    using assms(2) sub st mapping_ref [OF inv] by fastforce
qed

text \<open>
  What the client dictionaries guarantee for any settings: a consumer never commits or
  stores offsets on its own and reads with the isolation the Binding asks for; a producer is
  idempotent with \<open>acks=all\<close>, and is given the transactional id exactly when a transactional
  one was asked for, which needs a transactional Binding.
\<close>

theorem client_config_guarantees:
  "(\<forall>g r d. consumer_config s g r = Inr d \<longrightarrow>
      map_of d ''enable.auto.commit'' = Some (CBool False)
      \<and> map_of d ''enable.auto.offset.store'' = Some (CBool False)
      \<and> map_of d ''group.id'' = Some (CStr g)
      \<and> map_of d ''isolation.level'' = Some (CStr
          (if st_read_committed s then ''read_committed'' else ''read_uncommitted'')))
   \<and> (\<forall>t d. producer_config s t = Inr d \<longrightarrow>
      map_of d ''enable.idempotence'' = Some (CBool True) \<and> map_of d ''acks'' = Some (CStr ''all'')
      \<and> (t \<longrightarrow> st_read_committed s
          \<and> map_of d ''transactional.id'' = map_option CStr (st_transactional_id s)
          \<and> st_transactional_id s \<noteq> None))"
proof (intro conjI allI impI)
  fix g r d assume "consumer_config s g r = Inr d"
  then obtain b where d: "map_of d = map_of b ++ map_of
      [(''group.id'', CStr g), (''enable.auto.commit'', CBool False),
        (''enable.auto.offset.store'', CBool False),
        (''auto.offset.reset'', CStr (st_auto_offset_reset s)),
        (''isolation.level'',
           CStr (if st_read_committed s then ''read_committed'' else ''read_uncommitted'')),
        (''session.timeout.ms'', CInt (st_session_timeout_ms s)),
        (''max.poll.interval.ms'', CInt (st_max_poll_interval_ms s)),
        (''enable.partition.eof'', CBool r)]"
    by (auto simp: consumer_config_def map_of_dupdate_distinct)
  then show "map_of d ''enable.auto.commit'' = Some (CBool False)"
    "map_of d ''enable.auto.offset.store'' = Some (CBool False)"
    "map_of d ''group.id'' = Some (CStr g)"
    "map_of d ''isolation.level'' = Some (CStr
          (if st_read_committed s then ''read_committed'' else ''read_uncommitted''))"
    by (simp_all add: map_add_def)
next
  fix t d assume "producer_config s t = Inr d"
  then have "map_of d ''enable.idempotence'' = Some (CBool True) \<and> map_of d ''acks'' = Some (CStr ''all'')
      \<and> (t \<longrightarrow> st_read_committed s
          \<and> map_of d ''transactional.id'' = map_option CStr (st_transactional_id s)
          \<and> st_transactional_id s \<noteq> None)"
    by (cases t) (auto simp: producer_config_def Let_def map_of_dupdate_distinct transaction_enabled_def map_add_def
        split: if_splits option.splits)
  then show "map_of d ''enable.idempotence'' = Some (CBool True)" "map_of d ''acks'' = Some (CStr ''all'')"
    "t \<Longrightarrow> st_read_committed s" "t \<Longrightarrow> map_of d ''transactional.id'' = map_option CStr (st_transactional_id s)"
    "t \<Longrightarrow> st_transactional_id s \<noteq> None"
    by blast+
qed

section \<open>A concrete Binding\<close>

text \<open>A production Binding with server TLS and SASL, on which the properties are witnessed.\<close>

definition sample_fingerprint :: string where
  "sample_fingerprint = ''sha256:'' @ replicate 64 CHR ''0''"

definition sample_stream_doc :: "string \<Rightarrow> json" where
  "sample_stream_doc t = JObj [(''kind'', JStr ''stream''), (''topic'', JStr t), (''schemaRef'', JObj []),
     (''schemaFingerprint'', JStr sample_fingerprint), (''resourceFingerprint'', JStr sample_fingerprint),
     (''logicalPartitions'', JInt 1), (''retentionMs'', JInt 1), (''compacted'', JBool False)]"

definition sample_resources :: json where
  "sample_resources = JObj
     [(''a'', sample_stream_doc ''t''), (''dl'', sample_stream_doc ''t.dlq''),
      (''sub'', JObj [(''kind'', JStr ''subscription''), (''stream'', JStr ''a''),
         (''resourceFingerprint'', JStr sample_fingerprint), (''acknowledgementTimeoutMs'', JInt 1000),
         (''maxDeliveryAttempts'', JInt 3), (''deadLetterStream'', JStr ''dl''), (''filter'', JObj [])]),
      (''g'', JObj [(''kind'', JStr ''consumer-group''), (''subscription'', JStr ''sub''),
         (''groupId'', JStr ''grp''), (''resourceFingerprint'', JStr sample_fingerprint)])]"

definition sample_context :: create_context where
  "sample_context = \<lparr>cx_adapter_id = ADAPTER_ID, cx_adapter_contract = ADAPTER_CONTRACT_VERSION,
     cx_engine_profile = PRODUCTION_ENGINE_PROFILE, cx_engine_version = ''4.1.2'', cx_binding_id = ''b'',
     cx_compatibility_pins = [(''driver'', ''confluent-kafka'')], cx_endpoint = Some ''h:9092'',
     cx_service_ref = None,
     cx_settings = JObj [(''clientId'', JStr ''cl''), (''cursorTtlMs'', JInt 1000),
       (''saslMechanism'', JStr ''PLAIN''), (''transactionalId'', JStr ''tx''), (''readCommitted'', JBool True),
       (''autoOffsetReset'', JStr ''earliest''), (''sessionTimeoutMs'', JInt 1000),
       (''maxPollIntervalMs'', JInt 1000), (''allowPlaintextForTesting'', JBool False),
       (''resources'', sample_resources)],
     cx_tls_mode = ''server'', cx_tls_server_name = None, cx_operation_timeout_ms = 1000,
     cx_identity = json_dumps (JObj [(''principal'', JStr ''me''), (''username'', JStr ''u'')]),
     cx_credential = json_dumps (JObj [(''cursorKeys'', JList [JObj [(''active'', JBool True),
       (''id'', JStr ''k''), (''keyBase64'', JStr (replicate 44 CHR ''A''))]]), (''password'', JStr ''p''),
       (''privateKeyPassword'', JNull), (''privateKeyPem'', JNull)]),
     cx_tls_ca = Some ''-BEGIN CERTIFICATE-'', cx_tls_client_certificate = None\<rparr>"

definition sample_stream :: "string \<Rightarrow> string \<Rightarrow> physical_stream" where
  "sample_stream n t = \<lparr>ps_ref = sample_ref n, ps_topic = t, ps_schema_ref = sample_schema,
     ps_schema_fingerprint = sample_fingerprint,
     ps_compatible_schema_fingerprints = [sample_fingerprint],
     ps_resource_fingerprint = sample_fingerprint, ps_logical_partitions = 1, ps_retention_ms = 1,
     ps_compacted = False\<rparr>"

definition sample_subscription :: physical_subscription where
  "sample_subscription = \<lparr>sub_ref = sample_ref ''sub'', sub_stream = sample_ref ''a'',
     sub_resource_fingerprint = sample_fingerprint, sub_acknowledgement_timeout_ms = 1000,
     sub_max_delivery_attempts = 3, sub_dead_letter_stream = Some (sample_ref ''dl''), sub_filter = []\<rparr>"

definition sample_group :: physical_consumer_group where
  "sample_group = \<lparr>cg_ref = sample_ref ''g'', cg_subscription = sample_ref ''sub'', cg_group_id = ''grp'',
     cg_resource_fingerprint = sample_fingerprint\<rparr>"

definition sample_keys :: "token_key list" where
  "sample_keys = [\<lparr>tk_key_id = ''k'', tk_key = replicate 33 (char_of (0::nat)), tk_active = True\<rparr>]"

definition sample_mapping :: "(ref, physical_resource) dict" where
  "sample_mapping = [(sample_ref ''a'', PhysicalStream (sample_stream ''a'' ''t'')),
     (sample_ref ''dl'', PhysicalStream (sample_stream ''dl'' ''t.dlq'')),
     (sample_ref ''sub'', PhysicalSubscription sample_subscription),
     (sample_ref ''g'', PhysicalConsumerGroup sample_group)]"

definition sample_settings :: settings where
  "sample_settings = \<lparr>st_binding_id = ''b'', st_engine_profile = ''apache-kafka'',
     st_engine_version = ''4.1.2'', st_bootstrap_servers = ''h:9092'', st_client_id = ''cl'',
     st_cursor_ttl_ms = 1000, st_sasl_mechanism = Some ''PLAIN'', st_transactional_id = Some ''tx'',
     st_read_committed = True, st_auto_offset_reset = ''earliest'', st_session_timeout_ms = 1000,
     st_max_poll_interval_ms = 1000, st_allow_plaintext_for_testing = False,
     st_resources = sample_mapping,
     st_identity = \<lparr>id_principal = ''me'', id_username = Some ''u''\<rparr>,
     st_secrets = \<lparr>se_password = Some ''p'', se_private_key_pem = None,
       se_private_key_password = None, se_cursor_keys = sample_keys\<rparr>,
     st_tls_mode = ''server'', st_tls_server_name = None, st_tls_ca_pem = Some ''-BEGIN CERTIFICATE-'',
     st_tls_client_certificate_pem = None, st_operation_timeout_ms = 1000\<rparr>"

lemma sample_settings: "from_context sample_core (\<lambda>_. ''v'') sample_context = Inr sample_settings"
  by code_simp

theorem parse_resources_integrity_witness:
  "map_of sample_mapping (sample_ref ''sub'') = Some (PhysicalSubscription sample_subscription)
   \<and> (\<exists>st. map_of sample_mapping (sub_stream sample_subscription) = Some (PhysicalStream st))"
proof -
  have "parse_resources sample_core sample_resources = Inr sample_mapping" by code_simp
  moreover have "map_of sample_mapping (sample_ref ''sub'') = Some (PhysicalSubscription sample_subscription)"
    by code_simp
  ultimately show ?thesis using parse_resources_integrity by metis
qed

theorem production_clients_authenticated_witness:
  "\<exists>d. common sample_settings = Inr d
     \<and> map_of d ''enable.ssl.certificate.verification'' = Some (CBool True)"
proof -
  have "\<not> isl (common sample_settings)" by code_simp
  then obtain d where d: "common sample_settings = Inr d" by (cases "common sample_settings") auto
  moreover have "st_engine_profile sample_settings = PRODUCTION_ENGINE_PROFILE" by code_simp
  ultimately show ?thesis using production_clients_authenticated [OF sample_settings _ d] by blast
qed

theorem group_stream_total_witness:
  "\<exists>sub st. group_stream sample_settings (sample_ref ''sub'') (sample_ref ''g'') = Inr (sub, sample_group, st)"
proof -
  have "map_of (st_resources sample_settings) (sample_ref ''g'') = Some (PhysicalConsumerGroup sample_group)"
    "cg_subscription sample_group = sample_ref ''sub''"
    by code_simp+
  then show ?thesis using group_stream_total [OF sample_settings] by metis
qed

theorem client_config_guarantees_witness:
  "\<exists>d. consumer_config sample_settings ''grp'' False = Inr d
     \<and> map_of d ''enable.auto.commit'' = Some (CBool False)"
proof -
  have "\<not> isl (consumer_config sample_settings ''grp'' False)" by code_simp
  then obtain d where "consumer_config sample_settings ''grp'' False = Inr d"
    by (cases "consumer_config sample_settings ''grp'' False") auto
  then show ?thesis using client_config_guarantees [of sample_settings] by blast
qed

end
