(* ===== verification/Cursor.thy ===== *)
theory Cursor
  imports Config
begin

text \<open>
  \<^verbatim>\<open>cursor/__init__.py\<close>: opaque tokens. \<open>TokenCodec\<close> signs canonical JSON with the active key of
  a ring and accepts what any key of the ring signed; \<open>KafkaCursorCodec\<close> builds cursors,
  positions and delivery tokens on it.

  The reading of the clock (\<open>_now_ms\<close>) is the argument \<open>now\<close> of each operation. An instant made
  from milliseconds (\<open>_utc_from_ms\<close>) stays that number of milliseconds.
\<close>

definition TOKEN_FORMAT :: string where
  "TOKEN_FORMAT = ''mk1''"

definition MAX_CURSOR_PARTITIONS :: nat where
  "MAX_CURSOR_PARTITIONS = 128"

definition MAX_TOKEN_BYTES :: int where
  "MAX_TOKEN_BYTES = 4096"

record cursor_coordinates =
  cc_resource :: ref
  cc_positions :: "(int, int) dict"
  cc_expires_at_ms :: int

record position_coordinates =
  pc_resource :: ref
  pc_partition :: int
  pc_offset :: int

record delivery_coordinates =
  dc_subscription :: ref
  dc_consumer_group :: ref
  dc_partition :: int
  dc_offset :: int
  dc_assignment_epoch :: int
  dc_attempt :: int
  dc_expires_at_ms :: int

section \<open>The token codec\<close>

record codec =
  co_keys :: "(string, token_key) dict"
  co_active :: token_key
  co_ttl_ms :: int

definition token_codec :: "token_key list \<Rightarrow> exc + (string, token_key) dict \<times> token_key" where
  "token_codec keys =
     (if keys = [] \<or> length (filter tk_active keys) \<noteq> 1 then Inl (PyExc ValueError)
      else Inr (fold (\<lambda>k. dset (tk_key_id k) k) keys [], hd (filter tk_active keys)))"

definition cursor_codec :: "token_key list \<Rightarrow> int \<Rightarrow> exc + codec" where
  "cursor_codec keys ttl_ms =
     (if \<not> (1 \<le> ttl_ms \<and> ttl_ms \<le> 31536000000) then Inl (PyExc ValueError)
      else bindE (token_codec keys) (\<lambda>(ring, active).
        Inr \<lparr>co_keys = ring, co_active = active, co_ttl_ms = ttl_ms\<rparr>))"

definition signed_part :: "string \<Rightarrow> string \<Rightarrow> string" where
  "signed_part key_id body = TOKEN_FORMAT @ ''.'' @ key_id @ ''.'' @ body"

definition seal :: "digests \<Rightarrow> token_key \<Rightarrow> string \<Rightarrow> string" where
  "seal d key body = signed_part (tk_key_id key) body @ ''.''
     @ b64 (hmac_sha256 d (tk_key key) (signed_part (tk_key_id key) body))"

definition token_encode :: "digests \<Rightarrow> codec \<Rightarrow> json \<Rightarrow> exc + string" where
  "token_encode d co payload =
     bindE (canonical_json_bytes payload) (\<lambda>bytes.
       let token = seal d (co_active co) (b64 bytes)
       in if int (length token) > MAX_TOKEN_BYTES then Inl (PyExc ValueError) else Inr token)"

fun split_dot :: "string \<Rightarrow> string list" where
  "split_dot [] = [[]]"
| "split_dot (c # cs) = (if c = CHR ''.'' then [] # split_dot cs
     else (c # hd (split_dot cs)) # tl (split_dot cs))"

definition is_ascii :: "string \<Rightarrow> bool" where
  "is_ascii s = list_all (\<lambda>c. (of_char c :: nat) < 128) s"

definition token_integer :: "json \<Rightarrow> int \<Rightarrow> exc + int" where
  "token_integer value minimum = (case value of
     JInt i \<Rightarrow> if i < minimum then Inl (PyExc ValueError) else Inr i
   | _ \<Rightarrow> Inl (PyExc ValueError))"

definition token_fields :: "string list" where
  "token_fields = [''type'', ''resource'', ''topicFingerprint'', ''positions'', ''issuedAtMs'', ''expiresAtMs'']"

definition token_optional_fields :: "string list" where
  "token_optional_fields = [''subscription'', ''consumerGroup'', ''assignmentEpoch'', ''attempt'']"

definition token_item :: "string \<Rightarrow> string \<Rightarrow> int \<Rightarrow> exc + (string \<times> json) list" where
  "token_item decoded expected_type now =
     bindE (json_loads decoded) (\<lambda>value.
     bindE (closed_object value token_fields token_optional_fields) (\<lambda>item.
     bindE (item_at item ''type'') (\<lambda>ty.
     bindE (guardE (ty = JStr expected_type) (PyExc ValueError)) (\<lambda>_.
     bindE (item_at item ''expiresAtMs'') (\<lambda>raw.
     bindE (token_integer raw 1) (\<lambda>expiry.
     bindE (guardE (now < expiry) (PyExc TokenExpired)) (\<lambda>_.
       Inr item)))))))"

definition token_decode :: "digests \<Rightarrow> codec \<Rightarrow> json \<Rightarrow> string \<Rightarrow> int \<Rightarrow> exc + (string \<times> json) list" where
  "token_decode d co token expected_type now = (case token of
     JStr text \<Rightarrow>
       (if text = [] \<or> int (length text) > MAX_TOKEN_BYTES then Inl (PyExc ValueError)
        else case split_dot text of
          [fmt, key_id, body, encoded_signature] \<Rightarrow>
            (if fmt \<noteq> TOKEN_FORMAT then Inl (PyExc ValueError)
             else case map_of (co_keys co) key_id of
               None \<Rightarrow> Inl (PyExc ValueError)
             | Some key \<Rightarrow>
                 bindE (guardE (is_ascii (signed_part key_id body)) (PyExc UnicodeError)) (\<lambda>_.
                 bindE (unb64 encoded_signature) (\<lambda>signature.
                 bindE (guardE (hmac_sha256 d (tk_key key) (signed_part key_id body) = signature)
                   (PyExc ValueError)) (\<lambda>_.
                 bindE (unb64 body) (\<lambda>decoded.
                 bindE (guardE (int (length decoded) \<le> MAX_TOKEN_BYTES) (PyExc ValueError)) (\<lambda>_.
                   token_item decoded expected_type now))))))
        | _ \<Rightarrow> Inl (PyExc ValueError))
   | _ \<Rightarrow> Inl (PyExc ValueError))"

section \<open>Payloads\<close>

definition topic_fingerprint :: "digests \<Rightarrow> string \<Rightarrow> string" where
  "topic_fingerprint d topic = sha256_bytes d topic"

definition positions_json :: "(int, int) dict \<Rightarrow> json" where
  "positions_json positions = JObj (map (\<lambda>(k, v). (str_int k, JInt v)) (sorted_items positions))"

definition payload :: "core \<Rightarrow> digests \<Rightarrow> string \<Rightarrow> ref \<Rightarrow> string \<Rightarrow> (int, int) dict \<Rightarrow> int \<Rightarrow> int \<Rightarrow>
    (string \<times> json) list" where
  "payload c d token_type res topic positions issued_at_ms expires_at_ms =
     [(''type'', JStr token_type), (''resource'', JStr (ref_str c res)),
      (''topicFingerprint'', JStr (topic_fingerprint d topic)),
      (''positions'', positions_json positions), (''issuedAtMs'', JInt issued_at_ms),
      (''expiresAtMs'', JInt expires_at_ms)]"

definition positions :: "(int, int) dict \<Rightarrow> exc + (int, int) dict" where
  "positions value =
     (if \<not> (1 \<le> length value \<and> length value \<le> MAX_CURSOR_PARTITIONS) then Inl (PyExc ValueError)
      else if list_ex (\<lambda>(p, off). p < 0 \<or> off < 0) value then Inl (PyExc ValueError)
      else Inr (sorted_items value))"

definition parse_position :: "string \<times> json \<Rightarrow> (int, int) dict \<Rightarrow> exc + (int, int) dict" where
  "parse_position = (\<lambda>(raw_partition, raw_offset) parsed.
     if raw_partition = [] \<or> \<not> list_all is_digit raw_partition then Inl (PyExc ValueError)
     else bindE (token_integer raw_offset 0) (\<lambda>off.
       Inr (dset (int (digits_value 0 raw_partition)) off parsed)))"

definition parse_positions :: "json \<Rightarrow> exc + (int, int) dict" where
  "parse_positions value = (case value of
     JObj item \<Rightarrow> bindE (foldE parse_position item []) positions
   | _ \<Rightarrow> Inl (PyExc TypeError))"

definition validate_resource_and_topic :: "core \<Rightarrow> digests \<Rightarrow> (string \<times> json) list \<Rightarrow> ref \<Rightarrow> string \<Rightarrow> exc + unit" where
  "validate_resource_and_topic c d item res topic =
     bindE (item_at item ''resource'') (\<lambda>r.
     bindE (guardE (r = JStr (ref_str c res)) (PyExc ValueError)) (\<lambda>_.
     bindE (item_at item ''topicFingerprint'') (\<lambda>f.
       guardE (f = JStr (topic_fingerprint d topic)) (PyExc ValueError))))"

section \<open>Cursors\<close>

definition encode_cursor :: "core \<Rightarrow> digests \<Rightarrow> codec \<Rightarrow> ref \<Rightarrow> string \<Rightarrow> (int, int) dict \<Rightarrow> int option \<Rightarrow> int \<Rightarrow>
    exc + cursor" where
  "encode_cursor c d co res topic pos expires_at_ms now =
     bindE (positions pos) (\<lambda>normalized.
     let expiry = (case expires_at_ms of Some e \<Rightarrow> if e = 0 then now + co_ttl_ms co else e
                   | None \<Rightarrow> now + co_ttl_ms co)
     in bindE (token_encode d co (JObj (payload c d ''cursor'' res topic normalized now expiry))) (\<lambda>token.
       Inr \<lparr>cu_value = token, cu_resource = res, cu_expires_at = expiry\<rparr>))"

text \<open>
  The exceptions of a decoder: an expired token, the errors it reports as its own failure, and
  the rest, which pass.
\<close>

definition decode_error :: "core \<Rightarrow> exc \<Rightarrow> exc \<Rightarrow> exc \<Rightarrow> exc" where
  "decode_error c expired invalid e =
     (if e = PyExc TokenExpired then expired
      else if is_error_of c [TypeError, ValueError, KeyError, JSONDecodeError] e then invalid
      else e)"

definition decode_cursor :: "core \<Rightarrow> digests \<Rightarrow> codec \<Rightarrow> json \<Rightarrow> ref \<Rightarrow> string \<Rightarrow> int \<Rightarrow> exc + cursor_coordinates" where
  "decode_cursor c d co value res topic now =
     mapExcE (\<lambda>e. if has_kind CursorExpired e then e
        else decode_error c (raised_for CursorExpired ''cursor.expiry'') (raised InvalidCursor) e)
     (bindE (case value of
         JObj _ \<Rightarrow> bindE (cursor_parse c value) (\<lambda>(token, target).
           if target \<noteq> res then Inl (raised InvalidCursor) else Inr (JStr token))
       | _ \<Rightarrow> Inr value) (\<lambda>token.
      bindE (token_decode d co token ''cursor'' now) (\<lambda>item.
      bindE (validate_resource_and_topic c d item res topic) (\<lambda>_.
      bindE (bindE (item_at item ''positions'') parse_positions) (\<lambda>pos.
      bindE (bindE (item_at item ''expiresAtMs'') (\<lambda>v. token_integer v 1)) (\<lambda>expiry.
        Inr \<lparr>cc_resource = res, cc_positions = pos, cc_expires_at_ms = expiry\<rparr>))))))"

definition encode_position :: "core \<Rightarrow> digests \<Rightarrow> codec \<Rightarrow> ref \<Rightarrow> string \<Rightarrow> int \<Rightarrow> int \<Rightarrow> string option \<Rightarrow> int \<Rightarrow>
    exc + position" where
  "encode_position c d co res topic part off logical_partition now =
     bindE (token_encode d co (JObj (payload c d ''position'' res topic [(part, off)] now
       (now + co_ttl_ms co)))) (\<lambda>token.
       Inr \<lparr>po_value = token, po_resource = res, po_logical_partition = logical_partition\<rparr>)"

text \<open>\<open>part, offset = next(iter(positions.items()))\<close> of a map with exactly one entry.\<close>

definition single_position :: "(int, int) dict \<Rightarrow> exc + int \<times> int" where
  "single_position pos = (case pos of [p] \<Rightarrow> Inr p | _ \<Rightarrow> Inl (PyExc ValueError))"

definition decode_position :: "core \<Rightarrow> digests \<Rightarrow> codec \<Rightarrow> json \<Rightarrow> ref \<Rightarrow> string \<Rightarrow> int \<Rightarrow> exc + position_coordinates" where
  "decode_position c d co value res topic now =
     mapExcE (decode_error c (raised_for CursorExpired ''position.expiry'') (raised InvalidCursor))
     (bindE (case value of
         JObj _ \<Rightarrow> bindE (position_parse c value) (\<lambda>(token, target).
           if target \<noteq> res then Inl (PyExc ValueError) else Inr (JStr token))
       | _ \<Rightarrow> Inr value) (\<lambda>token.
      bindE (token_decode d co token ''position'' now) (\<lambda>item.
      bindE (validate_resource_and_topic c d item res topic) (\<lambda>_.
      bindE (bindE (item_at item ''positions'') parse_positions) (\<lambda>pos.
      bindE (single_position pos) (\<lambda>(part, off).
        Inr \<lparr>pc_resource = res, pc_partition = part, pc_offset = off\<rparr>))))))"

definition delivery_payload :: "core \<Rightarrow> digests \<Rightarrow> ref \<Rightarrow> ref \<Rightarrow> string \<Rightarrow> int \<Rightarrow> int \<Rightarrow> int \<Rightarrow> int \<Rightarrow> int \<Rightarrow> int \<Rightarrow>
    (string \<times> json) list" where
  "delivery_payload c d sub grp topic part off epoch attempt expires_at_ms now =
     dupdate (payload c d ''delivery'' sub topic [(part, off)] now expires_at_ms)
       [(''subscription'', JStr (ref_str c sub)), (''consumerGroup'', JStr (ref_str c grp)),
        (''assignmentEpoch'', JInt epoch), (''attempt'', JInt attempt)]"

definition encode_delivery :: "core \<Rightarrow> digests \<Rightarrow> codec \<Rightarrow> ref \<Rightarrow> ref \<Rightarrow> string \<Rightarrow> int \<Rightarrow> int \<Rightarrow> int \<Rightarrow> int \<Rightarrow> int \<Rightarrow> int \<Rightarrow>
    exc + delivery_token" where
  "encode_delivery c d co sub grp topic part off epoch attempt expires_at_ms now =
     bindE (token_encode d co (JObj (delivery_payload c d sub grp topic part off epoch attempt
       expires_at_ms now))) (\<lambda>token.
       Inr \<lparr>dt_value = token, dt_subscription = sub, dt_consumer_group = grp,
         dt_expires_at = expires_at_ms\<rparr>)"

definition decode_delivery :: "core \<Rightarrow> digests \<Rightarrow> codec \<Rightarrow> json \<Rightarrow> ref \<Rightarrow> ref \<Rightarrow> string \<Rightarrow> int \<Rightarrow>
    exc + delivery_coordinates" where
  "decode_delivery c d co value sub grp topic now =
     mapExcE (decode_error c (raised_for DeliveryTimeout ''delivery.acknowledgement-timeout'')
       (raised DeliveryRejected))
     (bindE (case value of
         JObj _ \<Rightarrow> bindE (delivery_parse c value) (\<lambda>(token, tsub, tgrp).
           if tsub \<noteq> sub \<or> tgrp \<noteq> grp then Inl (PyExc ValueError) else Inr (JStr token))
       | _ \<Rightarrow> Inr value) (\<lambda>token.
      bindE (token_decode d co token ''delivery'' now) (\<lambda>item.
      bindE (validate_resource_and_topic c d item sub topic) (\<lambda>_.
      bindE (item_at item ''subscription'') (\<lambda>s.
      bindE (item_at item ''consumerGroup'') (\<lambda>g.
      bindE (guardE (s = JStr (ref_str c sub) \<and> g = JStr (ref_str c grp)) (PyExc ValueError)) (\<lambda>_.
      bindE (bindE (item_at item ''positions'') parse_positions) (\<lambda>pos.
      bindE (single_position pos) (\<lambda>(part, off).
      bindE (bindE (item_at item ''assignmentEpoch'') (\<lambda>v. token_integer v 0)) (\<lambda>epoch.
      bindE (bindE (item_at item ''attempt'') (\<lambda>v. token_integer v 1)) (\<lambda>attempt.
      bindE (bindE (item_at item ''expiresAtMs'') (\<lambda>v. token_integer v 1)) (\<lambda>expiry.
        Inr \<lparr>dc_subscription = sub, dc_consumer_group = grp, dc_partition = part,
          dc_offset = off, dc_assignment_epoch = epoch, dc_attempt = attempt,
          dc_expires_at_ms = expiry\<rparr>))))))))))))"

definition group_position_fingerprint :: "digests \<Rightarrow> string \<Rightarrow> (int, int) dict \<Rightarrow> exc + string" where
  "group_position_fingerprint d topic pos =
     bindE (positions pos) (\<lambda>normalized.
       sha256_fingerprint d (JObj [(''topicFingerprint'', JStr (sha256_bytes d topic)),
         (''positions'', JObj (map (\<lambda>(k, v). (str_int k, JInt v)) normalized))]))"

section \<open>Lemmas\<close>

subsection \<open>Splitting and signing\<close>

definition no_dot :: "string \<Rightarrow> bool" where
  "no_dot s = list_all (\<lambda>c. c \<noteq> CHR ''.'') s"

lemma split_dot_no_dot: "no_dot s \<Longrightarrow> split_dot s = [s]"
  by (induction s) (auto simp: no_dot_def)

lemma split_dot_append: "no_dot s \<Longrightarrow> split_dot (s @ CHR ''.'' # t) = s # split_dot t"
  by (induction s) (auto simp: no_dot_def)

lemma split_dot_nonempty [simp]: "split_dot s \<noteq> []"
  by (induction s) auto

lemma split_dot_ConsE:
  assumes "split_dot s = x # xs"
  obtains "xs = []" "s = x" "no_dot x" | t where "s = x @ CHR ''.'' # t" "split_dot t = xs" "no_dot x"
  using assms
proof (induction s arbitrary: x xs thesis)
  case Nil
  then show ?case by (auto simp: no_dot_def)
next
  case (Cons c cs)
  show ?case
  proof (cases "c = CHR ''.''")
    case True
    then show ?thesis using Cons.prems by (auto simp: no_dot_def)
  next
    case False
    obtain y ys where y: "split_dot cs = y # ys" by (cases "split_dot cs") auto
    with False Cons.prems(3) have x: "x = c # y" "xs = ys" by auto
    show ?thesis
      by (rule Cons.IH [OF _ _ y]) (use x False Cons.prems(1,2) in \<open>auto simp: no_dot_def\<close>)
  qed
qed

lemma split_dot_4:
  assumes "split_dot s = [a, b, e, f]"
  shows "s = a @ ''.'' @ b @ ''.'' @ e @ ''.'' @ f \<and> no_dot e"
proof -
  obtain t where t: "s = a @ CHR ''.'' # t" "split_dot t = [b, e, f]"
    using assms by (auto elim: split_dot_ConsE)
  obtain u where u: "t = b @ CHR ''.'' # u" "split_dot u = [e, f]"
    using t(2) by (auto elim: split_dot_ConsE)
  obtain v where v: "u = e @ CHR ''.'' # v" "split_dot v = [f]" "no_dot e"
    using u(2) by (auto elim: split_dot_ConsE)
  have "v = f" using v(2) by (auto elim: split_dot_ConsE)
  then show ?thesis using t u v by simp
qed

lemma b64_no_dot: "no_dot (b64 s)"
  using b64_token_chars [of s] by (simp add: no_dot_def list_all_iff)

lemma is_alnum_ascii: "is_alnum c \<Longrightarrow> (of_char c :: nat) < 128"
  unfolding is_alnum_def is_digit_def by linarith

lemma token_safe_char:
  assumes "is_alnum c \<or> c = CHR ''_'' \<or> c = CHR ''-''"
  shows "c \<noteq> CHR ''.''" and "(of_char c :: nat) < 128"
proof -
  have "\<not> is_alnum CHR ''.''" by (simp add: is_alnum_def is_digit_def)
  then show "c \<noteq> CHR ''.''" using assms by force
  have "(of_char CHR ''_'' :: nat) < 128" "(of_char CHR ''-'' :: nat) < 128" by simp_all
  then show "(of_char c :: nat) < 128" using assms is_alnum_ascii by metis
qed

lemma token_safe_chars: "token_safe s \<Longrightarrow> no_dot s \<and> is_ascii s"
proof -
  assume "token_safe s"
  then have s: "is_alnum c \<or> c = CHR ''_'' \<or> c = CHR ''-''" if "c \<in> set s" for c
    using that by (simp only: token_safe_def list_all_iff)
  show ?thesis
    unfolding no_dot_def is_ascii_def list_all_iff
    by (intro conjI ballI) (rule token_safe_char(1) [OF s], assumption, rule token_safe_char(2) [OF s], assumption)
qed

lemma is_ascii_append [simp]: "is_ascii (s @ t) = (is_ascii s \<and> is_ascii t)"
  by (simp add: is_ascii_def)

lemma is_ascii_Cons: "is_ascii (c # s) = ((of_char c :: nat) < 128 \<and> is_ascii s)"
  by (simp add: is_ascii_def)

lemma is_ascii_signed_part: "is_ascii (signed_part k b) = (is_ascii k \<and> is_ascii b)"
proof -
  have "is_ascii TOKEN_FORMAT" "is_ascii ''.''" by code_simp+
  then show ?thesis by (simp only: signed_part_def is_ascii_append) simp
qed

lemma is_ascii_b64 [simp]: "is_ascii (b64 s)"
  using b64_token_chars [of s] by (simp add: is_ascii_def list_all_iff)

lemma split_seal:
  assumes "token_safe (tk_key_id key)" and "no_dot body"
  shows "split_dot (seal d key body) = [TOKEN_FORMAT, tk_key_id key, body,
    b64 (hmac_sha256 d (tk_key key) (signed_part (tk_key_id key) body))]"
proof -
  have "no_dot TOKEN_FORMAT" by (simp add: TOKEN_FORMAT_def no_dot_def)
  then show ?thesis
    using assms token_safe_chars [OF assms(1)] b64_no_dot
    by (simp add: seal_def signed_part_def split_dot_append split_dot_no_dot)
qed

text \<open>What the constructor of the codec guarantees for a key ring of an accepted Binding.\<close>

definition codec_ok :: "codec \<Rightarrow> bool" where
  "codec_ok co \<longleftrightarrow> map_of (co_keys co) (tk_key_id (co_active co)) = Some (co_active co)
     \<and> (\<forall>k key. map_of (co_keys co) k = Some key \<longrightarrow> tk_key_id key = k \<and> good_key key)
     \<and> 1 \<le> co_ttl_ms co \<and> co_ttl_ms co \<le> 31536000000"

lemma codec_ok_key:
  assumes "codec_ok co" and "map_of (co_keys co) k = Some key"
  shows "tk_key_id key = k" and "good_key key" and "token_safe k"
  using assms unfolding codec_ok_def good_key_def by blast+

lemma ring_map:
  "distinct (map tk_key_id ks) \<Longrightarrow> set (map tk_key_id ks) \<inter> dom (map_of acc) = {} \<Longrightarrow>
   map_of (fold (\<lambda>k. dset (tk_key_id k) k) ks acc)
     = map_of acc ++ map_of (map (\<lambda>k. (tk_key_id k, k)) ks)"
proof (induction ks arbitrary: acc)
  case (Cons k ks)
  have "map_of (fold (\<lambda>k. dset (tk_key_id k) k) (k # ks) acc)
      = (map_of acc)(tk_key_id k \<mapsto> k) ++ map_of (map (\<lambda>k. (tk_key_id k, k)) ks)"
    using Cons by auto
  also have "\<dots> = map_of acc ++ map_of (map (\<lambda>k. (tk_key_id k, k)) (k # ks))"
    using Cons.prems(1)
    by (auto simp: map_add_def fun_eq_iff split: option.splits dest!: map_of_SomeD)
  finally show ?case .
qed simp

lemma cursor_codec_ok:
  assumes "good_ring ks" and "cursor_codec ks ttl = Inr co"
  shows "codec_ok co"
proof -
  have co: "co_keys co = fold (\<lambda>k. dset (tk_key_id k) k) ks []" "co_active co = hd (filter tk_active ks)"
    "co_ttl_ms co = ttl" "1 \<le> ttl" "ttl \<le> 31536000000"
    using assms(2) by (auto simp: cursor_codec_def token_codec_def split: if_splits)
  have m: "map_of (co_keys co) = map_of (map (\<lambda>k. (tk_key_id k, k)) ks)"
    using ring_map [of ks "[]"] assms(1) by (simp add: co good_ring_def)
  have d: "distinct (map fst (map (\<lambda>k. (tk_key_id k, k)) ks))" using assms(1)
    by (simp add: good_ring_def comp_def)
  have "filter tk_active ks \<noteq> []" using assms(1) by (auto simp: good_ring_def)
  then have "co_active co \<in> set ks" unfolding co by (meson filter_is_subset hd_in_set subsetD)
  then have "map_of (co_keys co) (tk_key_id (co_active co)) = Some (co_active co)"
    unfolding m by (intro map_of_is_SomeI [OF d]) auto
  moreover have "tk_key_id key = k \<and> good_key key" if "map_of (co_keys co) k = Some key" for k key
    using that assms(1) by (auto simp: m good_ring_def list_all_iff dest!: map_of_SomeD)
  ultimately show ?thesis unfolding codec_ok_def using co(3,4,5) by metis
qed

lemma cursor_codec_total:
  "good_ring ks \<Longrightarrow> 1 \<le> ttl \<Longrightarrow> ttl \<le> 31536000000 \<Longrightarrow> \<exists>co. cursor_codec ks ttl = Inr co"
  by (auto simp: cursor_codec_def token_codec_def good_ring_def)

subsection \<open>Round trip of a token\<close>

text \<open>What is used of the digests: printable fingerprints and non-empty signatures.\<close>

definition good_digests :: "digests \<Rightarrow> bool" where
  "good_digests d \<longleftrightarrow> (\<forall>x. utf8_valid (sha256_hex d x)) \<and> (\<forall>k m. hmac_sha256 d k m \<noteq> [])"

lemma b64decode_length:
  "good_alt alt \<Longrightarrow> b64decode alt v = Some s \<Longrightarrow> length s \<le> length (filter (\<lambda>c. c \<noteq> CHR ''='') v)"
proof (induction alt v arbitrary: s rule: b64decode.induct)
  case (2 alt a b c e r)
  have "b64_value alt CHR ''='' = None" using 2(2) by (rule b64_value_pad)
  then show ?case using 2 by (auto split: option.splits if_splits) force+
qed auto

lemma b64_length: "length s \<le> length (b64 s)"
proof (cases "s = []")
  case False
  then have "unb64 (b64 s) = Inr s" by (rule unb64_b64)
  then obtain n where "b64decode url_alt (b64 s @ replicate n CHR ''='') = Some s"
    by (auto simp: unb64_def split: if_splits option.splits)
  from b64decode_length [OF good_alts(2) this]
  have "length s \<le> length (filter (\<lambda>c. c \<noteq> CHR ''='') (b64 s))" by simp
  also have "\<dots> \<le> length (b64 s)" by (rule length_filter_le)
  finally show ?thesis .
qed simp

lemma json_dumps_nonempty: "plain v \<Longrightarrow> json_dumps v \<noteq> []"
  using dump_hd [OF plain_sort_keys, of v] by (auto simp: json_dumps_def)

lemma seal_length: "length body \<le> length (seal d key body)"
  by (simp add: seal_def signed_part_def)

lemma token_decode_seal:
  assumes "codec_ok co" and "good_digests d" and "map_of (co_keys co) (tk_key_id key) = Some key"
    and "plain v" and "int (length (seal d key (b64 (json_dumps v)))) \<le> MAX_TOKEN_BYTES"
  shows "token_decode d co (JStr (seal d key (b64 (json_dumps v)))) ty now = token_item (json_dumps v) ty now"
proof -
  let ?body = "b64 (json_dumps v)"
  have safe: "token_safe (tk_key_id key)" by (rule codec_ok_key(3) [OF assms(1,3)])
  have ne: "json_dumps v \<noteq> []" by (rule json_dumps_nonempty [OF assms(4)])
  have "is_ascii (signed_part (tk_key_id key) ?body)"
    using token_safe_chars [OF safe] by (simp add: is_ascii_signed_part)
  moreover have "seal d key ?body \<noteq> []" by (simp add: seal_def signed_part_def)
  moreover have "int (length (json_dumps v)) \<le> MAX_TOKEN_BYTES"
    using assms(5) b64_length [of "json_dumps v"] seal_length [of ?body d key] by linarith
  ultimately show ?thesis
    using assms(2,3,5) split_seal [OF safe b64_no_dot] ne
    by (simp add: token_decode_def unb64_b64 good_digests_def)
qed

lemma token_item_roundtrip:
  assumes "plain (JObj kvs)" and "set token_fields \<subseteq> set (dkeys kvs)"
    and "set (dkeys kvs) \<subseteq> set token_fields \<union> set token_optional_fields"
    and "map_of kvs ''type'' = Some (JStr ty')" and "map_of kvs ''expiresAtMs'' = Some (JInt e)"
  shows "token_item (json_dumps (JObj kvs)) ty now =
    (if ty' \<noteq> ty \<or> e < 1 then Inl (PyExc ValueError) else if e \<le> now then Inl (PyExc TokenExpired)
     else Inr (sorted_items (map (map_prod id sort_keys) kvs)))"
proof -
  let ?item = "sorted_items (map (map_prod id sort_keys) kvs)"
  have keys: "dkeys (map (map_prod id sort_keys) kvs) = dkeys kvs" by (induction kvs) auto
  have dist: "distinct (dkeys (map (map_prod id sort_keys) kvs))" using assms(1) by (simp only: keys plain.simps)
  have m: "map_of ?item k = map_option sort_keys (map_of kvs k)" for k
    using dist by (simp add: map_of_map map_prod_def id_def)
  have "set (dkeys ?item) = set (dkeys kvs)" by (metis keys list.set_map set_sorted_items)
  then have "closed_object (JObj ?item) token_fields token_optional_fields = Inr ?item"
    using assms(2,3) by (simp only: closed_object_Inr)
  then show ?thesis
    using json_roundtrip [OF assms(1)] assms(4,5)
    by (simp add: token_item_def item_at_def m token_integer_def guardE_def)
qed

subsection \<open>Positions\<close>

lemma sorted_items_unique:
  assumes "set xs = set ys" and "distinct (dkeys xs)" and "distinct (dkeys ys)"
  shows "sorted_items xs = sorted_items ys"
proof (rule map_sorted_distinct_set_unique)
  show "inj_on fst (set (sorted_items xs) \<union> set (sorted_items ys))"
    using assms by (simp add: distinct_map)
qed (use assms in \<open>simp_all add: sorted_items_keys\<close>)

abbreviation nonneg :: "(int, int) dict \<Rightarrow> bool" where
  "nonneg pos \<equiv> list_all (\<lambda>(p, off). 0 \<le> p \<and> 0 \<le> off) pos"

lemma str_int_digits: "0 \<le> p \<Longrightarrow> str_int p \<noteq> [] \<and> list_all is_digit (str_int p)
    \<and> int (digits_value 0 (str_int p)) = p"
  using digits_of_digits [of "nat p"] by (simp add: str_int_def list_all_iff digits_value_digits_of)

lemma parse_position_fold:
  "nonneg pos \<Longrightarrow> distinct (dkeys (acc @ pos)) \<Longrightarrow>
   foldE parse_position (map (\<lambda>(k, v). (str_int k, JInt v)) pos) acc = Inr (acc @ pos)"
proof (induction pos arbitrary: acc)
  case (Cons x pos)
  obtain p off where x: "x = (p, off)" by force
  have "parse_position (str_int p, JInt off) acc = Inr (acc @ [(p, off)])"
    using Cons.prems str_int_digits [of p]
    by (simp add: x parse_position_def token_integer_def dset_new)
  then show ?case using Cons by (simp add: x)
qed simp

lemma insort_key_of_map: "insort_key f (g x) (map g xs) = map g (insort_key (f \<circ> g) x xs)"
  by (induction xs) auto

lemma sort_key_of_map: "sort_key f (map g xs) = map g (sort_key (f \<circ> g) xs)"
  by (induction xs) (auto simp: insort_key_of_map comp_def)

lemma positions_Inr:
  "positions v = Inr w \<longleftrightarrow> w = sorted_items v \<and> nonneg v \<and> 1 \<le> length v \<and> length v \<le> MAX_CURSOR_PARTITIONS"
proof -
  have "list_ex (\<lambda>(p, off). p < 0 \<or> off < 0) v \<longleftrightarrow> \<not> nonneg v"
    by (induction v) auto
  then show ?thesis by (auto simp: positions_def)
qed

lemma map_str_int_keys: "dkeys (map (\<lambda>(k, v). (str_int k, JInt v)) xs) = map str_int (dkeys xs)"
  by (induction xs) auto

lemma parse_positions_json:
  assumes "nonneg pos" and "distinct (dkeys pos)" and "1 \<le> length pos" "length pos \<le> MAX_CURSOR_PARTITIONS"
  shows "parse_positions (sort_keys (positions_json pos)) = Inr (sorted_items pos)"
proof -
  let ?f = "\<lambda>(k, v). (str_int k, JInt v)"
  have sk: "map (map_prod id sort_keys) (map ?f xs) = map ?f xs" for xs :: "(int, int) dict"
    by (induction xs) auto
  define ys where "ys = sort_key (str_int \<circ> fst) (sorted_items pos)"
  have ys: "sorted_items (map ?f (sorted_items pos)) = map ?f ys"
    unfolding sorted_items_def ys_def by (simp add: sort_key_of_map comp_def split_def)
  have set_ys: "set ys = set pos" "length ys = length pos" by (simp_all add: ys_def)
  have d: "distinct (dkeys ys)"
    using assms(2) set_ys by (metis card_distinct distinct_card length_map list.set_map)
  have n: "nonneg ys" using assms(1) set_ys by (simp add: list_all_iff)
  have "foldE parse_position (map ?f ys) [] = Inr ys"
    using parse_position_fold [OF n, of "[]"] d by simp
  moreover have "positions ys = Inr (sorted_items pos)"
    using n assms(3,4) set_ys sorted_items_unique [OF set_ys(1) d assms(2)] by (simp add: positions_Inr)
  ultimately show ?thesis
    by (simp only: parse_positions_def positions_json_def sort_keys.simps sk ys json.case bindE_simps)
qed

lemma positions_json_plain: "distinct (dkeys pos) \<Longrightarrow> plain (positions_json pos)"
proof -
  assume d: "distinct (dkeys pos)"
  have "distinct (map str_int (dkeys (sorted_items pos)))"
    unfolding distinct_map [of str_int] distinct_sorted_items
    using d by (auto intro: inj_onI dest: str_int_inj)
  moreover have "utf8_valid (str_int k)" for k
    using utf8_valid_ascii [OF str_int_ascii, of k "[]"] by simp
  ultimately show ?thesis
    unfolding positions_json_def plain.simps map_str_int_keys
    by (simp add: list_all_iff split_def)
qed

section \<open>Properties\<close>

text \<open>The payloads are well formed when the strings of the references are.\<close>

lemma payload_plain:
  assumes "good_digests d" and "utf8_valid (ref_str c res)" and "distinct (dkeys pos)" and "utf8_valid ty"
  shows "plain (JObj (payload c d ty res topic pos now e))"
proof -
  have "utf8_valid (topic_fingerprint d topic)"
    using assms(1) by (simp add: good_digests_def topic_fingerprint_def sha256_bytes_def)
  then show ?thesis
    using assms positions_json_plain [OF assms(3)] by (simp add: payload_def)
qed

lemma delivery_payload_eq:
  "delivery_payload c d sub grp topic p off epoch attempt e now =
     payload c d ''delivery'' sub topic [(p, off)] now e @
     [(''subscription'', JStr (ref_str c sub)), (''consumerGroup'', JStr (ref_str c grp)),
      (''assignmentEpoch'', JInt epoch), (''attempt'', JInt attempt)]"
  by (simp add: delivery_payload_def dupdate_def payload_def)

lemma delivery_payload_plain:
  assumes "good_digests d" and "utf8_valid (ref_str c sub)" and "utf8_valid (ref_str c grp)"
  shows "plain (JObj (delivery_payload c d sub grp topic p off epoch attempt e now))"
proof -
  have "utf8_valid (topic_fingerprint d topic)"
    using assms(1) by (simp add: good_digests_def topic_fingerprint_def sha256_bytes_def)
  then show ?thesis
    using assms positions_json_plain [of "[(p, off)]"] by (simp add: delivery_payload_eq payload_def)
qed

text \<open>Reading back a sealed payload, up to the order of its keys.\<close>

lemma token_encode_decode:
  assumes "codec_ok co" and "good_digests d" and "plain (JObj kvs)"
    and "token_encode d co (JObj kvs) = Inr token"
    and "set token_fields \<subseteq> set (dkeys kvs)"
    and "set (dkeys kvs) \<subseteq> set token_fields \<union> set token_optional_fields"
    and "map_of kvs ''type'' = Some (JStr ty')" and "map_of kvs ''expiresAtMs'' = Some (JInt e)"
  shows "token_decode d co (JStr token) ty now =
    (if ty' \<noteq> ty \<or> e < 1 then Inl (PyExc ValueError) else if e \<le> now then Inl (PyExc TokenExpired)
     else Inr (sorted_items (map (map_prod id sort_keys) kvs)))"
proof -
  have t: "token = seal d (co_active co) (b64 (json_dumps (JObj kvs)))"
      "int (length (seal d (co_active co) (b64 (json_dumps (JObj kvs))))) \<le> MAX_TOKEN_BYTES"
    using assms(4) by (auto simp: token_encode_def Let_def canonical_Inr split: if_splits)
  have "map_of (co_keys co) (tk_key_id (co_active co)) = Some (co_active co)"
    using assms(1) unfolding codec_ok_def by blast
  then show ?thesis
    unfolding t(1)
    using token_decode_seal [OF assms(1,2) _ assms(3) t(2)] token_item_roundtrip [OF assms(3,5,6,7,8)] by simp
qed

lemma map_of_item:
  assumes "plain (JObj kvs)"
  shows "map_of (sorted_items (map (map_prod id sort_keys) kvs)) k = map_option sort_keys (map_of kvs k)"
proof -
  have keys: "dkeys (map (map_prod id sort_keys) kvs) = dkeys kvs" by (induction kvs) auto
  have "distinct (dkeys (map (map_prod id sort_keys) kvs))" using assms by (simp only: keys plain.simps)
  then show ?thesis by (simp add: map_of_map map_prod_def id_def)
qed

lemma payload_keys:
  "set token_fields \<subseteq> set (dkeys (payload c d ty res topic pos now e))"
  "set (dkeys (payload c d ty res topic pos now e)) \<subseteq> set token_fields \<union> set token_optional_fields"
  "set token_fields \<subseteq> set (dkeys (delivery_payload c d sub grp topic p off epoch attempt e now))"
  "set (dkeys (delivery_payload c d sub grp topic p off epoch attempt e now))
     \<subseteq> set token_fields \<union> set token_optional_fields"
  by (simp_all add: payload_def delivery_payload_eq token_fields_def token_optional_fields_def)

lemma payload_lookup [simp]:
  "map_of (payload c d ty res topic pos now e) ''type'' = Some (JStr ty)"
  "map_of (payload c d ty res topic pos now e) ''resource'' = Some (JStr (ref_str c res))"
  "map_of (payload c d ty res topic pos now e) ''topicFingerprint'' = Some (JStr (topic_fingerprint d topic))"
  "map_of (payload c d ty res topic pos now e) ''positions'' = Some (positions_json pos)"
  "map_of (payload c d ty res topic pos now e) ''expiresAtMs'' = Some (JInt e)"
  "map_of (payload c d ty res topic pos now e) ''subscription'' = None"
  "map_of (payload c d ty res topic pos now e) ''consumerGroup'' = None"
  "map_of (payload c d ty res topic pos now e) ''assignmentEpoch'' = None"
  "map_of (payload c d ty res topic pos now e) ''attempt'' = None"
  by (simp_all add: payload_def)

lemma delivery_payload_lookup [simp]:
  "map_of (delivery_payload c d sub grp topic p off epoch attempt e now) ''type'' = Some (JStr ''delivery'')"
  "map_of (delivery_payload c d sub grp topic p off epoch attempt e now) ''resource'' = Some (JStr (ref_str c sub))"
  "map_of (delivery_payload c d sub grp topic p off epoch attempt e now) ''topicFingerprint''
     = Some (JStr (topic_fingerprint d topic))"
  "map_of (delivery_payload c d sub grp topic p off epoch attempt e now) ''positions''
     = Some (positions_json [(p, off)])"
  "map_of (delivery_payload c d sub grp topic p off epoch attempt e now) ''expiresAtMs'' = Some (JInt e)"
  "map_of (delivery_payload c d sub grp topic p off epoch attempt e now) ''subscription''
     = Some (JStr (ref_str c sub))"
  "map_of (delivery_payload c d sub grp topic p off epoch attempt e now) ''consumerGroup''
     = Some (JStr (ref_str c grp))"
  "map_of (delivery_payload c d sub grp topic p off epoch attempt e now) ''assignmentEpoch'' = Some (JInt epoch)"
  "map_of (delivery_payload c d sub grp topic p off epoch attempt e now) ''attempt'' = Some (JInt attempt)"
  by (simp_all add: delivery_payload_eq map_add_def)

lemma token_integer_Inr [simp]: "token_integer v m = Inr i \<longleftrightarrow> v = JInt i \<and> m \<le> i"
  by (auto simp: token_integer_def split: json.splits if_splits)

lemma token_integer_JInt: "token_integer (JInt i) m = (if i < m then Inl (PyExc ValueError) else Inr i)"
  by (simp add: token_integer_def)

lemma item_at_simp: "map_of item k = Some v \<Longrightarrow> item_at item k = Inr v"
  by simp

lemma decode_encode_cursor:
  assumes "codec_ok co" and "good_digests d" and "utf8_valid (ref_str c res)"
    and "distinct (dkeys pos)" and "encode_cursor c d co res topic pos ex now = Inr cu"
    and "1 \<le> cu_expires_at cu"
  shows "decode_cursor c d co (JStr (cu_value cu)) res topic now' =
    (if now' < cu_expires_at cu
     then Inr \<lparr>cc_resource = res, cc_positions = sorted_items pos, cc_expires_at_ms = cu_expires_at cu\<rparr>
     else Inl (raised_for CursorExpired ''cursor.expiry''))"
proof -
  let ?p = "payload c d ''cursor'' res topic (sorted_items pos) now (cu_expires_at cu)"
  have pos: "nonneg pos" "1 \<le> length pos" "length pos \<le> MAX_CURSOR_PARTITIONS"
    and enc: "token_encode d co (JObj ?p) = Inr (cu_value cu)"
    using assms(5) by (auto simp: encode_cursor_def positions_Inr Let_def)
  have "utf8_valid ''cursor''" by code_simp
  then have pl: "plain (JObj ?p)"
    using assms(2,3,4) by (intro payload_plain) simp_all
  have n: "nonneg (sorted_items pos)" using pos(1) by (simp add: list_all_iff)
  have pp: "parse_positions (sort_keys (positions_json (sorted_items pos))) = Inr (sorted_items pos)"
    using parse_positions_json [OF n] assms(4) pos(2,3) by (simp add: sorted_items_idem)
  show ?thesis
    using token_encode_decode [OF assms(1,2) pl enc payload_keys(1,2) payload_lookup(1,5)] assms(6) pp
    by (simp add: decode_cursor_def decode_error_def validate_resource_and_topic_def
        item_at_def map_of_item [OF pl] token_integer_JInt)
qed

text \<open>
  C20. Round trip of a cursor: a cursor the codec issued reads back, under the same resource and
  topic, as exactly the positions it was issued for (in partition order) until it expires, and
  as an expired cursor from that instant on.
\<close>

theorem cursor_roundtrip:
  assumes "codec_ok co" and "good_digests d" and "utf8_valid (ref_str c res)"
    and "distinct (dkeys pos)" and "encode_cursor c d co res topic pos ex now = Inr cu"
    and "1 \<le> cu_expires_at cu"
  shows "decode_cursor c d co (JStr (cu_value cu)) res topic now' =
    (if now' < cu_expires_at cu
     then Inr \<lparr>cc_resource = res, cc_positions = sorted_items pos, cc_expires_at_ms = cu_expires_at cu\<rparr>
     else Inl (raised_for CursorExpired ''cursor.expiry''))"
  using assms by (rule decode_encode_cursor)

lemma decode_encode_delivery:
  assumes "codec_ok co" and "good_digests d" and "utf8_valid (ref_str c sub)" and "utf8_valid (ref_str c grp)"
    and "encode_delivery c d co sub grp topic p off epoch attempt e now = Inr tok"
    and "0 \<le> p" and "0 \<le> off" and "0 \<le> epoch" and "1 \<le> attempt" and "1 \<le> e"
  shows "decode_delivery c d co (JStr (dt_value tok)) sub grp topic now' =
    (if now' < e
     then Inr \<lparr>dc_subscription = sub, dc_consumer_group = grp, dc_partition = p, dc_offset = off,
       dc_assignment_epoch = epoch, dc_attempt = attempt, dc_expires_at_ms = e\<rparr>
     else Inl (raised_for DeliveryTimeout ''delivery.acknowledgement-timeout''))"
proof -
  let ?p = "delivery_payload c d sub grp topic p off epoch attempt e now"
  have enc: "token_encode d co (JObj ?p) = Inr (dt_value tok)"
    using assms(5) by (auto simp: encode_delivery_def)
  have pl: "plain (JObj ?p)" using assms(2,3,4) by (rule delivery_payload_plain)
  have pp: "parse_positions (sort_keys (positions_json [(p, off)])) = Inr [(p, off)]"
    using parse_positions_json [of "[(p, off)]"] assms(6,7)
    by (simp add: MAX_CURSOR_PARTITIONS_def sorted_items_def)
  show ?thesis
    using token_encode_decode [OF assms(1,2) pl enc payload_keys(3,4) delivery_payload_lookup(1,5)] assms(8,9,10) pp
    by (simp add: decode_delivery_def decode_error_def validate_resource_and_topic_def single_position_def
        item_at_def map_of_item [OF pl] token_integer_JInt)
qed

text \<open>
  Round trip of a delivery token: partition, offset, assignment epoch and attempt come back
  unchanged under the same Subscription, ConsumerGroup and topic, until the acknowledgement
  timeout; from then on the token is reported as timed out.
\<close>

theorem delivery_roundtrip:
  assumes "codec_ok co" and "good_digests d" and "utf8_valid (ref_str c sub)" and "utf8_valid (ref_str c grp)"
    and "encode_delivery c d co sub grp topic p off epoch attempt e now = Inr tok"
    and "0 \<le> p" and "0 \<le> off" and "0 \<le> epoch" and "1 \<le> attempt" and "1 \<le> e"
  shows "decode_delivery c d co (JStr (dt_value tok)) sub grp topic now' =
    (if now' < e
     then Inr \<lparr>dc_subscription = sub, dc_consumer_group = grp, dc_partition = p, dc_offset = off,
       dc_assignment_epoch = epoch, dc_attempt = attempt, dc_expires_at_ms = e\<rparr>
     else Inl (raised_for DeliveryTimeout ''delivery.acknowledgement-timeout''))"
  using assms by (rule decode_encode_delivery)

text \<open>
  C15. Authenticity: a token is accepted only if it is, to the last character, the sealing of
  its body by a key of the ring, its body the canonical encoding of a closed object of the
  expected type, and the clock before its expiry. In particular no other text with the same
  body and key id is accepted.
\<close>

theorem token_authenticity:
  assumes "codec_ok co" and "token_decode d co (JStr token) ty now = Inr item"
  shows "\<exists>key bytes e. map_of (co_keys co) (tk_key_id key) = Some key \<and> token = seal d key (b64 bytes)
    \<and> json_loads bytes = Inr (JObj item) \<and> map_of item ''type'' = Some (JStr ty)
    \<and> map_of item ''expiresAtMs'' = Some (JInt e) \<and> now < e \<and> int (length token) \<le> MAX_TOKEN_BYTES"
proof -
  obtain fmt k body sig where sp: "split_dot token = [fmt, k, body, sig]"
    and len: "int (length token) \<le> MAX_TOKEN_BYTES"
    using assms(2) by (auto simp: token_decode_def split: if_splits list.splits)
  from assms(2) obtain key bytes where k: "fmt = TOKEN_FORMAT" "map_of (co_keys co) k = Some key"
    "unb64 sig = Inr (hmac_sha256 d (tk_key key) (signed_part k body))"
    "unb64 body = Inr bytes" "token_item bytes ty now = Inr item"
    by (auto simp: token_decode_def sp split: if_splits option.splits)
  have id: "tk_key_id key = k" by (rule codec_ok_key(1) [OF assms(1) k(2)])
  have "token = seal d key (b64 bytes)"
    using split_dot_4 [OF sp] k(1,3,4) id by (simp add: unb64_Inr seal_def signed_part_def)
  moreover obtain e where "json_loads bytes = Inr (JObj item)" "map_of item ''type'' = Some (JStr ty)"
    "map_of item ''expiresAtMs'' = Some (JInt e)" "now < e"
    using k(5) by (auto simp: token_item_def closed_object_Inr)
  ultimately show ?thesis using k(2) id len by blast
qed


lemma single_position_Inr [simp]: "single_position pos = Inr p \<longleftrightarrow> pos = [p]"
  by (auto simp: single_position_def split: list.splits)

lemma token_decode_same:
  assumes "token_decode d co (JStr token) ty t = Inr i" and "token_decode d co (JStr token) ty' t' = Inr i'"
  shows "i = i' \<and> ty = ty'"
proof -
  obtain fmt k body sig where sp: "split_dot token = [fmt, k, body, sig]"
    using assms(1) by (auto simp: token_decode_def split: if_splits list.splits)
  from assms obtain bytes where "token_item bytes ty t = Inr i" "token_item bytes ty' t' = Inr i'"
    by (auto simp: token_decode_def sp split: if_splits option.splits)
  then show ?thesis by (auto simp: token_item_def closed_object_Inr)
qed

lemma decode_delivery_item:
  assumes "decode_delivery c d co (JStr token) sub grp topic now = Inr x"
  obtains item pos where "token_decode d co (JStr token) ''delivery'' now = Inr item"
    and "map_of item ''resource'' = Some (JStr (ref_str c sub))"
    and "map_of item ''topicFingerprint'' = Some (JStr (topic_fingerprint d topic))"
    and "map_of item ''consumerGroup'' = Some (JStr (ref_str c grp))"
    and "map_of item ''positions'' = Some pos" and "parse_positions pos = Inr [(dc_partition x, dc_offset x)]"
    and "map_of item ''assignmentEpoch'' = Some (JInt (dc_assignment_epoch x))"
    and "map_of item ''attempt'' = Some (JInt (dc_attempt x))"
    and "map_of item ''expiresAtMs'' = Some (JInt (dc_expires_at_ms x))"
    and "dc_subscription x = sub" and "dc_consumer_group x = grp"
    and "0 \<le> dc_assignment_epoch x" and "1 \<le> dc_attempt x"
proof -
  from assms obtain item where i: "token_decode d co (JStr token) ''delivery'' now = Inr item"
    and r: "validate_resource_and_topic c d item sub topic = Inr ()"
    by (auto simp: decode_delivery_def)
  from assms i obtain pos p off where f: "map_of item ''positions'' = Some pos" "parse_positions pos = Inr [(p, off)]"
      "x = \<lparr>dc_subscription = sub, dc_consumer_group = grp, dc_partition = p,
          dc_offset = off, dc_assignment_epoch = dc_assignment_epoch x, dc_attempt = dc_attempt x,
          dc_expires_at_ms = dc_expires_at_ms x\<rparr>"
      "map_of item ''consumerGroup'' = Some (JStr (ref_str c grp))"
      "map_of item ''assignmentEpoch'' = Some (JInt (dc_assignment_epoch x))"
      "map_of item ''attempt'' = Some (JInt (dc_attempt x))"
      "map_of item ''expiresAtMs'' = Some (JInt (dc_expires_at_ms x))"
      "0 \<le> dc_assignment_epoch x" "1 \<le> dc_attempt x"
    by (auto simp: decode_delivery_def)
  moreover have "dc_partition x = p" "dc_offset x = off" "dc_subscription x = sub" "dc_consumer_group x = grp"
    by (subst f(3), simp)+
  ultimately show ?thesis using i r that by (auto simp: validate_resource_and_topic_def)
qed

text \<open>
  C22. Scope: a delivery token accepted under two scopes has the same Subscription, ConsumerGroup
  and topic fingerprint in both, and no token is accepted both as a delivery and as a cursor.
\<close>

theorem token_scope:
  assumes "decode_delivery c d co (JStr token) sub grp topic now = Inr x"
  shows "(\<forall>sub' grp' topic' now' y. decode_delivery c d co (JStr token) sub' grp' topic' now' = Inr y \<longrightarrow>
      ref_str c sub' = ref_str c sub \<and> ref_str c grp' = ref_str c grp
      \<and> topic_fingerprint d topic' = topic_fingerprint d topic
      \<and> dc_partition y = dc_partition x \<and> dc_offset y = dc_offset x
      \<and> dc_assignment_epoch y = dc_assignment_epoch x \<and> dc_attempt y = dc_attempt x)
    \<and> \<not> (\<exists>res topic' now' y. decode_cursor c d co (JStr token) res topic' now' = Inr y)"
proof -
  note same = token_decode_same [of d co token]
  obtain item pos where i: "token_decode d co (JStr token) ''delivery'' now = Inr item"
    and f: "map_of item ''resource'' = Some (JStr (ref_str c sub))"
      "map_of item ''topicFingerprint'' = Some (JStr (topic_fingerprint d topic))"
      "map_of item ''consumerGroup'' = Some (JStr (ref_str c grp))"
      "map_of item ''positions'' = Some pos" "parse_positions pos = Inr [(dc_partition x, dc_offset x)]"
      "map_of item ''assignmentEpoch'' = Some (JInt (dc_assignment_epoch x))"
      "map_of item ''attempt'' = Some (JInt (dc_attempt x))"
    using assms by (rule decode_delivery_item)
  have "ref_str c sub' = ref_str c sub \<and> ref_str c grp' = ref_str c grp
      \<and> topic_fingerprint d topic' = topic_fingerprint d topic
      \<and> dc_partition y = dc_partition x \<and> dc_offset y = dc_offset x
      \<and> dc_assignment_epoch y = dc_assignment_epoch x \<and> dc_attempt y = dc_attempt x"
    if "decode_delivery c d co (JStr token) sub' grp' topic' now' = Inr y" for sub' grp' topic' now' y
    by (rule decode_delivery_item [OF that]) (use same [OF i] f in auto)
  moreover have "\<not> (\<exists>res topic' now' y. decode_cursor c d co (JStr token) res topic' now' = Inr y)"
  proof
    assume "\<exists>res topic' now' y. decode_cursor c d co (JStr token) res topic' now' = Inr y"
    then obtain t' item' where "token_decode d co (JStr token) ''cursor'' t' = Inr item'"
      by (auto simp: decode_cursor_def)
    from same [OF i this] show False by simp
  qed
  ultimately show ?thesis by blast
qed

subsection \<open>Errors\<close>

text \<open>The exceptions a decoder turns into its own failures.\<close>

definition data_error :: "exc \<Rightarrow> bool" where
  "data_error e \<longleftrightarrow> e \<in> {PyExc TypeError, PyExc ValueError, PyExc KeyError, PyExc JSONDecodeError,
     PyExc UnicodeError, PyExc TokenExpired}"

lemma data_error_simps [simp]:
  "data_error (PyExc TypeError)" "data_error (PyExc ValueError)" "data_error (PyExc KeyError)"
  "data_error (PyExc JSONDecodeError)" "data_error (PyExc UnicodeError)" "data_error (PyExc TokenExpired)"
  by (simp_all add: data_error_def)

lemma data_error_decode:
  "data_error e \<Longrightarrow> decode_error c x y e = x \<or> decode_error c x y e = y"
  "data_error e \<Longrightarrow> \<not> has_kind k e"
  by (auto simp: data_error_def decode_error_def)

lemma fails_primitives [fails_intros]:
  "failsE data_error (json_loads s)" "failsE data_error (unb64 u)" "failsE data_error (item_at item k)"
  "failsE data_error (closed_object v r p)" "failsE data_error (token_integer v m)"
  "failsE data_error (single_position pos)" "failsE data_error (positions dpos)"
  by (auto simp: failsE_def json_loads_def item_at_def token_integer_def single_position_def positions_def
      split: if_splits option.splits json.splits prod.splits list.splits
      dest!: unb64_Inl closed_object_Inl simp del: parse_value.simps)

lemma fails_token_item [fails_intros]: "failsE data_error (token_item b ty now)"
  unfolding token_item_def by (intro fails_intros) simp_all

lemma fails_token_decode [fails_intros]: "failsE data_error (token_decode d co v ty now)"
  unfolding token_decode_def by (cases v; auto split: list.split intro!: fails_intros)

lemma fails_parse_positions [fails_intros]: "failsE data_error (parse_positions v)"
  unfolding parse_positions_def parse_position_def
  by (cases v; auto intro!: fails_intros)

lemma fails_validate [fails_intros]: "failsE data_error (validate_resource_and_topic c d item res topic)"
  unfolding validate_resource_and_topic_def by (intro fails_intros) simp_all

text \<open>
  Whatever text is presented as a token, the decoders fail only with their documented
  failures: an expired or invalid cursor, a timed-out or rejected delivery.
\<close>

theorem decode_failures:
  "failsE (\<lambda>e. e = raised_for CursorExpired ''cursor.expiry'' \<or> e = raised InvalidCursor)
     (decode_cursor c d co (JStr t) res topic now)
   \<and> failsE (\<lambda>e. e = raised_for DeliveryTimeout ''delivery.acknowledgement-timeout'' \<or> e = raised DeliveryRejected)
     (decode_delivery c d co (JStr t) sub grp topic now)"
proof
  show "failsE (\<lambda>e. e = raised_for CursorExpired ''cursor.expiry'' \<or> e = raised InvalidCursor)
     (decode_cursor c d co (JStr t) res topic now)"
    unfolding decode_cursor_def
    apply (rule fails_mapExc)
    apply (rule fails_mono [where P = data_error])
     apply (simp only: json.case bindE_simps)
     apply (intro fails_intros)
    using data_error_decode by auto
  show "failsE (\<lambda>e. e = raised_for DeliveryTimeout ''delivery.acknowledgement-timeout'' \<or> e = raised DeliveryRejected)
     (decode_delivery c d co (JStr t) sub grp topic now)"
    unfolding decode_delivery_def
    apply (rule fails_mapExc)
    apply (rule fails_mono [where P = data_error])
     apply (simp only: json.case bindE_simps)
     apply (intro fails_intros)
    using data_error_decode by auto
qed

section \<open>A concrete codec\<close>

text \<open>Stand-ins for the digests, on which the witnesses evaluate.\<close>

definition sample_digests :: digests where
  "sample_digests = \<lparr>sha256_hex = (\<lambda>s. str_int (int (length s))), hmac_sha256 = (\<lambda>k m. [hd k])\<rparr>"

definition sample_codec :: codec where
  "sample_codec = \<lparr>co_keys = [(''k'', hd sample_keys)], co_active = hd sample_keys, co_ttl_ms = 1000\<rparr>"

lemma sample_digests_good: "good_digests sample_digests"
  using utf8_valid_ascii [OF str_int_ascii, of _ "[]"] by (simp add: good_digests_def sample_digests_def)

lemma sample_codec: "cursor_codec sample_keys 1000 = Inr sample_codec"
  by code_simp

lemma sample_codec_ok: "codec_ok sample_codec"
proof -
  have "good_ring sample_keys" by code_simp
  then show ?thesis using sample_codec by (rule cursor_codec_ok)
qed

lemma sample_ref_utf8: "utf8_valid (ref_str sample_core (sample_ref ''a''))"
    "utf8_valid (ref_str sample_core (sample_ref ''sub''))" "utf8_valid (ref_str sample_core (sample_ref ''g''))"
  by code_simp+

lemma sample_cursor: "\<not> isl (encode_cursor sample_core sample_digests sample_codec (sample_ref ''a'') ''t'' [(1, 5), (0, 3)] None 7)"
  by code_simp

lemma sample_delivery: "\<not> isl (encode_delivery sample_core sample_digests sample_codec (sample_ref ''sub'')
    (sample_ref ''g'') ''t'' 0 3 1 1 1007 7)"
  by code_simp

theorem cursor_roundtrip_witness:
  "\<exists>cu. encode_cursor sample_core sample_digests sample_codec (sample_ref ''a'') ''t'' [(1, 5), (0, 3)] None 7 = Inr cu
    \<and> decode_cursor sample_core sample_digests sample_codec (JStr (cu_value cu)) (sample_ref ''a'') ''t'' 8
      = Inr \<lparr>cc_resource = sample_ref ''a'', cc_positions = [(0, 3), (1, 5)], cc_expires_at_ms = 1007\<rparr>"
proof -
  obtain cu where cu: "encode_cursor sample_core sample_digests sample_codec (sample_ref ''a'') ''t'' [(1, 5), (0, 3)] None 7 = Inr cu"
    using sample_cursor by (metis isl_def sum.exhaust_sel)
  then have e: "cu_expires_at cu = 1007"
    by (auto simp: encode_cursor_def Let_def sample_codec_def)
  have s: "sorted_items [(1, 5), (0, 3)] = [(0::int, 3::int), (1, 5)]" by (simp add: sorted_items_def)
  show ?thesis
    using cu cursor_roundtrip [OF sample_codec_ok sample_digests_good sample_ref_utf8(1) _ cu, of 8] e s by simp
qed

theorem delivery_roundtrip_witness:
  "\<exists>tok. encode_delivery sample_core sample_digests sample_codec (sample_ref ''sub'') (sample_ref ''g'') ''t'' 0 3 1 1 1007 7
      = Inr tok
    \<and> decode_delivery sample_core sample_digests sample_codec (JStr (dt_value tok)) (sample_ref ''sub'') (sample_ref ''g'') ''t'' 2000
      = Inl (raised_for DeliveryTimeout ''delivery.acknowledgement-timeout'')"
proof -
  obtain tok where tok: "encode_delivery sample_core sample_digests sample_codec (sample_ref ''sub'') (sample_ref ''g'') ''t'' 0 3 1 1 1007 7 = Inr tok"
    using sample_delivery by (metis isl_def sum.exhaust_sel)
  show ?thesis
    using tok delivery_roundtrip [OF sample_codec_ok sample_digests_good sample_ref_utf8(2,3) tok, of 2000] by simp
qed

definition sample_token :: string where
  "sample_token = (case encode_delivery sample_core sample_digests sample_codec (sample_ref ''sub'')
     (sample_ref ''g'') ''t'' 0 3 1 1 1007 7 of Inr tok \<Rightarrow> dt_value tok | Inl _ \<Rightarrow> [])"

lemma sample_token_decodes:
  "\<exists>x. decode_delivery sample_core sample_digests sample_codec (JStr sample_token) (sample_ref ''sub'')
    (sample_ref ''g'') ''t'' 8 = Inr x"
proof -
  obtain tok where tok: "encode_delivery sample_core sample_digests sample_codec (sample_ref ''sub'') (sample_ref ''g'') ''t'' 0 3 1 1 1007 7 = Inr tok"
    using sample_delivery by (metis isl_def sum.exhaust_sel)
  then have "sample_token = dt_value tok" by (simp add: sample_token_def)
  then show ?thesis
    using decode_encode_delivery [OF sample_codec_ok sample_digests_good sample_ref_utf8(2,3) tok, of 8] by simp
qed

theorem token_authenticity_witness:
  "\<exists>key bytes. map_of (co_keys sample_codec) (tk_key_id key) = Some key
     \<and> sample_token = seal sample_digests key (b64 bytes)"
proof -
  obtain item where "token_decode sample_digests sample_codec (JStr sample_token) ''delivery'' 8 = Inr item"
    using sample_token_decodes decode_delivery_item by metis
  then show ?thesis using token_authenticity [OF sample_codec_ok] by blast
qed


theorem token_scope_witness:
  "\<not> (\<exists>res topic' now' y. decode_cursor sample_core sample_digests sample_codec (JStr sample_token) res topic' now' = Inr y)"
proof -
  obtain x where "decode_delivery sample_core sample_digests sample_codec (JStr sample_token) (sample_ref ''sub'')
      (sample_ref ''g'') ''t'' 8 = Inr x"
    using sample_token_decodes by blast
  then show ?thesis using token_scope by blast
qed

end
