(* ===== verification/Clients.thy ===== *)
theory Clients
  imports Cursor
begin

text \<open>
  \<^verbatim>\<open>clients.py\<close>: the narrow client protocols, as the calls the adapter makes and the answers it
  gets. Kafka, the sockets of the protocol probe, the clocks and an injected telemetry sink are
  outside the program: every call is recorded in a history, newest first, and an environment \<open>env\<close>, a parameter of every
  operation, answers from the history whose head is the call itself. So every schedule of
  answers, rebalances, delivery reports and failures is some environment, and what an operation
  did to the outside is read off the history.

  A client is known by the number of calls made before it was created; a produced message by
  the number of calls made before it was handed over. The monotonic clock returns seconds as a
  rational (rounding of floats is left out).
\<close>

section \<open>Calls and answers\<close>

type_synonym topic_partition = "string \<times> int \<times> int"

record message =
  m_error :: "kerr option"
  m_topic :: string
  m_partition :: int
  m_offset :: int
  m_value :: "string option"
  m_headers :: "(string \<times> string option) list option"

record produced =
  pr_topic :: string
  pr_value :: string
  pr_key :: string
  pr_headers :: "(string \<times> string option) list"

record telemetry_event =
  te_name :: string
  te_occurred_at :: string
  te_attributes :: "(string, string) dict"

type_synonym client = nat
type_synonym group_metadata = string

datatype call =
    Monotonic | TimeNs | UtcNow | Uuid
  | SinkEmit telemetry_event
  | ConsumerCreate "(string, cval) dict"
  | Subscribe client string
  | Assign client "topic_partition list"
  | Unassign client
  | ConsumerPoll client rat
  | Commit client "topic_partition list"
  | Committed client string "int list"
  | Seek client topic_partition
  | Pause client topic_partition
  | Resume client topic_partition
  | Watermarks client string int
  | ListTopics client string
  | GroupMetadata client
  | ConsumerClose client
  | Produce client produced
  | ProducerPoll client rat
  | Flush client rat
  | InitTransactions client rat
  | BeginTransaction client
  | SendOffsets client "topic_partition list" group_metadata rat
  | CommitTransaction client rat
  | AbortTransaction client rat
  | ProducerCreate "(string, cval) dict"
  | AdminCreate "(string, cval) dict"
  | AdminListTopics client "string option" rat
  | DescribeConfigs client string
  | SockConnect string int rat
  | TlsWrap "string option" "(string \<times> string \<times> string option) option" string
  | SockTimeout rat
  | SockSend string
  | SockRecv nat
  | TlsClose
  | SockClose
  | TokenUrlsafe nat

type_synonym history = "call list"

text \<open>Rebalance callbacks run inside a poll, with the partitions given to them.\<close>

datatype rebalance = OnAssign "topic_partition list" | OnRevoke "topic_partition list"

text \<open>A delivery report: the message it is about, its error, and its coordinates.\<close>

record report =
  rp_handle :: nat
  rp_error :: "kerr option"
  rp_partition :: int
  rp_offset :: int

text \<open>
  Topic metadata as \<open>_partition_ids\<close> reads it: \<open>None\<close> where an attribute is missing or not a
  mapping.
\<close>

record topic_metadata =
  tm_error :: "kerr option"
  tm_partitions :: "int list option"

type_synonym cluster_metadata = "(string, topic_metadata) dict option"

text \<open>
  Cluster metadata as the probe reads it, \<open>None\<close> again where an attribute is missing or of
  another type.
\<close>

record broker =
  br_host :: "string option"
  br_port :: "int option"

record admin_metadata =
  am_brokers :: "(int, broker) dict option"
  am_controller :: "int option"
  am_cluster_id :: "string option"

record env =
  e_monotonic :: "history \<Rightarrow> rat"
  e_time_ns :: "history \<Rightarrow> int"
  e_text :: "history \<Rightarrow> string"
  e_raises :: "history \<Rightarrow> exc option"
  e_rebalances :: "history \<Rightarrow> rebalance list"
  e_message :: "history \<Rightarrow> message option"
  e_committed :: "history \<Rightarrow> (int \<times> int) list"
  e_watermarks :: "history \<Rightarrow> int \<times> int"
  e_metadata :: "history \<Rightarrow> cluster_metadata"
  e_reports :: "history \<Rightarrow> report list"
  e_queued :: "history \<Rightarrow> int"
  e_admin :: "history \<Rightarrow> admin_metadata"
  e_config :: "history \<Rightarrow> (string, string option) dict option"
  e_bytes :: "history \<Rightarrow> string"

section \<open>The world an operation runs in\<close>

text \<open>
  The history and the evidence kept by telemetry; the components extend the record with their
  own state, and their operations work on any extension of it.
\<close>

record world =
  hist :: history
  tel_events :: "telemetry_event list"
  tel_maximum :: nat

definition push :: "call \<Rightarrow> 'w world_scheme \<Rightarrow> 'w world_scheme" where
  "push c w = w\<lparr>hist := c # hist w\<rparr>"

definition ask :: "call \<Rightarrow> (history \<Rightarrow> 'a) \<Rightarrow> (exc, 'w world_scheme, 'a) op" where
  "ask c answer = (\<lambda>w. let w' = push c w in (Inr (answer (hist w')), w'))"

text \<open>A client call: it raises what the environment says, or returns the answer.\<close>

definition request :: "env \<Rightarrow> call \<Rightarrow> (history \<Rightarrow> 'a) \<Rightarrow> (exc, 'w world_scheme, 'a) op" where
  "request e c answer = (\<lambda>w. let w' = push c w in
     case e_raises e (hist w') of
       Some x \<Rightarrow> (Inl x, w')
     | None \<Rightarrow> (Inr (answer (hist w')), w'))"

abbreviation command :: "env \<Rightarrow> call \<Rightarrow> (exc, 'w world_scheme, unit) op" where
  "command e c \<equiv> request e c (\<lambda>_. ())"

definition monotonic :: "env \<Rightarrow> (exc, 'w world_scheme, rat) op" where
  "monotonic e = ask Monotonic (e_monotonic e)"

definition now_ms :: "env \<Rightarrow> (exc, 'w world_scheme, int) op" where
  "now_ms e = ask TimeNs (\<lambda>h. e_time_ns e h div 1000000)"

text \<open>
  \<open>except BaseException as exc\<close> and \<open>finally\<close>: both leave a run that has not ended alone.
\<close>

definition exceptM :: "(exc, 's, 'a) op \<Rightarrow> (exc \<Rightarrow> (exc, 's, 'a) op) \<Rightarrow> (exc, 's, 'a) op" where
  "exceptM m f = catchM m (\<lambda>x. if x = Diverged then throwM x else f x)"

definition alwaysM :: "(exc, 's, 'a) op \<Rightarrow> (exc, 's, unit) op \<Rightarrow> (exc, 's, 'a) op" where
  "alwaysM m f = (\<lambda>s. case m s of
     (Inl Diverged, t) \<Rightarrow> (Inl Diverged, t)
   | (r, t) \<Rightarrow> (case f t of (Inl x, u) \<Rightarrow> (Inl x, u) | (Inr _, u) \<Rightarrow> (r, u)))"

text \<open>\<open>except BaseException as exc: raise normalize_kafka_error(exc, operation_contract=...)\<close>\<close>

definition normalizedM :: "attrs \<Rightarrow> string \<Rightarrow> (exc, 's, 'a) op \<Rightarrow> (exc, 's, 'a) op" where
  "normalizedM a contract m =
     exceptM m (\<lambda>x. throwM (normalize_kafka_error a (Failed x) (Some contract)))"

text \<open>The same after \<open>except MeridianError: raise\<close>.\<close>

definition adaptedM :: "attrs \<Rightarrow> string \<Rightarrow> (exc, 's, 'a) op \<Rightarrow> (exc, 's, 'a) op" where
  "adaptedM a contract m = exceptM m (\<lambda>x.
     throwM (if is_meridian x then x else normalize_kafka_error a (Failed x) (Some contract)))"

section \<open>Lemmas\<close>

lemma push_simps [simp]:
  "hist (push c w) = c # hist w" "tel_events (push c w) = tel_events w"
  "tel_maximum (push c w) = tel_maximum w" "world.more (push c w) = world.more w"
  by (simp_all add: push_def)

lemma wp_ask [wp_simps]: "wp (ask c answer) Q E w = Q (answer (c # hist w)) (push c w)"
  by (simp add: wp_def ask_def Let_def)

lemma wp_request [wp_simps]:
  "wp (request e c answer) Q E w = (case e_raises e (c # hist w) of
     Some x \<Rightarrow> E x (push c w) | None \<Rightarrow> Q (answer (c # hist w)) (push c w))"
  by (simp add: wp_def request_def Let_def split: option.splits)

lemma wp_monotonic [wp_simps]:
  "wp (monotonic e) Q E w = Q (e_monotonic e (Monotonic # hist w)) (push Monotonic w)"
  by (simp add: monotonic_def wp_ask)

lemma wp_now_ms [wp_simps]:
  "wp (now_ms e) Q E w = Q (e_time_ns e (TimeNs # hist w) div 1000000) (push TimeNs w)"
  by (simp add: now_ms_def wp_ask)

lemma wp_except [wp_simps]:
  "wp (exceptM m f) Q E s = wp m Q (\<lambda>x t. if x = Diverged then E x t else wp (f x) Q E t) s"
  by (auto simp: exceptM_def wp_def catchM_def throwM_def split: prod.splits sum.splits)

lemma wp_always [wp_simps]:
  "wp (alwaysM m f) Q E s =
     wp m (\<lambda>x. wp f (\<lambda>_. Q x) E) (\<lambda>x t. if x = Diverged then E x t else wp f (\<lambda>_. E x) E t) s"
  by (auto simp: alwaysM_def wp_def split: prod.splits sum.splits exc.splits)

lemma wp_normalized [wp_simps]:
  "wp (normalizedM a contract m) Q E s = wp m Q (\<lambda>x t. if x = Diverged then E x t
     else E (normalize_kafka_error a (Failed x) (Some contract)) t) s"
  by (simp add: normalizedM_def wp_except wp_throw)

lemma wp_adapted [wp_simps]:
  "wp (adaptedM a contract m) Q E s = wp m Q (\<lambda>x t. if x = Diverged then E x t
     else E (if is_meridian x then x else normalize_kafka_error a (Failed x) (Some contract)) t) s"
  by (simp add: adaptedM_def wp_except wp_throw)

section \<open>What an operation may call and change\<close>

context op_preorder
begin

lemma keeps_except:
  "keeps R m \<Longrightarrow> (\<And>x. keeps R (f x)) \<Longrightarrow> keeps R (exceptM m f)"
  unfolding exceptM_def by (intro keeps_catch keeps_if keeps_pure)

lemma keeps_always:
  assumes "keeps R m" and "keeps R f" shows "keeps R (alwaysM m f)"
  unfolding keeps_def
proof
  fix s
  obtain r t where ms: "m s = (r, t)" by force
  obtain q u where fs: "f t = (q, u)" by force
  have "R s t" "R t u" using assms ms fs by (metis keeps_def snd_conv)+
  moreover from this have "R s u" by (rule rel_trans)
  ultimately show "R s (snd (alwaysM m f s))"
    using ms fs by (cases r; cases q) (auto simp: alwaysM_def split: exc.splits)
qed

lemma keeps_normalized: "keeps R m \<Longrightarrow> keeps R (normalizedM a contract m)"
  unfolding normalizedM_def by (intro keeps_except keeps_pure)

lemma keeps_adapted: "keeps R m \<Longrightarrow> keeps R (adaptedM a contract m)"
  unfolding adaptedM_def by (intro keeps_except keeps_pure)

lemmas keeps_rules = keeps_pure keeps_bind keeps_catch keeps_if keeps_when keeps_option keeps_sum
  keeps_prod keeps_for keeps_map keeps_except keeps_always keeps_normalized keeps_adapted

end

text \<open>
  Two such relations: \<open>calls_only P\<close>, the history has only grown, by calls that satisfy \<open>P\<close>, and
  \<open>unchanged f\<close>, the part \<open>f\<close> of the state is as it was.
\<close>

definition calls_only :: "(call \<Rightarrow> bool) \<Rightarrow> 'w world_scheme \<Rightarrow> 'w world_scheme \<Rightarrow> bool" where
  "calls_only P w w' \<longleftrightarrow> (\<exists>cs. hist w' = cs @ hist w \<and> list_all P cs)"

definition unchanged :: "('s \<Rightarrow> 'v) \<Rightarrow> 's \<Rightarrow> 's \<Rightarrow> bool" where
  "unchanged f s t \<longleftrightarrow> f t = f s"

interpretation calls: op_preorder "calls_only P" for P :: "call \<Rightarrow> bool"
proof unfold_locales
  show "calls_only P s s" for s by (simp add: calls_only_def)
  show "calls_only P s u" if "calls_only P s t" "calls_only P t u" for s t u
  proof -
    from that obtain cs ds where "hist t = cs @ hist s" "list_all P cs" "hist u = ds @ hist t" "list_all P ds"
      by (auto simp: calls_only_def)
    then have "hist u = (ds @ cs) @ hist s" "list_all P (ds @ cs)" by simp_all
    then show ?thesis unfolding calls_only_def by blast
  qed
qed

interpretation frame: op_preorder "unchanged f" for f :: "'s \<Rightarrow> 'v"
  by unfold_locales (simp_all add: unchanged_def)

declare calls.keeps_rules [keeps_intros] frame.keeps_rules [keeps_intros]

lemma calls_only_push: "P c \<Longrightarrow> calls_only P w (push c w)"
  unfolding calls_only_def by (intro exI [of _ "[c]"]) simp

lemma keeps_ask [keeps_intros]: "P c \<Longrightarrow> keeps (calls_only P) (ask c answer)"
  by (simp add: keeps_def ask_def Let_def calls_only_push)

lemma keeps_request [keeps_intros]: "P c \<Longrightarrow> keeps (calls_only P) (request e c answer)"
  by (simp add: keeps_def request_def Let_def calls_only_push split: option.splits)

lemma keeps_clocks [keeps_intros]:
  "P Monotonic \<Longrightarrow> keeps (calls_only P) (monotonic e)" "P TimeNs \<Longrightarrow> keeps (calls_only P) (now_ms e)"
  by (simp_all add: monotonic_def now_ms_def keeps_ask)

lemma keeps_modM [keeps_intros]:
  "(\<And>w. hist (f w) = hist w) \<Longrightarrow> keeps (calls_only P) (modM f)"
  by (simp add: keeps_def modM_def calls_only_def)

text \<open>Parts of the state that calls and telemetry do not touch.\<close>

definition ignores_calls :: "('w world_scheme \<Rightarrow> 'v) \<Rightarrow> bool" where
  "ignores_calls f \<longleftrightarrow> (\<forall>w h evs. f (w\<lparr>hist := h\<rparr>) = f w \<and> f (w\<lparr>tel_events := evs\<rparr>) = f w)"

lemma ignores_callsD [simp]:
  "ignores_calls f \<Longrightarrow> f (push c w) = f w" "ignores_calls f \<Longrightarrow> f (w\<lparr>hist := h\<rparr>) = f w"
  "ignores_calls f \<Longrightarrow> f (w\<lparr>tel_events := evs\<rparr>) = f w"
  by (simp_all add: ignores_calls_def push_def)

lemma unchanged_calls [keeps_intros]:
  assumes "ignores_calls f"
  shows "keeps (unchanged f) (ask c answer)" "keeps (unchanged f) (request e c answer')"
    "keeps (unchanged f) (monotonic e)" "keeps (unchanged f) (now_ms e)"
  using assms
  by (simp_all add: keeps_def unchanged_def ask_def request_def monotonic_def now_ms_def Let_def split: option.splits)

lemma unchanged_modM [keeps_intros]: "(\<And>w. f (h w) = f w) \<Longrightarrow> keeps (unchanged f) (modM h)"
  by (simp add: keeps_def modM_def unchanged_def)

lemma keepsD: "keeps R m \<Longrightarrow> m s = (r, t) \<Longrightarrow> R s t"
  by (metis keeps_def snd_conv)

lemma keeps_wp: "keeps R m \<Longrightarrow> wp m (\<lambda>_. R s) (\<lambda>_. R s) s"
  by (auto simp: wp_def split: prod.split sum.split dest: keepsD)

lemma keeps_calls_mono: "keeps (calls_only P) m \<Longrightarrow> (\<And>c. P c \<Longrightarrow> Q c) \<Longrightarrow> keeps (calls_only Q) m"
  unfolding keeps_def calls_only_def by (metis list.pred_mono_strong)

lemma calls_longer: "calls_only P s t \<Longrightarrow> length (hist s) \<le> length (hist t)"
  by (auto simp: calls_only_def)

lemma always_last:
  assumes "alwaysM m (command e c) w = (r, w')" and "keeps (calls_only P) m" and "r \<noteq> Inl Diverged"
  shows "\<exists>cs. hist w' = c # cs @ hist w \<and> list_all P cs"
proof -
  obtain q v where q: "m w = (q, v)" by force
  then obtain cs where cs: "hist v = cs @ hist w" "list_all P cs"
    using keepsD [OF assms(2) q] by (auto simp: calls_only_def)
  have "q \<noteq> Inl Diverged" using assms(1,3) q by (auto simp: alwaysM_def)
  then have "hist w' = c # hist v"
    using assms(1) q by (cases q) (auto simp: alwaysM_def request_def Let_def split: option.splits exc.splits)
  then show ?thesis using cs by simp
qed

lemma unchangedD: "keeps (unchanged f) m \<Longrightarrow> m s = (r, t) \<Longrightarrow> f t = f s"
  by (metis keeps_def snd_conv unchanged_def)

lemma keeps_let [keeps_intros]: "keeps R (f x) \<Longrightarrow> keeps R (let y = x in f y)"
  by simp

section \<open>Operations that end\<close>

text \<open>
  The loops of the model carry fuel and answer \<open>Diverged\<close> without it. An operation \<open>terminates\<close>
  when it never does; the environment itself is assumed never to.
\<close>

named_theorems ends_intros "operations that end with a result or an exception of the program"

definition terminates :: "(exc, 's, 'a) op \<Rightarrow> bool" where
  "terminates m \<longleftrightarrow> (\<forall>s. fst (m s) \<noteq> Inl Diverged)"

abbreviation finite_failure :: "exc + 'a \<Rightarrow> bool" where
  "finite_failure \<equiv> failsE (\<lambda>x. x \<noteq> Diverged)"

definition env_returns :: "env \<Rightarrow> bool" where
  "env_returns e \<longleftrightarrow> (\<forall>h. e_raises e h \<noteq> Some Diverged)"

lemma terminates_wp: "terminates m \<Longrightarrow> wp m (\<lambda>_ _. True) (\<lambda>x _. x \<noteq> Diverged) s"
  by (auto simp: terminates_def wp_def split: prod.splits sum.splits) (metis fst_conv)

lemma terminatesI:
  assumes "\<And>s. wp m (\<lambda>_ _. True) (\<lambda>x _. x \<noteq> Diverged) s" shows "terminates m"
  unfolding terminates_def
proof
  show "fst (m s) \<noteq> Inl Diverged" for s
    using assms [of s] by (auto simp: wp_def split: prod.splits)
qed

lemma ends_ret [ends_intros]: "terminates (retM x)" "terminates (getM f)" "terminates (modM h)"
  by (simp_all add: terminates_def op_defs)

lemma ends_throw [ends_intros]: "x \<noteq> Diverged \<Longrightarrow> terminates (throwM x)"
  by (simp add: terminates_def op_defs)

lemma ends_lift [ends_intros]: "finite_failure r \<Longrightarrow> terminates (liftE r)"
  by (auto simp: terminates_def op_defs failsE_def)

lemma ends_bind [ends_intros]: "terminates m \<Longrightarrow> (\<And>x. terminates (f x)) \<Longrightarrow> terminates (bindM m f)"
  by (rule terminatesI) (auto simp: wp_bind intro!: wp_mono [OF terminates_wp] terminates_wp)

lemma ends_if [ends_intros]: "terminates m \<Longrightarrow> terminates n \<Longrightarrow> terminates (if b then m else n)"
  by simp

lemma ends_when [ends_intros]: "terminates m \<Longrightarrow> terminates (whenM b m)"
  by (simp add: whenM_def ends_ret)

lemma ends_option [ends_intros]:
  "terminates m \<Longrightarrow> (\<And>x. terminates (f x)) \<Longrightarrow> terminates (case r of None \<Rightarrow> m | Some x \<Rightarrow> f x)"
  by (cases r) auto

lemma ends_prod [ends_intros]: "(\<And>x y. terminates (f x y)) \<Longrightarrow> terminates (case p of (x, y) \<Rightarrow> f x y)"
  by (cases p) simp

lemma ends_let [ends_intros]: "terminates (f x) \<Longrightarrow> terminates (let y = x in f y)"
  by simp

lemma ends_for [ends_intros]: "(\<And>x. terminates (f x)) \<Longrightarrow> terminates (forM xs f)"
  by (induction xs) (auto intro: ends_intros)

lemma ends_map [ends_intros]: "(\<And>x. terminates (f x)) \<Longrightarrow> terminates (mapM f xs)"
  by (induction xs) (auto intro: ends_intros)

lemma ends_ask [ends_intros]: "terminates (ask c answer)" "terminates (monotonic e)" "terminates (now_ms e)"
  by (simp_all add: terminates_def ask_def monotonic_def now_ms_def Let_def)

lemma ends_request [ends_intros]: "env_returns e \<Longrightarrow> terminates (request e c answer)"
  by (auto simp: terminates_def request_def env_returns_def Let_def split: option.splits)

lemma ends_except [ends_intros]:
  "terminates m \<Longrightarrow> (\<And>x. x \<noteq> Diverged \<Longrightarrow> terminates (f x)) \<Longrightarrow> terminates (exceptM m f)"
  by (rule terminatesI) (auto simp: wp_except intro: wp_mono [OF terminates_wp] dest: terminates_wp)

lemma ends_always [ends_intros]: "terminates m \<Longrightarrow> terminates f \<Longrightarrow> terminates (alwaysM m f)"
  by (rule terminatesI) (auto simp: wp_always intro!: wp_mono [OF terminates_wp])

lemma normalized_finite [simp]: "normalize_kafka_error a v c \<noteq> Diverged"
  by (metis is_meridian_simps(4) normalize_meridian)

lemma ends_normalized [ends_intros]: "terminates m \<Longrightarrow> terminates (normalizedM a contract m)"
  unfolding normalizedM_def by (intro ends_intros) simp_all

lemma ends_adapted [ends_intros]: "terminates m \<Longrightarrow> terminates (adaptedM a contract m)"
  unfolding adaptedM_def by (intro ends_intros) auto

lemma finite_json:
  "finite_failure (json_value v)" "finite_failure (json_values vs)" "finite_failure (json_items kvs)"
  by (induction v and vs and kvs rule: json_value_json_values_json_items.induct)
    (auto simp: bounded_string_def failsE_def bindE_Inl_iff, blast)

lemma finite_canonical [fails_intros]:
  "finite_failure (canonical_json_bytes v)" "finite_failure (sha256_fingerprint d v)"
  "finite_failure (bounded_string v n)"
  unfolding canonical_json_bytes_def sha256_fingerprint_def
  by (intro fails_intros finite_json, intro fails_intros finite_json)
    (simp add: bounded_string_def failsE_def split: json.split)

lemma finite_encode [fails_intros]:
  "finite_failure (token_encode d co p)" "finite_failure (encode_position c d co r t p' off lp now)"
proof -
  show 1: "finite_failure (token_encode d co p)" for p
    unfolding token_encode_def Let_def by (intro fails_intros) simp
  show "finite_failure (encode_position c d co r t p' off lp now)"
    unfolding encode_position_def by (intro fails_intros 1)
qed

end
