(* ===== verification/Telemetry.thy ===== *)
theory Telemetry
  imports Clients
begin

text \<open>
  \<^verbatim>\<open>telemetry.py\<close>: bounded evidence with an injected sink. The event is validated and kept first,
  then forwarded; the sink is outside the program and may raise. \<open>NullKafkaTelemetrySink\<close> is an
  environment in which \<open>SinkEmit\<close> never raises (\<open>quiet_sink\<close>).
\<close>

datatype tval = TInt int | TBool bool | TText string

fun str_tval :: "tval \<Rightarrow> string" where
  "str_tval (TInt i) = str_int i"
| "str_tval (TBool b) = (if b then ''True'' else ''False'')"
| "str_tval (TText s) = s"

definition FORBIDDEN_KEYS :: "string list" where
  "FORBIDDEN_KEYS = [''secret'', ''password'', ''credential'', ''endpoint'', ''topic'', ''groupid'']"

definition lower_char :: "char \<Rightarrow> char" where
  "lower_char c = (if 65 \<le> (of_char c :: nat) \<and> (of_char c :: nat) \<le> 90
     then char_of ((of_char c :: nat) + 32) else c)"

definition lowered_key :: "string \<Rightarrow> string" where
  "lowered_key key = filter (\<lambda>c. c \<noteq> CHR ''_'') (map lower_char key)"

definition mk_telemetry :: "nat \<Rightarrow> exc + nat" where
  "mk_telemetry maximum_events =
     (if 1 \<le> maximum_events \<and> int maximum_events \<le> 100000 then Inr maximum_events
      else Inl (PyExc ValueError))"

definition select_attribute :: "string \<times> tval \<Rightarrow> (string, string) dict \<Rightarrow> exc + (string, string) dict" where
  "select_attribute = (\<lambda>(key, raw) selected.
     bindE (bounded_string (JStr key) 128) (\<lambda>safe_key.
     if list_ex (\<lambda>forbidden. str_contains forbidden (lowered_key safe_key)) FORBIDDEN_KEYS
     then Inl (PyExc ValueError)
     else bindE (bounded_string (JStr (str_tval raw)) 512) (\<lambda>value.
       Inr (dset safe_key value selected))))"

definition keep_event :: "telemetry_event \<Rightarrow> 'w world_scheme \<Rightarrow> 'w world_scheme" where
  "keep_event ev w = w\<lparr>tel_events :=
     (let evs = tel_events w @ [ev] in drop (length evs - tel_maximum w) evs)\<rparr>"

definition emit :: "env \<Rightarrow> string \<Rightarrow> (string \<times> tval) list \<Rightarrow> (exc, 'w world_scheme, unit) op" where
  "emit e name attributes =
     bindM (liftE (foldE select_attribute attributes [])) (\<lambda>selected.
     bindM (liftE (bounded_string (JStr name) 256)) (\<lambda>safe_name.
     bindM (ask UtcNow (e_text e)) (\<lambda>occurred_at.
     let ev = \<lparr>te_name = safe_name, te_occurred_at = occurred_at,
                te_attributes = sorted_items selected\<rparr>
     in bindM (modM (keep_event ev)) (\<lambda>_. command e (SinkEmit ev)))))"

definition snapshot :: "'w world_scheme \<Rightarrow> telemetry_event list" where
  "snapshot w = tel_events w"

definition names :: "'w world_scheme \<Rightarrow> string list" where
  "names w = map te_name (snapshot w)"

section \<open>Lemmas\<close>

definition quiet_sink :: "env \<Rightarrow> bool" where
  "quiet_sink e \<longleftrightarrow> (\<forall>ev h. e_raises e (SinkEmit ev # h) = None)"

lemma keep_event_simps [simp]:
  "hist (keep_event ev w) = hist w" "tel_maximum (keep_event ev w) = tel_maximum w"
  "world.more (keep_event ev w) = world.more w"
  by (simp_all add: keep_event_def)

text \<open>The attributes the adapter uses: the evidence is valid, whatever the numbers are.\<close>

definition valid_attribute :: "string \<times> tval \<Rightarrow> bool" where
  "valid_attribute = (\<lambda>(key, raw). key \<noteq> [] \<and> int (length key) \<le> 128 \<and> \<not> list_ex control_char key
     \<and> \<not> list_ex (\<lambda>forbidden. str_contains forbidden (lowered_key key)) FORBIDDEN_KEYS
     \<and> str_tval raw \<noteq> [] \<and> int (length (str_tval raw)) \<le> 512 \<and> \<not> list_ex control_char (str_tval raw))"

text \<open>Only the history, by the two calls, and the kept evidence change.\<close>

definition telemetry_call :: "call \<Rightarrow> bool" where
  "telemetry_call c = (case c of UtcNow \<Rightarrow> True | SinkEmit _ \<Rightarrow> True | _ \<Rightarrow> False)"

definition same_state :: "'w world_scheme \<Rightarrow> 'w world_scheme \<Rightarrow> bool" where
  "same_state w w' \<longleftrightarrow> world.more w' = world.more w \<and> tel_maximum w' = tel_maximum w"

lemma emit_frame:
  "same_state w (snd (emit e name as w)) \<and> calls_only telemetry_call w (snd (emit e name as w))"
proof -
  have "wp (emit e name as) (\<lambda>_ w'. same_state w w' \<and> calls_only telemetry_call w w')
      (\<lambda>_ w'. same_state w w' \<and> calls_only telemetry_call w w') w"
    by (auto simp: emit_def wp_simps same_state_def calls_only_def Let_def telemetry_call_def
        split: sum.splits option.splits)
  then show ?thesis by (simp add: wp_def split: prod.splits sum.splits)
qed

lemma keeps_emit [keeps_intros]:
  assumes "\<And>ev. P (SinkEmit ev)" and "P UtcNow" shows "keeps (calls_only P) (emit e name as)"
proof -
  have "telemetry_call c \<Longrightarrow> P c" for c using assms by (cases c) (auto simp: telemetry_call_def)
  then show ?thesis using emit_frame
    unfolding keeps_def calls_only_def by (metis (mono_tags, lifting) list.pred_mono_strong)
qed

lemma unchanged_emit [keeps_intros]:
  assumes "ignores_calls f" shows "keeps (unchanged f) (emit e name as)"
proof -
  have "f (keep_event ev w) = f w" for ev w using assms by (simp add: keep_event_def Let_def)
  then show ?thesis unfolding emit_def by (intro keeps_intros assms)
qed

lemma select_attribute_Inl: "select_attribute x s = Inl e \<Longrightarrow> e = PyExc ValueError"
  by (auto simp: select_attribute_def bindE_Inl_iff split: prod.splits if_splits dest: bounded_string_Inl)

lemma ends_emit [ends_intros]: "env_returns e \<Longrightarrow> terminates (emit e name as)"
  unfolding emit_def
  by (intro ends_intros fails_intros) (auto simp: failsE_def dest: select_attribute_Inl)

lemma select_forbidden:
  "\<exists>(key, raw) \<in> set as. list_ex (\<lambda>f. str_contains f (lowered_key key)) FORBIDDEN_KEYS \<Longrightarrow>
   foldE select_attribute as s = Inl (PyExc ValueError)"
proof (induction as arbitrary: s)
  case (Cons a as)
  show ?case
  proof (cases "select_attribute a s")
    case (Inl e)
    then show ?thesis using select_attribute_Inl by simp
  next
    case (Inr s')
    then have "\<not> (case a of (key, raw) \<Rightarrow> list_ex (\<lambda>f. str_contains f (lowered_key key)) FORBIDDEN_KEYS)"
      by (auto simp: select_attribute_def split: if_splits prod.splits)
    then show ?thesis using Cons Inr by auto
  qed
qed simp

lemma emit_events:
  "(\<exists>ev. tel_events (snd (emit e name as w)) = tel_events (keep_event ev w))
   \<or> tel_events (snd (emit e name as w)) = tel_events w"
proof -
  let ?R = "\<lambda>w'. (\<exists>ev. tel_events w' = tel_events (keep_event ev w)) \<or> tel_events w' = tel_events w"
  have "wp (emit e name as) (\<lambda>_. ?R) (\<lambda>_. ?R) w"
    by (auto simp: emit_def wp_simps Let_def keep_event_def push_def split: sum.splits option.splits)
  then show ?thesis by (simp add: wp_def split: prod.splits sum.splits)
qed

subsection \<open>Evidence that is always valid\<close>

lemma digits_of_length: "n < 10 ^ k \<Longrightarrow> 1 \<le> k \<Longrightarrow> length (digits_of n) \<le> k"
proof (induction k arbitrary: n)
  case (Suc k)
  show ?case
  proof (cases "n < 10")
    case True
    then show ?thesis by (simp add: digits_of.simps)
  next
    case False
    then have "1 \<le> k" using Suc.prems by (cases k) auto
    moreover have "n div 10 < 10 ^ k" using Suc.prems(1) by auto
    ultimately have "length (digits_of (n div 10)) \<le> k" by (rule Suc.IH [rotated])
    then show ?thesis using False by (subst digits_of.simps) simp
  qed
qed simp

lemma digit_not_control: "is_digit c \<Longrightarrow> \<not> control_char c"
  unfolding control_char_def is_digit_def by linarith

lemma digits_not_control: "\<not> list_ex control_char (digits_of n)"
  using digits_of_digits [of n] digit_not_control by (auto simp: list_ex_iff)

lemma str_int_text:
  assumes "\<bar>i\<bar> < 10 ^ k" and "1 \<le> k"
  shows "str_int i \<noteq> []" and "length (str_int i) \<le> Suc k" and "\<not> list_ex control_char (str_int i)"
proof -
  have "nat \<bar>i\<bar> < 10 ^ k" using assms(1) by (metis nat_less_iff abs_ge_zero of_nat_numeral of_nat_power)
  then have "length (digits_of (nat \<bar>i\<bar>)) \<le> k" using assms(2) by (rule digits_of_length)
  then show "length (str_int i) \<le> Suc k" by (auto simp: str_int_def abs_if split: if_splits)
  show "str_int i \<noteq> []" by (simp add: str_int_def)
  have "\<not> control_char CHR ''-''" by (simp add: control_char_def)
  then show "\<not> list_ex control_char (str_int i)" by (simp add: str_int_def digits_not_control)
qed

text \<open>Numbers of up to 500 digits: what fits an attribute value.\<close>

definition small :: "int \<Rightarrow> bool" where
  "small i \<longleftrightarrow> \<bar>i\<bar> < 10 ^ 500"

definition valid_key :: "string \<Rightarrow> bool" where
  "valid_key key \<longleftrightarrow> key \<noteq> [] \<and> int (length key) \<le> 128 \<and> \<not> list_ex control_char key
     \<and> \<not> list_ex (\<lambda>forbidden. str_contains forbidden (lowered_key key)) FORBIDDEN_KEYS"

lemma valid_attribute_TInt:
  assumes "valid_key k" and "small i" shows "valid_attribute (k, TInt i)"
proof -
  note s = str_int_text [OF assms(2) [unfolded small_def]]
  show ?thesis using assms(1) s by (simp add: valid_attribute_def valid_key_def)
qed

lemma valid_attribute_TBool: "valid_key k \<Longrightarrow> valid_attribute (k, TBool b)"
  by (simp add: valid_attribute_def valid_key_def control_char_def)

lemma emit_ok:
  assumes "quiet_sink e" and "list_all valid_attribute as" and "valid_key name"
  shows "\<exists>w'. emit e name as w = (Inr (), w')"
proof -
  have "\<exists>r. foldE select_attribute as s = Inr r" for s
    using assms(2)
  proof (induction as arbitrary: s)
    case (Cons a as)
    then have "\<exists>s'. select_attribute a s = Inr s'"
      by (auto simp: valid_attribute_def select_attribute_def bounded_string_def split: prod.splits)
    then show ?case using Cons by auto
  qed simp
  then obtain r where "foldE select_attribute as [] = Inr r" by blast
  moreover have "bounded_string (JStr name) 256 = Inr name" using assms(3) by (simp add: valid_key_def)
  ultimately show ?thesis
    using assms(1)
    by (simp add: emit_def op_defs ask_def request_def Let_def quiet_sink_def del: bounded_string_Inr)
qed

section \<open>Properties\<close>


definition sample_world :: world where
  "sample_world = \<lparr>hist = [], tel_events = [], tel_maximum = 1\<rparr>"

definition quiet_env :: env where
  "quiet_env = \<lparr>e_monotonic = (\<lambda>h. of_nat (length h)), e_time_ns = (\<lambda>h. int (length h) * 1000000),
     e_text = (\<lambda>h. ''x''), e_raises = (\<lambda>h. None), e_rebalances = (\<lambda>h. []), e_message = (\<lambda>h. None),
     e_committed = (\<lambda>h. []), e_watermarks = (\<lambda>h. (0, 0)), e_metadata = (\<lambda>h. None),
     e_reports = (\<lambda>h. []), e_queued = (\<lambda>h. 0),
     e_admin = (\<lambda>h. \<lparr>am_brokers = None, am_controller = None, am_cluster_id = None\<rparr>), e_config = (\<lambda>h. None),
     e_bytes = (\<lambda>h. [])\<rparr>"


end
