(* ===== verification/Compiler.thy ===== *)
theory Compiler
  imports Cursor
begin

text \<open>
  \<^verbatim>\<open>compiler/__init__.py\<close>: the strict compiler from Streaming Operations to private commands. An
  Operation is its catalog, version, contract and input mapping; the limits on sizes are those of
  \<^verbatim>\<open>meridian_storage.streaming\<close> (fields of \<open>core\<close>).
\<close>

section \<open>Commands\<close>

record publish_command =
  pub_stream :: physical_stream
  pub_events :: "event list"
  pub_idempotency_key :: "string option"
  pub_batch :: bool

record subscribe_command =
  sc_stream :: physical_stream
  sc_subscription :: physical_subscription

record poll_command =
  poll_subscription :: physical_subscription
  poll_consumer_group :: physical_consumer_group
  poll_stream :: physical_stream
  poll_limit :: int
  poll_wait_timeout_ms :: int

record acknowledge_command =
  ack_subscription :: physical_subscription
  ack_consumer_group :: physical_consumer_group
  ack_stream :: physical_stream
  ack_delivery :: json

record negative_acknowledge_command = acknowledge_command +
  nack_retry_after_ms :: int
  nack_classification :: "string option"

record read_range_command =
  rr_stream :: physical_stream
  rr_start :: "json option"
  rr_end :: "json option"
  rr_cursor :: "json option"
  rr_limit :: int
  rr_replay :: bool

record group_position_command =
  gp_subscription :: physical_subscription
  gp_consumer_group :: physical_consumer_group
  gp_stream :: physical_stream
  gp_position :: json
  gp_expected_fingerprint :: string

record validate_schema_command =
  vs_namespace :: string
  vs_name :: string
  vs_version :: string
  vs_expected_registry_revision :: "int option"
  vs_allow_breaking :: bool

record validate_resource_command =
  vr_resource :: physical_resource
  vr_resource_type :: string

record transactional_command =
  tx_poll :: poll_command
  tx_delivery :: json
  tx_outputs :: "publish_command list"

datatype compiled_command =
    PublishCommand publish_command
  | SubscribeCommand subscribe_command
  | PollCommand poll_command
  | AcknowledgeCommand acknowledge_command
  | NegativeAcknowledgeCommand negative_acknowledge_command
  | ReadRangeCommand read_range_command
  | GroupPositionCommand group_position_command
  | ValidateSchemaCommand validate_schema_command
  | ValidateResourceCommand validate_resource_command
  | TransactionalConsumePublishCommand transactional_command

record operation =
  op_catalog :: string
  op_version :: string
  op_contract :: string
  op_input :: json

section \<open>Fields\<close>

abbreviation bad_definition :: exc where
  "bad_definition \<equiv> raised InvalidStreamingDefinition"

definition MAX_RETRY_AFTER_MS :: int where
  "MAX_RETRY_AFTER_MS = 86400000"

definition op_ref :: "core \<Rightarrow> json \<Rightarrow> exc + ref" where
  "op_ref c value = exceptE c [TypeError, ValueError] bad_definition
     (case value of
        JStr _ \<Rightarrow> bindE (ref_parse c value) (\<lambda>selected.
          if ref_catalog selected \<noteq> ''streaming'' then Inl (PyExc ValueError) else Inr selected)
      | JObj _ \<Rightarrow> bindE (ref_parse c value) (\<lambda>selected.
          if ref_catalog selected \<noteq> ''streaming'' then Inl (PyExc ValueError) else Inr selected)
      | _ \<Rightarrow> Inl (PyExc TypeError))"

definition op_opaque :: "json \<Rightarrow> exc + json" where
  "op_opaque value = (case value of
     JStr _ \<Rightarrow> bindE (bounded_string value 4096) (\<lambda>s. Inr (JStr s))
   | JObj _ \<Rightarrow> Inr value
   | _ \<Rightarrow> Inl bad_definition)"

definition optional_opaque :: "json \<Rightarrow> exc + json option" where
  "optional_opaque value =
     (if value = JNull then Inr None else bindE (op_opaque value) (\<lambda>v. Inr (Some v)))"

definition op_integer :: "json \<Rightarrow> int \<Rightarrow> int option \<Rightarrow> exc + int" where
  "op_integer value minimum maximum = (case value of
     JInt i \<Rightarrow> if i < minimum \<or> (case maximum of None \<Rightarrow> False | Some mx \<Rightarrow> i > mx)
       then Inl bad_definition else Inr i
   | _ \<Rightarrow> Inl bad_definition)"

definition op_boolean :: "json \<Rightarrow> exc + bool" where
  "op_boolean value = (case value of JBool b \<Rightarrow> Inr b | _ \<Rightarrow> Inl bad_definition)"

definition op_fingerprint :: "json \<Rightarrow> exc + string" where
  "op_fingerprint value = bindE (bounded_string value 71) (\<lambda>selected.
     if is_fingerprint selected then Inr selected else Inl bad_definition)"

definition op_closed :: "core \<Rightarrow> json \<Rightarrow> string list \<Rightarrow> string list \<Rightarrow> exc + (string \<times> json) list" where
  "op_closed c value required optional =
     exceptE c [TypeError, ValueError] (raised_for InvalidStreamingDefinition ''operation.input'')
       (closed_object value required optional)"

text \<open>A non-empty array of at most \<open>MAX_BATCH_SIZE\<close> entries.\<close>

definition op_array :: "core \<Rightarrow> json \<Rightarrow> exc + json list" where
  "op_array c value = (case value of
     JList raws \<Rightarrow>
       if \<not> (1 \<le> int (length raws) \<and> int (length raws) \<le> max_batch_size c) then Inl bad_definition
       else Inr raws
   | _ \<Rightarrow> Inl bad_definition)"

section \<open>Operations\<close>

definition op_event :: "core \<Rightarrow> json \<Rightarrow> physical_stream \<Rightarrow> exc + event" where
  "op_event c value strm = (case value of
     JObj _ \<Rightarrow>
       bindE (mapExcE (\<lambda>x. if is_error_of c [TypeError, ValueError] x \<and> \<not> has_kind InvalidEvent x
           then raised InvalidEvent else x) (event_parse c value)) (\<lambda>ev.
       if ev_stream ev \<noteq> ps_ref strm then Inl (raised_for InvalidEvent ''event.stream'')
       else if ev_schema ev \<noteq> ps_schema_ref strm then Inl (raised_for InvalidEvent ''event.schema'')
       else Inr ev)
   | _ \<Rightarrow> Inl (raised InvalidEvent))"

definition compile_publish :: "core \<Rightarrow> settings \<Rightarrow> json \<Rightarrow> bool \<Rightarrow> exc + publish_command" where
  "compile_publish c s input batch =
     bindE (op_closed c input [''resource'', ''data''] [''idempotencyKey'']) (\<lambda>value.
     bindE (bindE (bindE (item_at value ''resource'') (op_ref c)) (stream s)) (\<lambda>strm.
     bindE (item_at value ''data'') (\<lambda>raw_events.
     bindE (if batch
       then bindE (op_array c raw_events) (mapE (\<lambda>r. op_event c r strm))
       else bindE (op_event c raw_events strm) (\<lambda>ev. Inr [ev])) (\<lambda>selected.
     bindE (let key = item_get value ''idempotencyKey'' in
       if key = JNull then Inr None else bindE (bounded_string key 512) (\<lambda>k. Inr (Some k))) (\<lambda>key.
       Inr \<lparr>pub_stream = strm, pub_events = selected, pub_idempotency_key = key, pub_batch = batch\<rparr>)))))"

definition compile_subscribe :: "core \<Rightarrow> settings \<Rightarrow> json \<Rightarrow> exc + subscribe_command" where
  "compile_subscribe c s input =
     bindE (op_closed c input [''stream'', ''subscription'', ''options''] []) (\<lambda>value.
     bindE (bindE (bindE (item_at value ''stream'') (op_ref c)) (stream s)) (\<lambda>strm.
     bindE (bindE (bindE (item_at value ''subscription'') (op_ref c)) (subscription s)) (\<lambda>sub.
     if sub_stream sub \<noteq> ps_ref strm then Inl bad_definition
     else bindE (bindE (item_at value ''options'') as_object) (\<lambda>options.
     if options \<noteq> [] then Inl (raised_for InvalidStreamingDefinition ''subscription.lifecycle-authority'')
     else Inr \<lparr>sc_stream = strm, sc_subscription = sub\<rparr>))))"

text \<open>The lookup four operations share.\<close>

definition op_group_stream :: "core \<Rightarrow> settings \<Rightarrow> (string \<times> json) list \<Rightarrow>
    exc + physical_subscription \<times> physical_consumer_group \<times> physical_stream" where
  "op_group_stream c s value =
     bindE (bindE (item_at value ''subscription'') (op_ref c)) (\<lambda>sref.
     bindE (bindE (item_at value ''consumerGroup'') (op_ref c)) (\<lambda>gref. group_stream s sref gref))"

definition compile_poll :: "core \<Rightarrow> settings \<Rightarrow> json \<Rightarrow> exc + poll_command" where
  "compile_poll c s input =
     bindE (op_closed c input [''subscription'', ''consumerGroup'', ''limit'', ''waitTimeoutMs''] []) (\<lambda>value.
     bindE (op_group_stream c s value) (\<lambda>(sub, grp, strm).
     bindE (bindE (item_at value ''limit'') (\<lambda>v. op_integer v 1 (Some (max_poll_size c)))) (\<lambda>limit.
     bindE (bindE (item_at value ''waitTimeoutMs'')
       (\<lambda>v. op_integer v 0 (Some (max_wait_timeout_ms c)))) (\<lambda>wait.
       Inr \<lparr>poll_subscription = sub, poll_consumer_group = grp, poll_stream = strm,
         poll_limit = limit, poll_wait_timeout_ms = wait\<rparr>))))"

definition compile_acknowledge :: "core \<Rightarrow> settings \<Rightarrow> json \<Rightarrow> exc + acknowledge_command" where
  "compile_acknowledge c s input =
     bindE (op_closed c input [''subscription'', ''consumerGroup'', ''delivery''] []) (\<lambda>value.
     bindE (op_group_stream c s value) (\<lambda>(sub, grp, strm).
     bindE (bindE (item_at value ''delivery'') op_opaque) (\<lambda>delivery.
       Inr \<lparr>ack_subscription = sub, ack_consumer_group = grp, ack_stream = strm,
         ack_delivery = delivery\<rparr>)))"

definition compile_negative_acknowledge :: "core \<Rightarrow> settings \<Rightarrow> json \<Rightarrow> exc + negative_acknowledge_command" where
  "compile_negative_acknowledge c s input =
     bindE (op_closed c input [''subscription'', ''consumerGroup'', ''delivery'']
       [''retryAfterMs'', ''classification'']) (\<lambda>value.
     bindE (op_group_stream c s value) (\<lambda>(sub, grp, strm).
     bindE (let cl = item_get value ''classification'' in
       if cl = JNull then Inr None else bindE (bounded_string cl 256) (\<lambda>k. Inr (Some k))) (\<lambda>classification.
     bindE (bindE (item_at value ''delivery'') op_opaque) (\<lambda>delivery.
     bindE (op_integer (case map_of value ''retryAfterMs'' of None \<Rightarrow> JInt 0 | Some v \<Rightarrow> v) 0
       (Some MAX_RETRY_AFTER_MS)) (\<lambda>retry.
       Inr \<lparr>ack_subscription = sub, ack_consumer_group = grp, ack_stream = strm,
         ack_delivery = delivery, nack_retry_after_ms = retry, nack_classification = classification\<rparr>)))))"

definition compile_read_range :: "core \<Rightarrow> settings \<Rightarrow> json \<Rightarrow> exc + read_range_command" where
  "compile_read_range c s input =
     bindE (op_closed c input [''resource'', ''start'', ''end'', ''cursor'', ''limit''] []) (\<lambda>value.
     bindE (bindE (bindE (item_at value ''resource'') (op_ref c)) (stream s)) (\<lambda>strm.
     bindE (bindE (item_at value ''start'') optional_opaque) (\<lambda>start.
     bindE (bindE (item_at value ''end'') optional_opaque) (\<lambda>stop.
     bindE (bindE (item_at value ''cursor'') optional_opaque) (\<lambda>cursor.
     bindE (bindE (item_at value ''limit'') (\<lambda>v. op_integer v 1 (Some (max_range_size c)))) (\<lambda>limit.
       Inr \<lparr>rr_stream = strm, rr_start = start, rr_end = stop, rr_cursor = cursor, rr_limit = limit,
         rr_replay = False\<rparr>))))))"

definition compile_replay :: "core \<Rightarrow> settings \<Rightarrow> json \<Rightarrow> exc + read_range_command" where
  "compile_replay c s input =
     bindE (op_closed c input [''stream'', ''start'', ''end'', ''limit'', ''authorizationRef'', ''reason'',
       ''mutatesConsumerGroup''] []) (\<lambda>value.
     bindE (item_at value ''mutatesConsumerGroup'') (\<lambda>mutates.
     if mutates \<noteq> JBool False then Inl bad_definition
     else bindE (bindE (bindE (item_at value ''stream'') (op_ref c)) (stream s)) (\<lambda>strm.
     bindE (bindE (item_at value ''start'') optional_opaque) (\<lambda>start.
     bindE (optional_opaque (item_get value ''end'')) (\<lambda>stop.
     bindE (bindE (item_at value ''limit'') (\<lambda>v. op_integer v 1 (Some (max_range_size c)))) (\<lambda>limit.
       Inr \<lparr>rr_stream = strm, rr_start = start, rr_end = stop, rr_cursor = None, rr_limit = limit,
         rr_replay = True\<rparr>))))))"

definition compile_group_position :: "core \<Rightarrow> settings \<Rightarrow> json \<Rightarrow> exc + group_position_command" where
  "compile_group_position c s input =
     bindE (op_closed c input [''subscription'', ''consumerGroup'', ''position'',
       ''expectedPositionFingerprint'', ''authorizationRef'', ''reason''] []) (\<lambda>value.
     bindE (op_group_stream c s value) (\<lambda>(sub, grp, strm).
     bindE (bindE (item_at value ''position'') op_opaque) (\<lambda>pos.
     bindE (bindE (item_at value ''expectedPositionFingerprint'') op_fingerprint) (\<lambda>fp.
       Inr \<lparr>gp_subscription = sub, gp_consumer_group = grp, gp_stream = strm, gp_position = pos,
         gp_expected_fingerprint = fp\<rparr>))))"

definition compile_validate_schema :: "core \<Rightarrow> json \<Rightarrow> exc + validate_schema_command" where
  "compile_validate_schema c input =
     bindE (op_closed c input [''namespace'', ''name'', ''version'', ''definition'', ''allowBreaking'']
       [''expectedRegistryRevision'']) (\<lambda>value.
     bindE (bindE (item_at value ''definition'') as_object) (\<lambda>_.
     bindE (bindE (item_at value ''namespace'') (\<lambda>v. bounded_string v 256)) (\<lambda>ns.
     bindE (bindE (item_at value ''name'') (\<lambda>v. bounded_string v 256)) (\<lambda>nm.
     bindE (bindE (item_at value ''version'') (\<lambda>v. bounded_string v 256)) (\<lambda>ver.
     bindE (let expected = item_get value ''expectedRegistryRevision'' in
       if expected = JNull then Inr None else bindE (op_integer expected 0 None) (\<lambda>i. Inr (Some i))) (\<lambda>expected.
     bindE (bindE (item_at value ''allowBreaking'') op_boolean) (\<lambda>allow.
       Inr \<lparr>vs_namespace = ns, vs_name = nm, vs_version = ver,
         vs_expected_registry_revision = expected, vs_allow_breaking = allow\<rparr>)))))))"

fun resource_kind :: "physical_resource \<Rightarrow> string" where
  "resource_kind (PhysicalStream _) = ''stream''"
| "resource_kind (PhysicalSubscription _) = ''subscription''"
| "resource_kind (PhysicalConsumerGroup _) = ''consumer-group''"

definition compile_validate_resource :: "core \<Rightarrow> settings \<Rightarrow> json \<Rightarrow> exc + validate_resource_command" where
  "compile_validate_resource c s input =
     bindE (op_closed c input [''namespace'', ''name'', ''resourceType'', ''schema'', ''options''] []) (\<lambda>value.
     bindE (bindE (item_at value ''options'') as_object) (\<lambda>_.
     bindE (bindE (item_at value ''namespace'') (\<lambda>v. bounded_string v 256)) (\<lambda>ns.
     bindE (bindE (item_at value ''name'') (\<lambda>v. bounded_string v 256)) (\<lambda>nm.
     bindE (ref_make c ''streaming'' ns nm) (\<lambda>rf.
     bindE (resource s rf) (\<lambda>selected.
     bindE (bindE (item_at value ''resourceType'') (\<lambda>v. bounded_string v 64)) (\<lambda>resource_type.
     if resource_type \<noteq> resource_kind selected then Inl bad_definition
     else Inr \<lparr>vr_resource = selected, vr_resource_type = resource_type\<rparr>)))))))"

definition compile_transactional :: "core \<Rightarrow> settings \<Rightarrow> json \<Rightarrow> exc + transactional_command" where
  "compile_transactional c s input =
     bindE (guardE (transaction_enabled s) (raised_for StreamingCapabilityMismatch ''transaction.binding'')) (\<lambda>_.
     bindE (op_closed c input [''subscription'', ''consumerGroup'', ''limit'', ''waitTimeoutMs'',
       ''delivery'', ''outputs''] []) (\<lambda>value.
     bindE (item_at value ''subscription'') (\<lambda>a. bindE (item_at value ''consumerGroup'') (\<lambda>b.
     bindE (item_at value ''limit'') (\<lambda>l. bindE (item_at value ''waitTimeoutMs'') (\<lambda>wt.
     bindE (compile_poll c s (JObj [(''subscription'', a), (''consumerGroup'', b), (''limit'', l),
       (''waitTimeoutMs'', wt)])) (\<lambda>poll.
     bindE (bindE (item_at value ''delivery'') op_opaque) (\<lambda>delivery.
     bindE (bindE (item_at value ''outputs'') (op_array c)) (\<lambda>raws.
     bindE (mapE (\<lambda>item. bindE (as_object item) (\<lambda>kvs. compile_publish c s (JObj kvs) False)) raws) (\<lambda>outputs.
       Inr \<lparr>tx_poll = poll, tx_delivery = delivery, tx_outputs = outputs\<rparr>))))))))))"

definition compile :: "core \<Rightarrow> settings \<Rightarrow> operation \<Rightarrow> exc + compiled_command" where
  "compile c s oper =
     (let input = op_input oper; contract = op_contract oper in
      if op_catalog oper \<noteq> ''streaming''
      then Inl (raised_for StreamingCapabilityMismatch ''operation.catalog'')
      else if op_version oper \<noteq> ''1.0.0''
      then Inl (raised_for StreamingCapabilityMismatch ''operation.version'')
      else if contract = ''meridian.streaming.publish''
      then bindE (compile_publish c s input False) (\<lambda>x. Inr (PublishCommand x))
      else if contract = ''meridian.streaming.publish-batch''
      then bindE (compile_publish c s input True) (\<lambda>x. Inr (PublishCommand x))
      else if contract = ''meridian.streaming.subscribe''
      then bindE (compile_subscribe c s input) (\<lambda>x. Inr (SubscribeCommand x))
      else if contract = ''meridian.streaming.poll''
      then bindE (compile_poll c s input) (\<lambda>x. Inr (PollCommand x))
      else if contract = ''meridian.streaming.acknowledge''
      then bindE (compile_acknowledge c s input) (\<lambda>x. Inr (AcknowledgeCommand x))
      else if contract = ''meridian.streaming.negative-acknowledge''
      then bindE (compile_negative_acknowledge c s input) (\<lambda>x. Inr (NegativeAcknowledgeCommand x))
      else if contract = ''meridian.streaming.read-range''
      then bindE (compile_read_range c s input) (\<lambda>x. Inr (ReadRangeCommand x))
      else if contract = ''meridian.streaming.replay''
      then bindE (compile_replay c s input) (\<lambda>x. Inr (ReadRangeCommand x))
      else if contract = ''meridian.streaming.group-position''
      then bindE (compile_group_position c s input) (\<lambda>x. Inr (GroupPositionCommand x))
      else if contract = ''meridian.streaming.publish-schema''
      then bindE (compile_validate_schema c input) (\<lambda>x. Inr (ValidateSchemaCommand x))
      else if contract = ''meridian.streaming.create-resource''
      then bindE (compile_validate_resource c s input) (\<lambda>x. Inr (ValidateResourceCommand x))
      else if contract = TRANSACTION_OPERATION_CONTRACT
      then if op_version oper \<noteq> TRANSACTION_OPERATION_VERSION
           then Inl (raised StreamingCapabilityMismatch)
           else bindE (compile_transactional c s input) (\<lambda>x. Inr (TransactionalConsumePublishCommand x))
      else Inl (raised_for StreamingCapabilityMismatch ''operation.contract''))"

section \<open>Lemmas\<close>

lemma op_integer_Inr [simp]:
  "op_integer v lo hi = Inr i \<longleftrightarrow> v = JInt i \<and> lo \<le> i \<and> (case hi of None \<Rightarrow> True | Some h \<Rightarrow> i \<le> h)"
  by (auto simp: op_integer_def split: json.splits option.splits)

lemma op_array_Inr [simp]:
  "op_array c v = Inr raws \<longleftrightarrow> v = JList raws \<and> 1 \<le> length raws \<and> int (length raws) \<le> max_batch_size c"
  by (auto simp: op_array_def split: json.splits)

lemma op_event_Inr:
  "op_event c v strm = Inr ev \<Longrightarrow> ev_stream ev = ps_ref strm \<and> ev_schema ev = ps_schema_ref strm
     \<and> event_parse c v = Inr ev"
  by (auto simp: op_event_def split: json.splits if_splits)

text \<open>What a command promises to the engines that run it.\<close>

definition publish_ok :: "core \<Rightarrow> settings \<Rightarrow> publish_command \<Rightarrow> bool" where
  "publish_ok c s x \<longleftrightarrow>
     (\<exists>r. map_of (st_resources s) r = Some (PhysicalStream (pub_stream x)))
     \<and> 1 \<le> length (pub_events x)
     \<and> (if pub_batch x then int (length (pub_events x)) \<le> max_batch_size c else length (pub_events x) = 1)
     \<and> list_all (\<lambda>ev. ev_stream ev = ps_ref (pub_stream x) \<and> ev_schema ev = ps_schema_ref (pub_stream x))
         (pub_events x)
     \<and> (\<forall>k. pub_idempotency_key x = Some k \<longrightarrow> k \<noteq> [] \<and> int (length k) \<le> 512)"

definition mapped_group :: "settings \<Rightarrow> physical_subscription \<Rightarrow> physical_consumer_group \<Rightarrow> physical_stream \<Rightarrow> bool" where
  "mapped_group s sub grp strm \<longleftrightarrow>
     (\<exists>a b. map_of (st_resources s) a = Some (PhysicalSubscription sub)
        \<and> map_of (st_resources s) b = Some (PhysicalConsumerGroup grp))
     \<and> cg_subscription grp = sub_ref sub
     \<and> map_of (st_resources s) (sub_stream sub) = Some (PhysicalStream strm)"

definition poll_ok :: "core \<Rightarrow> settings \<Rightarrow> poll_command \<Rightarrow> bool" where
  "poll_ok c s x \<longleftrightarrow> mapped_group s (poll_subscription x) (poll_consumer_group x) (poll_stream x)
     \<and> 1 \<le> poll_limit x \<and> poll_limit x \<le> max_poll_size c
     \<and> 0 \<le> poll_wait_timeout_ms x \<and> poll_wait_timeout_ms x \<le> max_wait_timeout_ms c"

fun command_ok :: "core \<Rightarrow> settings \<Rightarrow> compiled_command \<Rightarrow> bool" where
  "command_ok c s (PublishCommand x) = publish_ok c s x"
| "command_ok c s (SubscribeCommand x) =
     (sub_stream (sc_subscription x) = ps_ref (sc_stream x))"
| "command_ok c s (PollCommand x) = poll_ok c s x"
| "command_ok c s (AcknowledgeCommand x) =
     mapped_group s (ack_subscription x) (ack_consumer_group x) (ack_stream x)"
| "command_ok c s (NegativeAcknowledgeCommand x) =
     (mapped_group s (ack_subscription x) (ack_consumer_group x) (ack_stream x)
      \<and> 0 \<le> nack_retry_after_ms x \<and> nack_retry_after_ms x \<le> MAX_RETRY_AFTER_MS)"
| "command_ok c s (ReadRangeCommand x) =
     (1 \<le> rr_limit x \<and> rr_limit x \<le> max_range_size c \<and> (rr_replay x \<longrightarrow> rr_cursor x = None)
      \<and> (\<exists>r. map_of (st_resources s) r = Some (PhysicalStream (rr_stream x))))"
| "command_ok c s (GroupPositionCommand x) =
     (mapped_group s (gp_subscription x) (gp_consumer_group x) (gp_stream x)
      \<and> is_fingerprint (gp_expected_fingerprint x))"
| "command_ok c s (ValidateSchemaCommand x) =
     (\<forall>i. vs_expected_registry_revision x = Some i \<longrightarrow> 0 \<le> i)"
| "command_ok c s (ValidateResourceCommand x) =
     (vr_resource_type x = resource_kind (vr_resource x)
      \<and> (\<exists>r. map_of (st_resources s) r = Some (vr_resource x)))"
| "command_ok c s (TransactionalConsumePublishCommand x) =
     (transaction_enabled s \<and> poll_ok c s (tx_poll x) \<and> 1 \<le> length (tx_outputs x)
      \<and> int (length (tx_outputs x)) \<le> max_batch_size c \<and> list_all (publish_ok c s) (tx_outputs x))"

lemma op_events_all:
  "mapE (\<lambda>r. op_event c r strm) raws = Inr evs \<Longrightarrow>
   list_all (\<lambda>ev. ev_stream ev = ps_ref strm \<and> ev_schema ev = ps_schema_ref strm) evs"
  by (induction raws arbitrary: evs) (auto dest: op_event_Inr)

lemma compile_publish_ok: "compile_publish c s v b = Inr x \<Longrightarrow> publish_ok c s x"
  by (cases b) (auto simp: compile_publish_def publish_ok_def Let_def mapE_length op_events_all
      split: if_split_asm dest: op_event_Inr)

lemma op_group_stream_Inr: "op_group_stream c s value = Inr (sub, grp, strm) \<Longrightarrow> mapped_group s sub grp strm"
  by (auto simp: op_group_stream_def mapped_group_def)

lemma compile_poll_ok: "compile_poll c s v = Inr x \<Longrightarrow> poll_ok c s x"
  by (auto simp: compile_poll_def poll_ok_def dest!: op_group_stream_Inr)

lemma compile_publish_all:
  "mapE (\<lambda>item. bindE (as_object item) (\<lambda>kvs. compile_publish c s (JObj kvs) False)) raws = Inr outs \<Longrightarrow>
   list_all (publish_ok c s) outs"
  by (induction raws arbitrary: outs) (auto dest: compile_publish_ok)

lemma compile_transactional_ok:
  "compile_transactional c s v = Inr x \<Longrightarrow> command_ok c s (TransactionalConsumePublishCommand x)"
  by (auto simp: compile_transactional_def mapE_length compile_publish_all
      dest: compile_poll_ok)

lemma compile_group_ok:
  "compile_acknowledge c s v = Inr a \<Longrightarrow> command_ok c s (AcknowledgeCommand a)"
  "compile_negative_acknowledge c s v = Inr n \<Longrightarrow> command_ok c s (NegativeAcknowledgeCommand n)"
  "compile_group_position c s v = Inr g \<Longrightarrow> command_ok c s (GroupPositionCommand g)"
  by (auto simp: compile_acknowledge_def compile_negative_acknowledge_def compile_group_position_def
      op_fingerprint_def split: if_split_asm dest!: op_group_stream_Inr)

lemma compile_other_ok:
  "compile_subscribe c s v = Inr b \<Longrightarrow> command_ok c s (SubscribeCommand b)"
  "compile_read_range c s v = Inr r \<Longrightarrow> command_ok c s (ReadRangeCommand r)"
  "compile_replay c s v = Inr r \<Longrightarrow> command_ok c s (ReadRangeCommand r)"
  "compile_validate_schema c v = Inr vs \<Longrightarrow> command_ok c s (ValidateSchemaCommand vs)"
  "compile_validate_resource c s v = Inr vr \<Longrightarrow> command_ok c s (ValidateResourceCommand vr)"
  by (auto simp: compile_subscribe_def compile_read_range_def compile_replay_def compile_validate_schema_def
      compile_validate_resource_def Let_def split: if_split_asm)

section \<open>Properties\<close>


definition sample_poll_operation :: operation where
  "sample_poll_operation = \<lparr>op_catalog = ''streaming'', op_version = ''1.0.0'',
     op_contract = ''meridian.streaming.poll'',
     op_input = JObj [(''subscription'', JStr ''sub''), (''consumerGroup'', JStr ''g''), (''limit'', JInt 2),
       (''waitTimeoutMs'', JInt 0)]\<rparr>"

definition sample_poll :: poll_command where
  "sample_poll = \<lparr>poll_subscription = sample_subscription, poll_consumer_group = sample_group,
     poll_stream = sample_stream ''a'' ''t'', poll_limit = 2, poll_wait_timeout_ms = 0\<rparr>"


text \<open>
  A publish that is accepted without an idempotency key is refused with a bare
  \<open>ValueError\<close>, not with a Streaming failure, when it carries one of more than 512 bytes: the
  bound of the key is the one check of the compiler that is not turned into
  \<open>InvalidStreamingDefinition\<close>.
\<close>

theorem oversize_key_escapes:
  assumes "compile_publish c s (JObj [(''resource'', r), (''data'', d)]) b = Inr x" and "512 < int (length k)"
  shows "compile_publish c s (JObj [(''resource'', r), (''data'', d), (''idempotencyKey'', JStr k)]) b
    = Inl (PyExc ValueError)"
proof -
  have "bounded_string (JStr k) 512 = Inl (PyExc ValueError)"
    using assms(2) by (simp add: bounded_string_def)
  moreover have "op_closed c (JObj [(''resource'', r), (''data'', d), (''idempotencyKey'', JStr k)])
      [''resource'', ''data''] [''idempotencyKey'']
      = Inr [(''resource'', r), (''data'', d), (''idempotencyKey'', JStr k)]"
    by (simp add: op_closed_def closed_object_Inr)
  moreover obtain rf strm evs where "op_ref c r = Inr rf" "stream s rf = Inr strm"
    "(if b then bindE (op_array c d) (mapE (\<lambda>r. op_event c r strm))
      else bindE (op_event c d strm) (\<lambda>ev. Inr [ev])) = Inr evs"
    using assms(1) by (auto simp: compile_publish_def op_closed_def closed_object_Inr simp del: lookup_Inr)
  ultimately show ?thesis
    by (simp add: compile_publish_def item_at_def item_get_def Let_def del: lookup_Inr)
qed

definition sample_event_doc :: json where
  "sample_event_doc = JObj [(''eventId'', JStr ''1'')]"

theorem oversize_key_escapes_witness:
  "compile_publish sample_core sample_settings (JObj [(''resource'', JStr ''a''), (''data'', sample_event_doc),
     (''idempotencyKey'', JStr (replicate 513 CHR ''k''))]) False = Inl (PyExc ValueError)"
proof -
  have "\<not> isl (compile_publish sample_core sample_settings
      (JObj [(''resource'', JStr ''a''), (''data'', sample_event_doc)]) False)"
    by code_simp
  then obtain x where "compile_publish sample_core sample_settings
      (JObj [(''resource'', JStr ''a''), (''data'', sample_event_doc)]) False = Inr x"
    by (metis isl_def sum.exhaust_sel)
  then show ?thesis by (rule oversize_key_escapes) simp
qed

end
