(* ===== verification/Producer.thy ===== *)
theory Producer
  imports Telemetry Compiler
begin

text \<open>
  \<^verbatim>\<open>producer/__init__.py\<close>: idempotent publication. The engine's own state is its bounded,
  least-recently-used map from idempotency keys to the fingerprint of the published data and the
  receipts. Delivery callbacks run inside the producer's \<open>poll\<close> and \<open>flush\<close>: the environment
  reports which message each is about, and the report reaches the delivery object the message
  was produced with.
\<close>

section \<open>State\<close>

text \<open>What an engine is built with: the parameters, the codec, the Binding and its clients.\<close>

record ctx =
  g_core :: core
  g_digests :: digests
  g_attrs :: attrs
  g_env :: env
  g_codec :: codec
  g_settings :: settings
  g_producer :: client
  g_timeout_ms :: int
  g_fuel :: nat

record receipt =
  rc_event_id :: string
  rc_position :: position
  rc_published_at :: string

record producer_world = world +
  idempotency :: "(string, string \<times> receipt list) dict"

definition MAX_IDEMPOTENCY_ENTRIES :: nat where
  "MAX_IDEMPOTENCY_ENTRIES = 10000"

definition RESERVED_HEADER_PREFIX :: string where
  "RESERVED_HEADER_PREFIX = ''meridian.''"

text \<open>One \<open>_Delivery\<close> per event, and which message reports to which of them.\<close>

record delivery =
  dl_error :: "kerr option"
  dl_message :: "(int \<times> int) option"

record batch =
  ba_routes :: "(nat, nat) dict"
  ba_deliveries :: "delivery list"

definition delivered :: "report \<Rightarrow> batch \<Rightarrow> batch" where
  "delivered r b = (case map_of (ba_routes b) (rp_handle r) of
     None \<Rightarrow> b
   | Some i \<Rightarrow> b\<lparr>ba_deliveries := (ba_deliveries b)
       [i := \<lparr>dl_error = rp_error r, dl_message = Some (rp_partition r, rp_offset r)\<rparr>]\<rparr>)"

definition deliver_all :: "report list \<Rightarrow> batch \<Rightarrow> batch" where
  "deliver_all rs b = fold delivered rs b"

section \<open>Production of one event\<close>

definition reserved_header :: "string \<Rightarrow> bool" where
  "reserved_header key \<longleftrightarrow>
     take (length RESERVED_HEADER_PREFIX) (map lower_char key) = RESERVED_HEADER_PREFIX"

definition event_headers :: "publish_command \<Rightarrow> event \<Rightarrow> (string \<times> string option) list" where
  "event_headers cmd ev =
     [(''meridian.format'', Some (ev_format_version ev)), (''meridian.event-id'', Some (ev_event_id ev)),
      (''meridian.schema-fingerprint'', Some (ps_schema_fingerprint (pub_stream cmd)))]
     @ (case map_of (ev_trace_context ev) ''traceparent'' of
          Some tp \<Rightarrow> if tp = [] then [] else [(''traceparent'', Some tp)]
        | None \<Rightarrow> [])"

definition event_key :: "event \<Rightarrow> string" where
  "event_key ev = (case ev_logical_partition_key ev of
     Some k \<Rightarrow> if k = [] then ev_event_id ev else k | None \<Rightarrow> ev_event_id ev)"

definition produced_record :: "publish_command \<Rightarrow> event \<Rightarrow> string \<Rightarrow> produced" where
  "produced_record cmd ev value = \<lparr>pr_topic = ps_topic (pub_stream cmd), pr_value = value,
     pr_key = event_key ev, pr_headers = event_headers cmd ev\<rparr>"

text \<open>The guarded part of the loop body: produce, then serve callbacks once.\<close>

definition produce_attempt :: "ctx \<Rightarrow> client \<Rightarrow> publish_command \<Rightarrow> event \<Rightarrow> nat \<Rightarrow> batch \<Rightarrow>
    (exc, 'w producer_world_scheme, batch) op" where
  "produce_attempt g selected cmd ev index b =
     bindM (liftE (canonical_json_bytes (event_dict (g_core g) ev))) (\<lambda>value.
     bindM (request (g_env g) (Produce selected (produced_record cmd ev value)) (\<lambda>h. length h - 1)) (\<lambda>handle.
     let b' = b\<lparr>ba_routes := dset handle index (ba_routes b)\<rparr>
     in bindM (request (g_env g) (ProducerPoll selected 0) (e_reports (g_env g))) (\<lambda>reports.
       retM (deliver_all reports b'))))"

text \<open>
  The outcome of an attempt that raised: a full queue is retried until the deadline, anything
  else is normalized.
\<close>

fun produce_loop :: "nat \<Rightarrow> ctx \<Rightarrow> client \<Rightarrow> publish_command \<Rightarrow> event \<Rightarrow> nat \<Rightarrow> rat \<Rightarrow> batch \<Rightarrow>
    (exc, 'w producer_world_scheme, batch) op" where
  "produce_loop 0 g selected cmd ev index deadline b = throwM Diverged"
| "produce_loop (Suc fuel) g selected cmd ev index deadline b =
     exceptM (produce_attempt g selected cmd ev index b) (\<lambda>x.
       if x = PyExc BufferError
       then bindM (monotonic (g_env g)) (\<lambda>now.
         let remaining = deadline - now
         in if remaining \<le> 0 then throwM (raised_retryable KafkaOperationFailed True)
            else bindM (request (g_env g) (ProducerPoll selected (min (5 / 100) remaining))
                (e_reports (g_env g))) (\<lambda>reports.
              produce_loop fuel g selected cmd ev index deadline (deliver_all reports b)))
       else throwM (normalize_kafka_error (g_attrs g) (Failed x) (Some ''meridian.streaming.publish'')))"

definition produce_one :: "ctx \<Rightarrow> client \<Rightarrow> publish_command \<Rightarrow> rat \<Rightarrow> event \<times> nat \<Rightarrow> batch \<Rightarrow>
    (exc, 'w producer_world_scheme, batch) op" where
  "produce_one g selected cmd deadline = (\<lambda>(ev, index) b.
     if list_ex reserved_header (dkeys (ev_headers ev))
     then throwM (raised_for InvalidEvent ''event.headers'')
     else produce_loop (g_fuel g) g selected cmd ev index deadline b)"

fun produce_all :: "ctx \<Rightarrow> client \<Rightarrow> publish_command \<Rightarrow> rat \<Rightarrow> (event \<times> nat) list \<Rightarrow> batch \<Rightarrow>
    (exc, 'w producer_world_scheme, batch) op" where
  "produce_all g selected cmd deadline [] b = retM b"
| "produce_all g selected cmd deadline (x # xs) b =
     bindM (produce_one g selected cmd deadline x b) (produce_all g selected cmd deadline xs)"

section \<open>Publication\<close>

definition make_receipt :: "ctx \<Rightarrow> publish_command \<Rightarrow> delivery \<times> event \<Rightarrow>
    (exc, 'w producer_world_scheme, receipt) op" where
  "make_receipt g cmd = (\<lambda>(dl, ev). case dl_error dl of
     Some error \<Rightarrow> throwM (normalize_kafka_error (g_attrs g) (KafkaErrorValue error)
       (Some ''meridian.streaming.publish''))
   | None \<Rightarrow> (case dl_message dl of
       None \<Rightarrow> throwM (raised KafkaOperationFailed)
     | Some (part, off) \<Rightarrow>
         bindM (now_ms (g_env g)) (\<lambda>now.
         bindM (liftE (encode_position (g_core g) (g_digests g) (g_codec g) (ps_ref (pub_stream cmd))
           (ps_topic (pub_stream cmd)) part off (ev_logical_partition_key ev) now)) (\<lambda>pos.
         bindM (ask UtcNow (e_text (g_env g))) (\<lambda>stamp.
           retM \<lparr>rc_event_id = ev_event_id ev, rc_position = pos, rc_published_at = stamp\<rparr>)))))"

function evict :: "(string, string \<times> receipt list) dict \<Rightarrow> (string, string \<times> receipt list) dict" where
  "evict d = (if length d > MAX_IDEMPOTENCY_ENTRIES then evict (tl d) else d)"
  by auto
termination by (relation "measure length") (auto simp: MAX_IDEMPOTENCY_ENTRIES_def)

declare evict.simps [simp del]

definition remembered :: "string \<Rightarrow> string \<Rightarrow> receipt list \<Rightarrow> (string, string \<times> receipt list) dict \<Rightarrow>
    (string, string \<times> receipt list) dict" where
  "remembered key fp receipts d = evict (dmove_to_end key (dset key (fp, receipts) d))"

definition remember :: "string \<Rightarrow> string \<Rightarrow> receipt list \<Rightarrow> 'w producer_world_scheme \<Rightarrow>
    'w producer_world_scheme" where
  "remember key fp receipts w =
     w\<lparr>idempotency := remembered key fp receipts (idempotency w)\<rparr>"

definition operation_fingerprint :: "ctx \<Rightarrow> publish_command \<Rightarrow> exc + string" where
  "operation_fingerprint g cmd = sha256_fingerprint (g_digests g)
     (JObj [(''stream'', JStr (ref_str (g_core g) (ps_ref (pub_stream cmd)))),
            (''events'', JList (map (event_dict (g_core g)) (pub_events cmd)))])"

definition publish_new :: "ctx \<Rightarrow> client \<Rightarrow> publish_command \<Rightarrow> (exc, 'w producer_world_scheme, receipt list) op" where
  "publish_new g selected cmd =
     bindM (monotonic (g_env g)) (\<lambda>start.
     let deadline = start + of_int (g_timeout_ms g) / 1000;
         b = \<lparr>ba_routes = [], ba_deliveries = map (\<lambda>_. \<lparr>dl_error = None, dl_message = None\<rparr>) (pub_events cmd)\<rparr>
     in bindM (produce_all g selected cmd deadline (zip (pub_events cmd) [0..<length (pub_events cmd)]) b) (\<lambda>b'.
     bindM (monotonic (g_env g)) (\<lambda>now.
     bindM (request (g_env g) (Flush selected (max 0 (deadline - now)))
       (\<lambda>h. (e_queued (g_env g) h, e_reports (g_env g) h))) (\<lambda>(queued, reports).
     if queued \<noteq> 0 then throwM (raised_retryable KafkaOperationFailed True)
     else mapM (make_receipt g cmd)
       (zip (ba_deliveries (deliver_all reports b')) (pub_events cmd))))))"

definition publish :: "ctx \<Rightarrow> publish_command \<Rightarrow> client option \<Rightarrow> (exc, 'w producer_world_scheme, receipt list) op" where
  "publish g cmd override =
     (let selected = (case override of Some p \<Rightarrow> p | None \<Rightarrow> g_producer g);
          cache_application_key = (override = None)
      in bindM (liftE (operation_fingerprint g cmd)) (\<lambda>fp.
         bindM (getM idempotency) (\<lambda>cache.
         case (if cache_application_key then pub_idempotency_key cmd else None) of
           None \<Rightarrow>
             bindM (publish_new g selected cmd) (\<lambda>result.
             bindM (emit (g_env g) ''meridian.kafka.publish.completed''
               [(''eventCount'', TInt (int (length result))),
                (''idempotent'', TBool (pub_idempotency_key cmd \<noteq> None))]) (\<lambda>_. retM result))
         | Some key \<Rightarrow>
             (case map_of cache key of
                Some replay \<Rightarrow>
                  if fst replay \<noteq> fp then throwM (raised_for InvalidEvent ''publish.idempotency-key'')
                  else bindM (modM (\<lambda>w. w\<lparr>idempotency := dmove_to_end key (idempotency w)\<rparr>)) (\<lambda>_.
                    bindM (emit (g_env g) ''meridian.kafka.publish.idempotency-replay''
                      [(''eventCount'', TInt (int (length (snd replay))))]) (\<lambda>_. retM (snd replay)))
              | None \<Rightarrow>
                  bindM (publish_new g selected cmd) (\<lambda>result.
                  bindM (modM (remember key fp result)) (\<lambda>_.
                  bindM (emit (g_env g) ''meridian.kafka.publish.completed''
                    [(''eventCount'', TInt (int (length result))), (''idempotent'', TBool True)]) (\<lambda>_.
                    retM result)))))))"

definition producer_close :: "ctx \<Rightarrow> (exc, 'w producer_world_scheme, unit) op" where
  "producer_close g =
     bindM (request (g_env g) (Flush (g_producer g) (of_int (g_timeout_ms g) / 1000)) (e_queued (g_env g))) (\<lambda>queued.
     if queued \<noteq> 0
     then emit (g_env g) ''meridian.kafka.publish.close-timeout'' [(''queuedCount'', TInt queued)]
     else retM ())"

section \<open>Lemmas\<close>

lemma ignores_idempotency [simp, intro]: "ignores_calls idempotency"
  unfolding ignores_calls_def by (intro allI conjI) simp_all

text \<open>The calls of a publication.\<close>

fun publish_call :: "call \<Rightarrow> bool" where
  "publish_call (Produce _ _) = True"
| "publish_call (ProducerPoll _ _) = True"
| "publish_call (Flush _ _) = True"
| "publish_call c = (c \<in> {Monotonic, TimeNs, UtcNow} \<or> telemetry_call c)"

lemma telemetry_publish_call: "publish_call (SinkEmit ev)" "publish_call UtcNow"
  by (simp_all add: telemetry_call_def)

lemma produce_loop_keeps [keeps_intros]:
  "keeps (calls_only publish_call) (produce_loop n g sel cmd ev i dl b)"
  "ignores_calls f \<Longrightarrow> keeps (unchanged f) (produce_loop n g sel cmd ev i dl b)"
proof -
  show "keeps (calls_only publish_call) (produce_loop n g sel cmd ev i dl b)"
  proof (induction n arbitrary: b)
    case (Suc n)
    then show ?case
      by (simp only: produce_loop.simps produce_attempt_def Let_def) (intro keeps_intros; simp)
  qed (simp add: keeps_intros)
  show "keeps (unchanged f) (produce_loop n g sel cmd ev i dl b)" if "ignores_calls f"
  proof (induction n arbitrary: b)
    case (Suc n)
    then show ?case
      by (simp only: produce_loop.simps produce_attempt_def Let_def) (intro keeps_intros that)
  qed (simp add: keeps_intros)
qed

lemma produce_all_keeps [keeps_intros]:
  "keeps (calls_only publish_call) (produce_all g sel cmd dl xs b)"
  "ignores_calls f \<Longrightarrow> keeps (unchanged f) (produce_all g sel cmd dl xs b)"
  by (induction xs arbitrary: b)
    (auto simp: produce_one_def split_def intro!: keeps_intros)

lemma make_receipt_keeps [keeps_intros]:
  "keeps (calls_only publish_call) (make_receipt g cmd x)"
  "ignores_calls f \<Longrightarrow> keeps (unchanged f) (make_receipt g cmd x)"
  unfolding make_receipt_def by (auto simp: split_def intro!: keeps_intros)

lemma publish_new_keeps [keeps_intros]:
  "keeps (calls_only publish_call) (publish_new g sel cmd)"
  "ignores_calls f \<Longrightarrow> keeps (unchanged f) (publish_new g sel cmd)"
  unfolding publish_new_def Let_def by (auto simp: split_def intro!: keeps_intros)

lemma publish_calls: "keeps (calls_only publish_call) (publish g cmd override)"
  unfolding publish_def Let_def
  by (intro keeps_intros telemetry_publish_call) (simp_all add: remember_def)

lemma publish_unchanged: "ignores_calls f \<Longrightarrow> (\<And>w c. f (w\<lparr>idempotency := c\<rparr>) = f w) \<Longrightarrow>
    keeps (unchanged f) (publish g cmd override)"
  unfolding publish_def Let_def remember_def by (intro keeps_intros) simp_all

subsection \<open>The receipts\<close>

lemma mapM_length: "mapM f xs s = (Inr ys, t) \<Longrightarrow> length ys = length xs"
  by (induction xs arbitrary: ys s t) (auto simp: retM_def bindM_def split: prod.splits sum.splits)

lemma deliver_all_length [simp]: "length (ba_deliveries (deliver_all rs b)) = length (ba_deliveries b)"
  unfolding deliver_all_def
  by (induction rs arbitrary: b) (auto simp: delivered_def split: option.splits)

lemma produce_loop_length:
  "length (ba_deliveries b) = n \<Longrightarrow>
   wp (produce_loop fuel g sel cmd ev i dl b) (\<lambda>b' _. length (ba_deliveries b') = n) (\<lambda>_ _. True) w"
proof (induction fuel arbitrary: b w)
  case (Suc fuel)
  then show ?case
    by (simp add: wp_simps produce_attempt_def Let_def split: sum.split option.split)
qed (simp add: wp_simps)

lemma produce_all_length:
  "length (ba_deliveries b) = n \<Longrightarrow>
   wp (produce_all g sel cmd dl xs b) (\<lambda>b' _. length (ba_deliveries b') = n) (\<lambda>_ _. True) w"
proof (induction xs arbitrary: b w)
  case (Cons x xs)
  show ?case
    unfolding produce_all.simps wp_bind
    by (rule wp_mono [where Q = "\<lambda>b' _. length (ba_deliveries b') = n" and E = "\<lambda>_ _. True"])
      (use Cons in \<open>auto simp: produce_one_def split_def wp_simps produce_loop_length\<close>)
qed (simp add: wp_simps)

subsection \<open>The idempotency map\<close>

definition cache_ok :: "'w producer_world_scheme \<Rightarrow> bool" where
  "cache_ok w \<longleftrightarrow> distinct (dkeys (idempotency w)) \<and> length (idempotency w) \<le> MAX_IDEMPOTENCY_ENTRIES"

lemma evict_drop: "evict d = drop (length d - MAX_IDEMPOTENCY_ENTRIES) d"
proof (induction d rule: evict.induct)
  case (1 d)
  show ?case
  proof (cases "length d > MAX_IDEMPOTENCY_ENTRIES")
    case True
    then have "Suc (length d - Suc MAX_IDEMPOTENCY_ENTRIES) = length d - MAX_IDEMPOTENCY_ENTRIES" by simp
    then have "drop (length (tl d) - MAX_IDEMPOTENCY_ENTRIES) (tl d) = drop (length d - MAX_IDEMPOTENCY_ENTRIES) d"
      by (simp add: drop_Suc [symmetric])
    then show ?thesis using 1 True by (subst evict.simps) simp
  next
    case False
    then show ?thesis by (subst evict.simps) simp
  qed
qed

lemma remember_ok:
  assumes "cache_ok w"
  shows "cache_ok (remember k fp rs w)" and "map_of (idempotency (remember k fp rs w)) k = Some (fp, rs)"
proof -
  let ?d = "dset k (fp, rs) (idempotency w)" and ?m = "dmove_to_end k (dset k (fp, rs) (idempotency w))"
  have d: "distinct (dkeys ?m)" using assms by (simp add: cache_ok_def)
  have k: "map_of ?d k = Some (fp, rs)" by simp
  then have m: "?m = dpop k ?d @ [(k, (fp, rs))]" by (simp add: dmove_to_end_def)
  have kk: "k \<in> fst ` set ?d" using map_of_SomeD [OF k] by force
  have len: "length (dpop k ?d) \<le> MAX_IDEMPOTENCY_ENTRIES" "length ?m \<le> Suc MAX_IDEMPOTENCY_ENTRIES"
    using assms d kk
    by (auto simp: m cache_ok_def length_dpop length_dset split: if_splits)
  have e: "evict ?m = drop (length ?m - MAX_IDEMPOTENCY_ENTRIES) (dpop k ?d) @ [(k, (fp, rs))]"
    using len by (simp add: evict_drop m MAX_IDEMPOTENCY_ENTRIES_def)
  have dd: "distinct (dkeys (evict ?m))" unfolding evict_drop using d by (simp add: drop_map [symmetric])
  then show "cache_ok (remember k fp rs w)" by (simp add: cache_ok_def remember_def remembered_def evict_drop)
  have "(k, (fp, rs)) \<in> set (evict ?m)" unfolding e by simp
  with dd show "map_of (idempotency (remember k fp rs w)) k = Some (fp, rs)"
    by (simp add: remember_def remembered_def)
qed

lemma cache_ok_cong: "idempotency w' = idempotency w \<Longrightarrow> cache_ok w' = cache_ok w"
  by (simp add: cache_ok_def)

lemma publish_new_cache: "publish_new g sel cmd w = (r, w') \<Longrightarrow> idempotency w' = idempotency w"
  by (rule unchangedD [OF publish_new_keeps(2) [OF ignores_idempotency]])

lemma emit_cache: "emit e name as w = (r, w') \<Longrightarrow> idempotency w' = idempotency w"
  by (rule unchangedD [OF unchanged_emit [OF ignores_idempotency]])

text \<open>How the map looks after a publication, whatever its outcome.\<close>

lemma publish_cache_cases:
  assumes "publish g cmd override w = (r, w')"
  shows "idempotency w' = idempotency w
    \<or> (\<exists>k. override = None \<and> pub_idempotency_key cmd = Some k \<and> idempotency w' = dmove_to_end k (idempotency w))
    \<or> (\<exists>k fp rs. override = None \<and> pub_idempotency_key cmd = Some k
         \<and> idempotency w' = idempotency (remember k fp rs w))"
proof -
  let ?C = "\<lambda>w'. idempotency w' = idempotency w
    \<or> (\<exists>k. override = None \<and> pub_idempotency_key cmd = Some k \<and> idempotency w' = dmove_to_end k (idempotency w))
    \<or> (\<exists>k fp rs. override = None \<and> pub_idempotency_key cmd = Some k
         \<and> idempotency w' = idempotency (remember k fp rs w))"
  have "?C w'"
    using assms unfolding publish_def Let_def
    by (auto simp: op_defs remember_def split: option.splits sum.splits prod.splits if_splits
        dest!: publish_new_cache emit_cache) blast+
  then show ?thesis .
qed

section \<open>Properties\<close>

text \<open>
  The idempotency map stays a map with at most 10,000 keys, whatever a publication returns
  or raises; a publication through a transaction's producer never touches it.
\<close>

theorem publish_cache_bounded:
  assumes "cache_ok w" and "publish g cmd override w = (r, w')"
  shows "cache_ok w' \<and> (override \<noteq> None \<longrightarrow> idempotency w' = idempotency w)"
proof -
  have "cache_ok w'"
    using publish_cache_cases [OF assms(2)] assms(1) remember_ok(1) [OF assms(1)]
    by (auto simp: cache_ok_def length_dmove_to_end)
  then show ?thesis using publish_cache_cases [OF assms(2)] by auto
qed

lemma publish_success_cached:
  assumes "cache_ok w" and "publish g cmd None w = (Inr rs, w')" and "pub_idempotency_key cmd = Some k"
  shows "\<exists>fp. operation_fingerprint g cmd = Inr fp \<and> map_of (idempotency w') k = Some (fp, rs)"
proof -
  obtain fp where fp: "operation_fingerprint g cmd = Inr fp"
    using assms(2) by (cases "operation_fingerprint g cmd") (auto simp: publish_def op_defs)
  show ?thesis
  proof (cases "map_of (idempotency w) k")
    case None
    then obtain v u where "publish_new g (g_producer g) cmd w = (Inr rs, v)"
        "emit (g_env g) ''meridian.kafka.publish.completed''
          [(''eventCount'', TInt (int (length rs))), (''idempotent'', TBool True)] (remember k fp rs v) = (Inr u, w')"
      using assms(2,3) fp by (auto simp: publish_def op_defs split: sum.splits prod.splits)
    then have "idempotency w' = idempotency (remember k fp rs v)" "idempotency v = idempotency w"
      by (auto dest: publish_new_cache emit_cache)
    then show ?thesis using remember_ok(2) [of v k fp rs] assms(1) fp cache_ok_cong by metis
  next
    case (Some replay)
    then obtain u where "replay = (fp, rs)"
        "emit (g_env g) ''meridian.kafka.publish.idempotency-replay'' [(''eventCount'', TInt (int (length rs)))]
          (w\<lparr>idempotency := dmove_to_end k (idempotency w)\<rparr>) = (Inr u, w')"
      using assms(2,3) fp by (cases replay) (auto simp: publish_def op_defs split: sum.splits prod.splits if_splits)
    then show ?thesis using Some fp by (auto dest!: emit_cache)
  qed
qed

lemma replay_attribute: "small (int n) \<Longrightarrow> list_all valid_attribute [(''eventCount'', TInt (int n))]"
proof -
  have "valid_key ''eventCount''" by code_simp
  then show "small (int n) \<Longrightarrow> ?thesis" by (simp add: valid_attribute_TInt)
qed


text \<open>
  A key reused for other data is refused with \<open>InvalidEvent\<close>, before any call and with no
  change of state.
\<close>

theorem publish_key_conflict:
  assumes "pub_idempotency_key cmd = Some k" and "map_of (idempotency w) k = Some (fp, rs)"
    and "operation_fingerprint g cmd = Inr fp'" and "fp' \<noteq> fp"
  shows "publish g cmd None w = (Inl (raised_for InvalidEvent ''publish.idempotency-key''), w)"
  using assms by (simp add: publish_def op_defs)

subsection \<open>Completeness of a publication\<close>

text \<open>The event was handed to the producer since the history was \<open>h\<close>.\<close>

definition handed :: "ctx \<Rightarrow> client \<Rightarrow> publish_command \<Rightarrow> history \<Rightarrow> event \<Rightarrow> 'w world_scheme \<Rightarrow> bool" where
  "handed g sel cmd h ev w \<longleftrightarrow> (\<exists>cs v. hist w = cs @ h \<and> canonical_json_bytes (event_dict (g_core g) ev) = Inr v
     \<and> Produce sel (produced_record cmd ev v) \<in> set cs)"

definition since :: "history \<Rightarrow> 'w world_scheme \<Rightarrow> bool" where
  "since h w \<longleftrightarrow> (\<exists>cs. hist w = cs @ h)"

lemma since_push [simp]: "since h w \<Longrightarrow> since h (push c w)"
  by (auto simp: since_def)

lemma handed_push [simp]: "handed g sel cmd h ev w \<Longrightarrow> handed g sel cmd h ev (push c w)"
  unfolding handed_def by (metis append_Cons list.set_intros(2) push_simps(1))

lemma handed_produce:
  "since h w \<Longrightarrow> canonical_json_bytes (event_dict (g_core g) ev) = Inr v \<Longrightarrow>
   handed g sel cmd h ev (push (Produce sel (produced_record cmd ev v)) w)"
  unfolding handed_def since_def by (metis append_Cons list.set_intros(1) push_simps(1))

lemma handed_calls: "calls_only P w w' \<Longrightarrow> handed g sel cmd h ev w \<Longrightarrow> handed g sel cmd h ev w'"
  unfolding handed_def calls_only_def by (metis UnCI append.assoc set_append)

lemma since_calls: "calls_only P w w' \<Longrightarrow> since h w \<Longrightarrow> since h w'"
  unfolding since_def calls_only_def by (metis append.assoc)

lemma produce_loop_hands:
  "since h w \<Longrightarrow>
   wp (produce_loop fuel g sel cmd ev i dl b) (\<lambda>_ w'. handed g sel cmd h ev w') (\<lambda>_ _. True) w"
proof (induction fuel arbitrary: b w)
  case (Suc fuel)
  then show ?case
    by (simp add: wp_simps produce_attempt_def Let_def handed_produce split: sum.split option.split)
qed (simp add: wp_simps)

lemma produce_all_hands:
  assumes "produce_all g sel cmd dl xs b w = (Inr b', w')" and "since h w"
  shows "\<forall>(ev, i) \<in> set xs. handed g sel cmd h ev w'"
  using assms
proof (induction xs arbitrary: b w)
  case (Cons x xs)
  obtain ev i where x: "x = (ev, i)" by force
  from Cons.prems(1) obtain b1 w1 where one: "produce_one g sel cmd dl x b w = (Inr b1, w1)"
    and rest: "produce_all g sel cmd dl xs b1 w1 = (Inr b', w')"
    by (auto simp: bindM_def split: prod.splits sum.splits)
  have loop: "produce_loop (g_fuel g) g sel cmd ev i dl b w = (Inr b1, w1)"
    using one by (simp add: x produce_one_def throwM_def split: if_splits)
  have "handed g sel cmd h ev w1" by (rule wp_Inr [OF produce_loop_hands [OF Cons.prems(2)] loop])
  then have "handed g sel cmd h ev w'" by (rule handed_calls [OF keepsD [OF produce_all_keeps(1) rest]])
  moreover have "since h w1" by (rule since_calls [OF keepsD [OF produce_loop_keeps(1) loop] Cons.prems(2)])
  ultimately show ?case using Cons.IH [OF rest] by (simp add: x)
qed simp

lemma make_receipt_id: "make_receipt g cmd (dl, ev) w = (Inr rc, w') \<Longrightarrow> rc_event_id rc = ev_event_id ev
    \<and> (\<exists>p off. dl_error dl = None \<and> dl_message dl = Some (p, off))"
  by (auto simp: make_receipt_def op_defs split: option.splits prod.splits sum.splits)

lemma mapM_receipts:
  "mapM (make_receipt g cmd) (zip dls evs) w = (Inr rs, w') \<Longrightarrow> length dls = length evs \<Longrightarrow>
   map rc_event_id rs = map ev_event_id evs"
proof (induction dls evs arbitrary: rs w rule: list_induct2')
  case (4 dl dls ev evs)
  then obtain rc w1 rs' where "make_receipt g cmd (dl, ev) w = (Inr rc, w1)"
      "mapM (make_receipt g cmd) (zip dls evs) w1 = (Inr rs', w')" "rs = rc # rs'"
    by (auto simp: bindM_def retM_def split: prod.splits sum.splits)
  then show ?case using 4 make_receipt_id by fastforce
qed (auto simp: retM_def)

text \<open>
  C27. A publication that returns has handed every event of the command to the selected producer
  since it started, with the event's canonical bytes, and returns exactly one receipt per
  event, in the order of the events.
\<close>

theorem publish_complete:
  assumes "publish_new g sel cmd w = (Inr rs, w')"
  shows "map rc_event_id rs = map ev_event_id (pub_events cmd)
    \<and> (\<forall>ev \<in> set (pub_events cmd). handed g sel cmd (hist w) ev w')"
proof -
  let ?n = "length (pub_events cmd)" and ?xs = "zip (pub_events cmd) [0..<length (pub_events cmd)]"
  let ?b = "\<lparr>ba_routes = [], ba_deliveries = map (\<lambda>_. \<lparr>dl_error = None, dl_message = None\<rparr>) (pub_events cmd)\<rparr>"
  let ?w = "push Monotonic w"
  let ?dl = "e_monotonic (g_env g) (Monotonic # hist w) + of_int (g_timeout_ms g) / 1000"
  obtain b' w1 x reports where all: "produce_all g sel cmd ?dl ?xs ?b ?w = (Inr b', w1)"
    and rec: "mapM (make_receipt g cmd) (zip (ba_deliveries (deliver_all reports b')) (pub_events cmd))
      (push (Flush sel x) (push Monotonic w1)) = (Inr rs, w')"
    using assms
    by (auto simp: publish_new_def Let_def bindM_def monotonic_def ask_def request_def throwM_def
        split: prod.splits sum.splits option.splits if_splits)
  have "length (ba_deliveries b') = ?n" by (rule wp_Inr [OF produce_all_length all]) simp
  then have ids: "map rc_event_id rs = map ev_event_id (pub_events cmd)" by (intro mapM_receipts [OF rec]) simp
  have "since (hist w) ?w" by (intro since_push) (simp add: since_def)
  from produce_all_hands [OF all this]
  have "\<forall>(ev, i) \<in> set ?xs. handed g sel cmd (hist w) ev w1" .
  then have one: "handed g sel cmd (hist w) ev w1" if "ev \<in> set (pub_events cmd)" for ev
    using that by (auto simp: set_zip in_set_conv_nth)
  have k: "keeps (calls_only publish_call)
      (mapM (make_receipt g cmd) (zip (ba_deliveries (deliver_all reports b')) (pub_events cmd)))"
    by (intro keeps_intros)
  have "handed g sel cmd (hist w) ev w'" if "ev \<in> set (pub_events cmd)" for ev
    by (rule handed_calls [OF keepsD [OF k rec]]) (simp add: one [OF that])
  then show ?thesis using ids by blast
qed

subsection \<open>Reserved headers\<close>

lemma produce_all_reserved:
  assumes bad: "list_ex reserved_header (dkeys (ev_headers ev))"
  shows "(ev, i) \<in> set xs \<Longrightarrow> wp (produce_all g sel cmd dl xs b) (\<lambda>_ _. False) (\<lambda>_ _. True) w"
proof (induction xs arbitrary: b w)
  case (Cons y ys)
  show ?case
  proof (cases "y = (ev, i)")
    case True
    then show ?thesis using bad by (simp add: wp_simps produce_one_def)
  next
    case False
    then have "(ev, i) \<in> set ys" using Cons.prems by auto
    from Cons.IH [OF this] show ?thesis
      unfolding produce_all.simps wp_bind by (simp add: wp_def split: prod.split sum.split)
  qed
qed simp

text \<open>
  No application header may enter the adapter's own namespace: a publication with an event
  that carries a header \<open>meridian.*\<close>, in any case of letters, never returns receipts, and when it
  is the first event, it fails with \<open>InvalidEvent\<close> before anything is produced.
\<close>

theorem reserved_headers_refused:
  assumes "ev \<in> set (pub_events cmd)" and "list_ex reserved_header (dkeys (ev_headers ev))"
  shows "isl (fst (publish_new g sel cmd w))
    \<and> (hd (pub_events cmd) = ev \<longrightarrow>
        publish_new g sel cmd w = (Inl (raised_for InvalidEvent ''event.headers''), push Monotonic w))"
proof -
  let ?xs = "zip (pub_events cmd) [0..<length (pub_events cmd)]"
  obtain i where i: "(ev, i) \<in> set ?xs"
    using assms(1) by (metis in_set_impl_in_set_zip1 length_map map_nth length_upt minus_nat.diff_0)
  have "wp (publish_new g sel cmd) (\<lambda>_ _. False) (\<lambda>_ _. True) w"
    unfolding publish_new_def Let_def wp_bind wp_monotonic
    by (rule wp_mono [OF produce_all_reserved [OF assms(2) i]]) simp_all
  then have "isl (fst (publish_new g sel cmd w))" by (auto simp: wp_def split: prod.splits sum.splits)
  moreover have "publish_new g sel cmd w = (Inl (raised_for InvalidEvent ''event.headers''), push Monotonic w)"
    if first: "hd (pub_events cmd) = ev"
  proof -
    obtain evs where "pub_events cmd = ev # evs" using assms(1) first by (cases "pub_events cmd") simp_all
    then show ?thesis using assms(2)
      by (simp add: publish_new_def Let_def bindM_def monotonic_def ask_def upt_rec [of 0] produce_one_def throwM_def
          del: upt_Suc)
  qed
  ultimately show ?thesis by blast
qed

subsection \<open>Termination\<close>

text \<open>Two readings of the clock are at least \<open>d\<close> seconds apart.\<close>

definition clock_advances :: "env \<Rightarrow> rat \<Rightarrow> bool" where
  "clock_advances e d \<longleftrightarrow> 0 < d \<and>
     (\<forall>cs h. e_monotonic e (Monotonic # h) + d \<le> e_monotonic e (Monotonic # cs @ Monotonic # h))"

lemma produce_attempt_ends:
  "env_returns (g_env g) \<Longrightarrow> terminates (produce_attempt g sel cmd ev i b)"
  unfolding produce_attempt_def by (intro ends_intros fails_intros)

lemma produce_attempt_calls: "keeps (calls_only publish_call) (produce_attempt g sel cmd ev i b)"
  unfolding produce_attempt_def by (intro keeps_intros; simp)

lemma produce_loop_ends:
  fixes w :: "'w producer_world_scheme"
  assumes adv: "clock_advances (g_env g) d" and er: "env_returns (g_env g)"
  shows "hist w = cs @ Monotonic # h \<Longrightarrow> deadline \<le> e_monotonic (g_env g) (Monotonic # h) + of_nat n * d \<Longrightarrow>
    n < fuel \<Longrightarrow> wp (produce_loop fuel g sel cmd ev i deadline b) (\<lambda>_ _. True) (\<lambda>x _. x \<noteq> Diverged) w"
proof (induction fuel arbitrary: n h cs b w)
  case (Suc fuel)
  let ?m = "produce_attempt g sel cmd ev i b" and ?time = "\<lambda>h. e_monotonic (g_env g) (Monotonic # h)"
  have retry: "wp (bindM (monotonic (g_env g)) (\<lambda>now.
         let remaining = deadline - now
         in if remaining \<le> 0 then throwM (raised_retryable KafkaOperationFailed True)
            else bindM (request (g_env g) (ProducerPoll sel (min (5 / 100) remaining)) (e_reports (g_env g)))
              (\<lambda>reports. produce_loop fuel g sel cmd ev i deadline (deliver_all reports b))))
      (\<lambda>_ _. True) (\<lambda>x _. x \<noteq> Diverged) t" if t: "hist t = ds @ hist w"
      for t :: "'w producer_world_scheme" and ds
  proof -
    have later: "?time h + d \<le> ?time (hist t)"
      using adv unfolding clock_advances_def t Suc.prems(1) by (metis append.assoc)
    have more: "deadline \<le> ?time (hist t) + of_nat (n - 1) * d \<and> n - 1 < fuel" if "\<not> deadline - ?time (hist t) \<le> 0"
    proof (cases n)
      case 0
      then show ?thesis using that later Suc.prems(2) adv by (simp add: clock_advances_def)
    next
      case (Suc m)
      then show ?thesis using later Suc.prems by (simp add: algebra_simps)
    qed
    let ?p = "ProducerPoll sel (min (5 / 100) (deadline - ?time (hist t)))"
    have "wp (produce_loop fuel g sel cmd ev i deadline c) (\<lambda>_ _. True) (\<lambda>x _. x \<noteq> Diverged)
        (push ?p (push Monotonic t))" if "\<not> deadline - ?time (hist t) \<le> 0" for c
      by (rule Suc.IH [of _ "[?p]" "hist t" "n - 1"]) (use more [OF that] in simp_all)
    then show ?thesis
      using er by (auto simp: wp_simps Let_def env_returns_def split: option.splits)
  qed
  have att: "wp ?m (\<lambda>_ _. True) (\<lambda>x t. x \<noteq> Diverged \<and> (\<exists>ds. hist t = ds @ hist w)) w"
    by (rule wp_mono [OF wp_conj [OF terminates_wp [OF produce_attempt_ends [OF er]]
        keeps_wp [OF produce_attempt_calls]]]) (auto simp: calls_only_def)
  show ?case
    unfolding produce_loop.simps wp_except
    apply (rule wp_mono [OF att])
     apply (rule TrueI)
    apply (elim conjE exE)
    apply (simp only: if_False wp_if wp_throw normalized_finite not_False_eq_True if_bool_eq_conj)
    apply (intro conjI impI TrueI)
    apply (erule retry)
    done
qed simp

lemma produce_all_ends:
  fixes w :: "'w producer_world_scheme"
  assumes "clock_advances (g_env g) d" and "env_returns (g_env g)"
    and "deadline \<le> e_monotonic (g_env g) (Monotonic # h) + of_nat n * d" and "n < g_fuel g"
  shows "since (Monotonic # h) w \<Longrightarrow>
    wp (produce_all g sel cmd deadline xs b) (\<lambda>_ _. True) (\<lambda>x _. x \<noteq> Diverged) w"
proof (induction xs arbitrary: b w)
  case (Cons y ys)
  obtain cs where cs: "hist w = cs @ Monotonic # h" using Cons.prems by (auto simp: since_def)
  have one: "wp (produce_one g sel cmd deadline y b) (\<lambda>_ _. True) (\<lambda>x _. x \<noteq> Diverged) w"
    using produce_loop_ends [OF assms(1,2) cs assms(3,4)] by (simp add: produce_one_def split_def wp_simps)
  have two: "keeps (calls_only publish_call) (produce_one g sel cmd deadline y b)"
    by (auto simp: produce_one_def split_def intro!: keeps_intros)
  show ?case
    unfolding produce_all.simps wp_bind
    by (rule wp_mono [OF wp_conj [OF one keeps_wp [OF two]]])
      (use Cons.IH since_calls [OF _ Cons.prems] in blast)+
qed (simp add: wp_simps)

lemma make_receipt_ends: "terminates (make_receipt g cmd x)"
  unfolding make_receipt_def split_def by (intro ends_intros fails_intros) simp_all

text \<open>
  C28. Publication always ends: when the clock advances by at least \<open>d\<close> seconds between two
  readings, \<open>n\<close> steps of \<open>d\<close> cover the operation timeout and the loops have fuel for more than
  \<open>n\<close> rounds each, a publication returns receipts or raises an exception of the program, however
  often the producer's queue is full.
\<close>

theorem publish_terminates:
  fixes w :: "'w producer_world_scheme"
  assumes "clock_advances (g_env g) d" and "env_returns (g_env g)"
    and "of_int (g_timeout_ms g) / 1000 \<le> of_nat n * d" and "n < g_fuel g"
  shows "fst (publish g cmd override w) \<noteq> Inl Diverged"
proof -
  have new: "terminates (publish_new g sel cmd :: (exc, 'w producer_world_scheme, receipt list) op)" for sel
  proof (rule terminatesI)
    fix s :: "'w producer_world_scheme"
    let ?t = "e_monotonic (g_env g) (Monotonic # hist s)"
    have "?t + of_int (g_timeout_ms g) / 1000 \<le> ?t + of_nat n * d" using assms(3) by simp
    moreover have "since (Monotonic # hist s) (push Monotonic s)" by (simp add: since_def)
    ultimately have all: "wp (produce_all g sel cmd (?t + of_int (g_timeout_ms g) / 1000) xs b)
        (\<lambda>_ _. True) (\<lambda>x _. x \<noteq> Diverged) (push Monotonic s)" for xs b
      by (rule produce_all_ends [OF assms(1,2) _ assms(4)])
    have rest: "terminates (bindM (monotonic (g_env g)) (\<lambda>now.
        bindM (request (g_env g) (Flush sel (max 0 (dl - now))) (\<lambda>h. (e_queued (g_env g) h, e_reports (g_env g) h)))
        (\<lambda>(queued, reports). if queued \<noteq> 0 then throwM (raised_retryable KafkaOperationFailed True)
          else mapM (make_receipt g cmd) (zip (ba_deliveries (deliver_all reports b')) (pub_events cmd)))))"
      for dl b' using assms(2) by (intro ends_intros make_receipt_ends) simp_all
    show "wp (publish_new g sel cmd) (\<lambda>_ _. True) (\<lambda>x _. x \<noteq> Diverged) s"
      unfolding publish_new_def Let_def wp_bind [of "monotonic _"] wp_monotonic
      unfolding wp_bind [of "produce_all _ _ _ _ _ _"]
      by (rule wp_mono [OF all]) (rule terminates_wp [OF rest], assumption)
  qed
  have "terminates (publish g cmd override :: (exc, 'w producer_world_scheme, receipt list) op)"
    unfolding publish_def operation_fingerprint_def using assms(2)
    by (intro ends_intros new fails_intros) simp_all
  then show ?thesis by (simp add: terminates_def)
qed

subsection \<open>Witnesses\<close>

text \<open>An environment that delivers every produced message when it is flushed.\<close>

fun delivery_reports :: "history \<Rightarrow> report list" where
  "delivery_reports [] = []"
| "delivery_reports (c # h) = (case c of
     Produce _ _ \<Rightarrow> \<lparr>rp_handle = length h, rp_error = None, rp_partition = 0, rp_offset = int (length h)\<rparr>
       # delivery_reports h
   | _ \<Rightarrow> delivery_reports h)"

definition serving_env :: env where
  "serving_env = quiet_env\<lparr>e_reports := (\<lambda>h. case h of Flush _ _ # h' \<Rightarrow> delivery_reports h' | _ \<Rightarrow> [])\<rparr>"

definition sample_ctx :: ctx where
  "sample_ctx = \<lparr>g_core = sample_core, g_digests = sample_digests, g_attrs = (\<lambda>_. None), g_env = serving_env,
     g_codec = sample_codec, g_settings = sample_settings, g_producer = 0, g_timeout_ms = 1000, g_fuel = 3\<rparr>"

definition sample_publish :: publish_command where
  "sample_publish = \<lparr>pub_stream = sample_stream ''a'' ''t'', pub_events = [sample_event ''1'', sample_event ''2''],
     pub_idempotency_key = Some ''key'', pub_batch = True\<rparr>"

definition sample_producer_world :: producer_world where
  "sample_producer_world = \<lparr>hist = [], tel_events = [], tel_maximum = 4, idempotency = []\<rparr>"

lemma sample_ctx_env: "quiet_sink (g_env sample_ctx)" "env_returns (g_env sample_ctx)"
  "clock_advances (g_env sample_ctx) 1"
  by (simp_all add: sample_ctx_def serving_env_def quiet_env_def quiet_sink_def env_returns_def clock_advances_def)

lemma sample_published:
  "\<exists>r1 r2 w'. publish sample_ctx sample_publish None sample_producer_world = (Inr [r1, r2], w')
    \<and> rc_event_id r1 = ''1'' \<and> rc_event_id r2 = ''2''"
proof -
  have "(case publish sample_ctx sample_publish None sample_producer_world of (Inr [r1, r2], w') \<Rightarrow>
      rc_event_id r1 = ''1'' \<and> rc_event_id r2 = ''2'' | _ \<Rightarrow> False)" by code_simp
  then show ?thesis by (auto split: prod.splits sum.splits list.splits)
qed

lemma sample_cache_ok: "cache_ok sample_producer_world"
  by code_simp

theorem publish_cache_bounded_witness:
  "cache_ok (snd (publish sample_ctx sample_publish None sample_producer_world))"
  using publish_cache_bounded [OF sample_cache_ok, of sample_ctx sample_publish None] by (metis prod.collapse)


theorem publish_key_conflict_witness:
  "publish sample_ctx sample_publish None (sample_producer_world\<lparr>idempotency := [(''key'', ''other'', [])]\<rparr>)
   = (Inl (raised_for InvalidEvent ''publish.idempotency-key''),
      sample_producer_world\<lparr>idempotency := [(''key'', ''other'', [])]\<rparr>)"
proof -
  have "(case operation_fingerprint sample_ctx sample_publish of Inr fp \<Rightarrow> fp \<noteq> ''other'' | _ \<Rightarrow> False)"
    by code_simp
  then obtain fp where "operation_fingerprint sample_ctx sample_publish = Inr fp" "fp \<noteq> ''other''"
    by (auto split: sum.splits)
  then show ?thesis by (intro publish_key_conflict [where k = "''key''"]) (simp_all add: sample_publish_def)
qed

theorem publish_complete_witness:
  "\<exists>r1 r2 w'. publish_new sample_ctx 0 sample_publish sample_producer_world = (Inr [r1, r2], w')
    \<and> handed sample_ctx 0 sample_publish [] (sample_event ''2'') w'"
proof -
  have "(case publish_new sample_ctx 0 sample_publish sample_producer_world of (Inr [r1, r2], w') \<Rightarrow> True | _ \<Rightarrow> False)"
    by code_simp
  then obtain r1 r2 w' where p: "publish_new sample_ctx 0 sample_publish sample_producer_world = (Inr [r1, r2], w')"
    by (auto split: prod.splits sum.splits list.splits)
  then show ?thesis using publish_complete [OF p] by (simp add: sample_producer_world_def sample_publish_def)
qed

definition sample_reserved :: event where
  "sample_reserved = (sample_event ''1'')\<lparr>ev_headers := [(''Meridian.x'', JNull)]\<rparr>"

theorem reserved_headers_refused_witness:
  "publish_new sample_ctx 0 (sample_publish\<lparr>pub_events := [sample_reserved]\<rparr>) sample_producer_world
   = (Inl (raised_for InvalidEvent ''event.headers''), push Monotonic sample_producer_world)"
proof -
  have "list_ex reserved_header (dkeys (ev_headers sample_reserved))" by code_simp
  then show ?thesis
    using reserved_headers_refused [of sample_reserved "sample_publish\<lparr>pub_events := [sample_reserved]\<rparr>"
        sample_ctx 0 sample_producer_world] by simp
qed

theorem publish_terminates_witness:
  "fst (publish sample_ctx sample_publish None sample_producer_world) \<noteq> Inl Diverged"
  by (rule publish_terminates [OF sample_ctx_env(3,2), of 1]) (simp_all add: sample_ctx_def)

end
