(* ===== verification/Transactions.thy ===== *)
theory Transactions
  imports Producer "HOL-Library.Product_Lexorder"
begin

text \<open>
  \<^verbatim>\<open>transactions/__init__.py\<close>: the bridge that puts produced records and group offsets into one
  Kafka transaction. Its state is the lease, the active flag, the staged offsets and the group
  they belong to. Threads are left out: \<open>_lease.acquire(timeout)\<close> fails exactly when the lease is
  held. What the bridge asks of the producer is checked against the protocol of a transactional
  producer, an automaton over the history of calls.
\<close>

section \<open>State and operations\<close>

record txn_world = producer_world +
  txn_active :: bool
  txn_lease :: bool
  txn_offsets :: "(string \<times> int, int) dict"
  txn_group_metadata :: "group_metadata option"
  txn_group_key :: "string option"

abbreviation txn_contract :: string where
  "txn_contract \<equiv> ''meridian.streaming.transactional-consume-publish''"

definition txn_timeout :: "ctx \<Rightarrow> rat" where
  "txn_timeout g = of_int (g_timeout_ms g) / 1000"

text \<open>The property \<open>producer\<close>.\<close>

definition txn_producer :: "client \<Rightarrow> (exc, 'w txn_world_scheme, client) op" where
  "txn_producer p = bindM (getM txn_active) (\<lambda>active.
     if \<not> active then throwM (PyExc RuntimeError) else retM p)"

definition txn_open :: "ctx \<Rightarrow> client \<Rightarrow> (exc, 'w txn_world_scheme, unit) op" where
  "txn_open g p =
     bindM (normalizedM (g_attrs g) txn_contract (command (g_env g) (InitTransactions p (txn_timeout g)))) (\<lambda>_.
     emit (g_env g) ''meridian.kafka.transaction.initialized'' [(''ready'', TBool True)])"

definition cleared :: "'w txn_world_scheme \<Rightarrow> 'w txn_world_scheme" where
  "cleared w = w\<lparr>txn_offsets := [], txn_group_metadata := None, txn_group_key := None\<rparr>"

definition txn_begin :: "ctx \<Rightarrow> client \<Rightarrow> (exc, 'w txn_world_scheme, unit) op" where
  "txn_begin g p =
     bindM (getM txn_lease) (\<lambda>held.
     if held then throwM (raised_retryable KafkaTransactionAborted True)
     else bindM (modM (\<lambda>w. w\<lparr>txn_lease := True\<rparr>)) (\<lambda>_.
       exceptM
         (bindM (command (g_env g) (BeginTransaction p)) (\<lambda>_.
          bindM (modM (\<lambda>w. w\<lparr>txn_active := True\<rparr>)) (\<lambda>_.
          bindM (modM cleared) (\<lambda>_.
          emit (g_env g) ''meridian.kafka.transaction.began'' [(''active'', TBool True)]))))
         (\<lambda>x. bindM (modM (\<lambda>w. w\<lparr>txn_lease := False\<rparr>)) (\<lambda>_.
            throwM (normalize_kafka_error (g_attrs g) (Failed x) (Some txn_contract))))))"

definition staged :: "string \<times> int \<Rightarrow> int \<Rightarrow> 'w txn_world_scheme \<Rightarrow> 'w txn_world_scheme" where
  "staged coordinate next_offset w = w\<lparr>txn_offsets :=
     dset coordinate (max next_offset (dget (txn_offsets w) coordinate 0)) (txn_offsets w)\<rparr>"

definition stage_offset :: "ctx \<Rightarrow> string \<Rightarrow> client \<Rightarrow> string \<Rightarrow> int \<Rightarrow> int \<Rightarrow> (exc, 'w txn_world_scheme, unit) op" where
  "stage_offset g group_key consumer topic part next_offset =
     bindM (getM txn_active) (\<lambda>active.
     if \<not> active then throwM (PyExc RuntimeError)
     else bindM (getM txn_group_key) (\<lambda>key.
     if key \<noteq> None \<and> key \<noteq> Some group_key
     then throwM (raised_retryable KafkaTransactionAborted False)
     else bindM (modM (\<lambda>w. w\<lparr>txn_group_key := Some group_key\<rparr>)) (\<lambda>_.
       bindM (request (g_env g) (GroupMetadata consumer) (e_text (g_env g))) (\<lambda>metadata.
       bindM (modM (\<lambda>w. w\<lparr>txn_group_metadata := Some metadata\<rparr>)) (\<lambda>_.
       modM (staged (topic, part) next_offset))))))"

definition txn_finish :: "'w txn_world_scheme \<Rightarrow> 'w txn_world_scheme" where
  "txn_finish w = (cleared (w\<lparr>txn_active := False\<rparr>))\<lparr>txn_lease := False\<rparr>"

definition txn_positions :: "(string \<times> int, int) dict \<Rightarrow> topic_partition list" where
  "txn_positions offsets = map (\<lambda>((topic, part), off). (topic, part, off)) (sorted_items offsets)"

definition send_staged :: "ctx \<Rightarrow> client \<Rightarrow> (exc, 'w txn_world_scheme, unit) op" where
  "send_staged g p =
     bindM (getM txn_offsets) (\<lambda>offsets.
     whenM (offsets \<noteq> [])
       (bindM (getM txn_group_metadata) (\<lambda>metadata.
        case metadata of
          None \<Rightarrow> throwM (raised KafkaTransactionAborted)
        | Some md \<Rightarrow> command (g_env g) (SendOffsets p (txn_positions offsets) md (txn_timeout g)))))"

definition txn_commit :: "ctx \<Rightarrow> client \<Rightarrow> (exc, 'w txn_world_scheme, unit) op" where
  "txn_commit g p =
     bindM (getM txn_active) (\<lambda>active.
     if \<not> active then throwM (PyExc RuntimeError)
     else alwaysM
       (exceptM
         (bindM (send_staged g p) (\<lambda>_.
          bindM (command (g_env g) (CommitTransaction p (txn_timeout g))) (\<lambda>_.
          bindM (getM txn_offsets) (\<lambda>offsets.
          emit (g_env g) ''meridian.kafka.transaction.committed''
            [(''offsetCount'', TInt (int (length offsets)))]))))
         (\<lambda>x. bindM (exceptM (command (g_env g) (AbortTransaction p (txn_timeout g))) (\<lambda>_. retM ())) (\<lambda>_.
            throwM (normalize_kafka_error (g_attrs g) (Failed x) (Some txn_contract)))))
       (modM txn_finish))"

definition txn_abort :: "ctx \<Rightarrow> client \<Rightarrow> (exc, 'w txn_world_scheme, unit) op" where
  "txn_abort g p =
     bindM (getM txn_active) (\<lambda>active.
     whenM active
       (alwaysM
         (normalizedM (g_attrs g) txn_contract
           (bindM (command (g_env g) (AbortTransaction p (txn_timeout g))) (\<lambda>_.
            bindM (getM txn_offsets) (\<lambda>offsets.
            emit (g_env g) ''meridian.kafka.transaction.aborted''
              [(''offsetCount'', TInt (int (length offsets)))]))))
         (modM txn_finish)))"

definition txn_close :: "ctx \<Rightarrow> client \<Rightarrow> (exc, 'w txn_world_scheme, unit) op" where
  "txn_close g p =
     bindM (getM txn_active) (\<lambda>active.
     bindM (whenM active (txn_abort g p)) (\<lambda>_.
     command (g_env g) (Flush p (txn_timeout g))))"

section \<open>The protocol of a transactional producer\<close>

text \<open>
  Whether producer \<open>p\<close> has a transaction open after a history: a successful begin opens it, a
  successful commit or any abort closes it.
\<close>

fun txn_in_progress :: "env \<Rightarrow> client \<Rightarrow> history \<Rightarrow> bool" where
  "txn_in_progress e p [] = False"
| "txn_in_progress e p (c # h) = (case c of
     BeginTransaction q \<Rightarrow> (q = p \<and> e_raises e (c # h) = None) \<or> txn_in_progress e p h
   | CommitTransaction q _ \<Rightarrow> txn_in_progress e p h \<and> \<not> (q = p \<and> e_raises e (c # h) = None)
   | AbortTransaction q _ \<Rightarrow> txn_in_progress e p h \<and> q \<noteq> p
   | _ \<Rightarrow> txn_in_progress e p h)"

text \<open>A transaction is begun only when none is open, and offsets, commit and abort come inside one.\<close>

fun txn_legal :: "env \<Rightarrow> client \<Rightarrow> call \<Rightarrow> history \<Rightarrow> bool" where
  "txn_legal e p (BeginTransaction q) h = (q = p \<longrightarrow> \<not> txn_in_progress e p h)"
| "txn_legal e p (SendOffsets q _ _ _) h = (q = p \<longrightarrow> txn_in_progress e p h)"
| "txn_legal e p (CommitTransaction q _) h = (q = p \<longrightarrow> txn_in_progress e p h)"
| "txn_legal e p (AbortTransaction q _) h = (q = p \<longrightarrow> txn_in_progress e p h)"
| "txn_legal e p _ h = True"

fun txn_conforms :: "env \<Rightarrow> client \<Rightarrow> history \<Rightarrow> bool" where
  "txn_conforms e p [] = True"
| "txn_conforms e p (c # h) = (txn_legal e p c h \<and> txn_conforms e p h)"

text \<open>The invariant of the bridge.\<close>

definition txn_ok :: "env \<Rightarrow> client \<Rightarrow> 'w txn_world_scheme \<Rightarrow> bool" where
  "txn_ok e p w \<longleftrightarrow> txn_conforms e p (hist w)
     \<and> txn_active w = txn_in_progress e p (hist w) \<and> txn_lease w = txn_active w
     \<and> (txn_offsets w \<noteq> [] \<longrightarrow> txn_group_metadata w \<noteq> None \<and> txn_group_key w \<noteq> None)
     \<and> distinct (dkeys (txn_offsets w)) \<and> (\<forall>off \<in> snd ` set (txn_offsets w). 0 \<le> off)
     \<and> (\<not> txn_active w \<longrightarrow> txn_offsets w = [] \<and> txn_group_metadata w = None \<and> txn_group_key w = None)"

section \<open>Lemmas\<close>

text \<open>Evidence that is always valid reaches the sink; whether the operation returns is up to it.\<close>

lemma emit_run:
  assumes "list_all valid_attribute as" and "valid_key name"
  shows "\<exists>evs ev. let w' = w\<lparr>tel_events := evs, hist := SinkEmit ev # UtcNow # hist w\<rparr> in
    emit e name as w = (case e_raises e (hist w') of None \<Rightarrow> (Inr (), w') | Some x \<Rightarrow> (Inl x, w'))"
proof -
  let ?q = "e\<lparr>e_raises := (\<lambda>_. None)\<rparr>"
  have "quiet_sink ?q" by (simp add: quiet_sink_def)
  then obtain w' where "emit ?q name as w = (Inr (), w')" using emit_ok [OF _ assms] by blast
  then obtain sel nm where "foldE select_attribute as [] = Inr sel" "bounded_string (JStr name) 256 = Inr nm"
    by (auto simp: emit_def op_defs split: sum.splits)
  then show ?thesis
    by (intro exI [of _ "tel_events (keep_event \<lparr>te_name = nm, te_occurred_at = e_text e (UtcNow # hist w),
          te_attributes = sorted_items sel\<rparr> w)"]
        exI [of _ "\<lparr>te_name = nm, te_occurred_at = e_text e (UtcNow # hist w), te_attributes = sorted_items sel\<rparr>"])
      (simp add: emit_def op_defs ask_def request_def push_def keep_event_def Let_def
        split: option.split del: bounded_string_Inr)
qed

lemma wp_emit:
  assumes "list_all valid_attribute as" and "valid_key name"
    and "\<And>evs ev. let w' = w\<lparr>tel_events := evs, hist := SinkEmit ev # UtcNow # hist w\<rparr> in
      case e_raises e (hist w') of None \<Rightarrow> Q () w' | Some x \<Rightarrow> E x w'"
  shows "wp (emit e name as) Q E w"
proof -
  obtain evs ev where "let w' = w\<lparr>tel_events := evs, hist := SinkEmit ev # UtcNow # hist w\<rparr> in
    emit e name as w = (case e_raises e (hist w') of None \<Rightarrow> (Inr (), w') | Some x \<Rightarrow> (Inl x, w'))"
    using emit_run [OF assms(1,2)] by blast
  then show ?thesis using assms(3) [of ev evs] by (auto simp: wp_def Let_def split: option.splits)
qed

lemma wp_emit_quiet:
  assumes "quiet_sink e" and "list_all valid_attribute as" and "valid_key name"
    and "\<And>evs ev. Q () (w\<lparr>tel_events := evs, hist := SinkEmit ev # UtcNow # hist w\<rparr>)"
  shows "wp (emit e name as) Q E w"
  using assms(1,4) by (intro wp_emit [OF assms(2,3)]) (simp add: quiet_sink_def Let_def)

lemma txn_attributes:
  "list_all valid_attribute [(''active'', TBool b)]" "list_all valid_attribute [(''ready'', TBool b)]"
  "small (int n) \<Longrightarrow> list_all valid_attribute [(''offsetCount'', TInt (int n))]"
proof -
  have "valid_key ''active''" "valid_key ''ready''" "valid_key ''offsetCount''" by code_simp+
  then show "list_all valid_attribute [(''active'', TBool b)]" "list_all valid_attribute [(''ready'', TBool b)]"
    "small (int n) \<Longrightarrow> list_all valid_attribute [(''offsetCount'', TInt (int n))]"
    by (simp_all add: valid_attribute_TBool valid_attribute_TInt)
qed

lemma txn_event_names:
  "valid_key ''meridian.kafka.transaction.initialized''" "valid_key ''meridian.kafka.transaction.began''"
  "valid_key ''meridian.kafka.transaction.committed''" "valid_key ''meridian.kafka.transaction.aborted''"
  by code_simp+

lemmas wp_emit_txn = wp_emit_quiet [OF _ txn_attributes(1) txn_event_names(2)]
  wp_emit_quiet [OF _ txn_attributes(2) txn_event_names(1)]
  wp_emit_quiet [OF _ txn_attributes(3) txn_event_names(3)]
  wp_emit_quiet [OF _ txn_attributes(3) txn_event_names(4)]

text \<open>Calls that are no part of the transaction protocol.\<close>

fun txn_neutral :: "call \<Rightarrow> bool" where
  "txn_neutral (BeginTransaction _) = False"
| "txn_neutral (SendOffsets _ _ _ _) = False"
| "txn_neutral (CommitTransaction _ _) = False"
| "txn_neutral (AbortTransaction _ _) = False"
| "txn_neutral _ = True"

lemma txn_neutral_calls:
  "list_all txn_neutral cs \<Longrightarrow> txn_in_progress e p (cs @ h) = txn_in_progress e p h"
  "list_all txn_neutral cs \<Longrightarrow> txn_conforms e p (cs @ h) = txn_conforms e p h"
proof -
  show *: "txn_in_progress e p (cs @ h) = txn_in_progress e p h" if "list_all txn_neutral cs"
    using that by (induction cs) (auto split: call.split)
  have "txn_neutral c \<Longrightarrow> txn_legal e p c h" for c h by (cases c) auto
  then show "txn_conforms e p (cs @ h) = txn_conforms e p h" if "list_all txn_neutral cs"
    using that by (induction cs) auto
qed

text \<open>The bridge's own state.\<close>

definition bridge :: "'w txn_world_scheme \<Rightarrow>
    bool \<times> bool \<times> (string \<times> int, int) dict \<times> group_metadata option \<times> string option" where
  "bridge w = (txn_active w, txn_lease w, txn_offsets w, txn_group_metadata w, txn_group_key w)"

lemma ignores_bridge [simp, intro]: "ignores_calls bridge"
  unfolding ignores_calls_def bridge_def by (intro allI conjI) simp_all

lemma txn_ok_other:
  assumes "txn_ok e p w" and "calls_only txn_neutral w w'" and "bridge w' = bridge w"
  shows "txn_ok e p w'"
proof -
  obtain cs where "hist w' = cs @ hist w" "list_all txn_neutral cs" using assms(2) by (auto simp: calls_only_def)
  then show ?thesis using assms(1,3) by (simp add: txn_ok_def bridge_def txn_neutral_calls)
qed

subsection \<open>Every operation keeps the invariant\<close>

lemma txn_ok_neutral:
  assumes "keeps (calls_only txn_neutral) m" and "keeps (unchanged bridge) m" and "txn_ok e p w"
  shows "txn_ok e p (snd (m w))"
  using assms by (intro txn_ok_other [OF assms(3)]) (simp_all add: keeps_def unchanged_def)

lemma txn_open_ok:
  "txn_ok (g_env g) p w \<Longrightarrow> txn_ok (g_env g) p (snd (txn_open g p w))"
  by (rule txn_ok_neutral) (unfold txn_open_def, (intro keeps_intros ignores_bridge txn_neutral.simps TrueI; simp)+)

lemma txn_begin_ok:
  assumes "quiet_sink (g_env g)" and "env_returns (g_env g)" and "txn_ok (g_env g) p w"
  shows "wp (txn_begin g p) (\<lambda>_ w'. txn_ok (g_env g) p w' \<and> txn_active w') (\<lambda>_. txn_ok (g_env g) p) w"
  using assms
  by (auto simp: txn_begin_def wp_simps cleared_def txn_ok_def push_def env_returns_def
      split: option.splits intro!: wp_emit_txn)

lemma set_dset: "set (dset k v d) \<subseteq> insert (k, v) (set d)"
  by (induction d) auto

lemma staged_offsets:
  assumes "\<forall>off \<in> snd ` set (txn_offsets w). 0 \<le> off"
  shows "\<forall>off \<in> snd ` set (txn_offsets (staged c n w)). 0 \<le> off"
proof -
  have "0 \<le> dget (txn_offsets w) c 0"
    using assms by (force simp: dget_def split: option.splits dest: map_of_SomeD)
  then show ?thesis
    using set_dset [of c "max n (dget (txn_offsets w) c 0)" "txn_offsets w"] assms by (force simp: staged_def)
qed

lemma staged_fields [simp]:
  "txn_active (staged c n w) = txn_active w" "txn_lease (staged c n w) = txn_lease w"
  "txn_group_metadata (staged c n w) = txn_group_metadata w" "txn_group_key (staged c n w) = txn_group_key w"
  "hist (staged c n w) = hist w"
  "txn_offsets (staged c n w) = dset c (max n (dget (txn_offsets w) c 0)) (txn_offsets w)"
  by (simp_all add: staged_def)

lemma stage_offset_ok:
  assumes "txn_ok (g_env g) p w"
  shows "wp (stage_offset g key co tp pt n) (\<lambda>_. txn_ok (g_env g) p) (\<lambda>_. txn_ok (g_env g) p) w"
proof -
  have "\<forall>off \<in> snd ` set (dset c (max n (dget (txn_offsets w) c 0)) (txn_offsets w)). 0 \<le> off" for c
    using staged_offsets [of w c n] assms by (simp add: txn_ok_def)
  then show ?thesis
    using assms by (auto simp: stage_offset_def wp_simps txn_ok_def push_def split: option.splits)
qed

text \<open>The one call that carries the staged offsets, if there are any.\<close>

definition sends :: "ctx \<Rightarrow> client \<Rightarrow> 'w txn_world_scheme \<Rightarrow> history" where
  "sends g p w = (case txn_group_metadata w of
     Some md \<Rightarrow> if txn_offsets w = [] then [] else [SendOffsets p (txn_positions (txn_offsets w)) md (txn_timeout g)]
   | None \<Rightarrow> [])"

lemma wp_send_staged:
  assumes "txn_offsets w \<noteq> [] \<longrightarrow> txn_group_metadata w \<noteq> None"
    and "Q () (w\<lparr>hist := sends g p w @ hist w\<rparr>)"
    and "\<And>x. sends g p w \<noteq> [] \<Longrightarrow> e_raises (g_env g) (sends g p w @ hist w) = Some x \<Longrightarrow>
      E x (w\<lparr>hist := sends g p w @ hist w\<rparr>)"
  shows "wp (send_staged g p) Q E w"
  using assms by (auto simp: send_staged_def wp_simps sends_def push_def split: option.splits)

lemma wp_try_abort:
  assumes env: "env_returns e" and N: "\<And>x. N x \<noteq> Diverged"
    and body: "wp body (\<lambda>x t. Q x (f t)) (\<lambda>x t. x \<noteq> Diverged \<and> E (N x) (f (push c t))) s"
  shows "wp (alwaysM (exceptM body (\<lambda>x. bindM (exceptM (command e c) (\<lambda>_. retM ())) (\<lambda>_. throwM (N x)))) (modM f)) Q E s"
proof -
  have "e_raises e h \<noteq> Some Diverged" for h using env by (simp add: env_returns_def)
  then show ?thesis
    unfolding wp_always wp_except
    by (intro wp_mono [OF body]) (auto simp: wp_simps N split: option.splits)
qed

text \<open>
  A commit sends the staged offsets, commits and reports; when a client call raises, it aborts
  and raises the normalized failure. Either way the bridge is reset.
\<close>

lemma wp_txn_commit:
  assumes "quiet_sink (g_env g)" and env: "env_returns (g_env g)" and ok: "txn_ok (g_env g) p w"
    and small: "small (int (length (txn_offsets w)))" and "txn_active w"
    and Q: "\<And>evs ev. e_raises (g_env g) (CommitTransaction p (txn_timeout g) # sends g p w @ hist w) = None \<Longrightarrow>
      Q () (txn_finish (w\<lparr>tel_events := evs,
      hist := SinkEmit ev # UtcNow # CommitTransaction p (txn_timeout g) # sends g p w @ hist w\<rparr>))"
    and E: "\<And>x cs. cs \<noteq> [] \<Longrightarrow> cs = sends g p w \<or> cs = CommitTransaction p (txn_timeout g) # sends g p w \<Longrightarrow>
      e_raises (g_env g) (cs @ hist w) = Some x \<Longrightarrow>
      E (normalize_kafka_error (g_attrs g) (Failed x) (Some txn_contract))
        (txn_finish (w\<lparr>hist := AbortTransaction p (txn_timeout g) # cs @ hist w\<rparr>))"
  shows "wp (txn_commit g p) Q E w"
proof -
  let ?t = "txn_timeout g"
  have d: "e_raises (g_env g) h = Some x \<Longrightarrow> x \<noteq> Diverged" for h x using env by (auto simp: env_returns_def)
  have md: "txn_offsets w \<noteq> [] \<longrightarrow> txn_group_metadata w \<noteq> None" using ok by (simp add: txn_ok_def)
  have "wp (bindM (send_staged g p) (\<lambda>_.
          bindM (command (g_env g) (CommitTransaction p ?t)) (\<lambda>_.
          bindM (getM txn_offsets) (\<lambda>offsets.
          emit (g_env g) ''meridian.kafka.transaction.committed''
            [(''offsetCount'', TInt (int (length offsets)))]))))
      (\<lambda>x t. Q x (txn_finish t))
      (\<lambda>x t. x \<noteq> Diverged \<and> E (normalize_kafka_error (g_attrs g) (Failed x) (Some txn_contract))
        (txn_finish (push (AbortTransaction p ?t) t))) w"
    unfolding wp_bind [of "send_staged g p"]
  proof (rule wp_send_staged [OF md])
    show "wp (bindM (command (g_env g) (CommitTransaction p ?t)) (\<lambda>_.
          bindM (getM txn_offsets) (\<lambda>offsets.
          emit (g_env g) ''meridian.kafka.transaction.committed''
            [(''offsetCount'', TInt (int (length offsets)))])))
      (\<lambda>x t. Q x (txn_finish t))
      (\<lambda>x t. x \<noteq> Diverged \<and> E (normalize_kafka_error (g_attrs g) (Failed x) (Some txn_contract))
        (txn_finish (push (AbortTransaction p ?t) t))) (w\<lparr>hist := sends g p w @ hist w\<rparr>)"
      using Q E [of "CommitTransaction p ?t # sends g p w"] d small
      by (auto simp: wp_simps push_def split: option.split intro!: wp_emit_txn(3) [OF assms(1)])
  next
    fix x
    assume "sends g p w \<noteq> []" "e_raises (g_env g) (sends g p w @ hist w) = Some x"
    then show "x \<noteq> Diverged \<and> E (normalize_kafka_error (g_attrs g) (Failed x) (Some txn_contract))
        (txn_finish (push (AbortTransaction p ?t) (w\<lparr>hist := sends g p w @ hist w\<rparr>)))"
      using E [of "sends g p w"] d by (simp add: push_def)
  qed
  from wp_try_abort [where f = txn_finish and c = "AbortTransaction p ?t", OF env normalized_finite this]
  show ?thesis
    unfolding txn_commit_def wp_bind [of "getM txn_active"] wp_get using assms(5) by simp
qed

lemma txn_commit_ok:
  assumes "quiet_sink (g_env g)" and "env_returns (g_env g)" and "txn_ok (g_env g) p w"
    and "small (int (length (txn_offsets w)))"
  shows "wp (txn_commit g p) (\<lambda>_. txn_ok (g_env g) p) (\<lambda>_. txn_ok (g_env g) p) w"
proof (cases "txn_active w")
  case True
  have s: "txn_conforms (g_env g) p (sends g p w @ hist w)" "txn_in_progress (g_env g) p (sends g p w @ hist w)"
    using assms(3) True by (auto simp: txn_ok_def sends_def split: option.splits)
  show ?thesis
  proof (rule wp_txn_commit [OF assms True])
    fix evs ev
    assume "e_raises (g_env g) (CommitTransaction p (txn_timeout g) # sends g p w @ hist w) = None"
    then show "txn_ok (g_env g) p (txn_finish (w\<lparr>tel_events := evs,
      hist := SinkEmit ev # UtcNow # CommitTransaction p (txn_timeout g) # sends g p w @ hist w\<rparr>))"
      using s by (simp add: txn_ok_def txn_finish_def cleared_def)
  next
    fix x cs
    assume "cs = sends g p w \<or> cs = CommitTransaction p (txn_timeout g) # sends g p w"
      "e_raises (g_env g) (cs @ hist w) = Some x"
    then show "txn_ok (g_env g) p (txn_finish (w\<lparr>hist := AbortTransaction p (txn_timeout g) # cs @ hist w\<rparr>))"
      using s by (auto simp: txn_ok_def txn_finish_def cleared_def)
  qed
next
  case False
  then show ?thesis using assms(3) by (simp add: txn_commit_def wp_simps)
qed

lemma txn_abort_ok:
  assumes "quiet_sink (g_env g)" and "env_returns (g_env g)" and "txn_ok (g_env g) p w"
    and "small (int (length (txn_offsets w)))"
  shows "wp (txn_abort g p) (\<lambda>_ w'. txn_ok (g_env g) p w' \<and> \<not> txn_active w')
    (\<lambda>_ w'. txn_ok (g_env g) p w' \<and> \<not> txn_active w') w"
  using assms
  by (auto simp: txn_abort_def wp_simps txn_finish_def cleared_def txn_ok_def push_def env_returns_def
      split: option.splits intro!: wp_emit_txn)

lemma txn_close_ok:
  assumes "quiet_sink (g_env g)" and "env_returns (g_env g)" and "txn_ok (g_env g) p w"
    and "small (int (length (txn_offsets w)))"
  shows "wp (txn_close g p) (\<lambda>_. txn_ok (g_env g) p) (\<lambda>_. txn_ok (g_env g) p) w"
proof -
  have flush: "txn_ok (g_env g) p (push (Flush p t) v)" if "txn_ok (g_env g) p v" for v :: "'a txn_world_scheme" and t
    by (rule txn_ok_other [OF that]) (simp_all add: calls_only_push)
  show ?thesis
    unfolding txn_close_def wp_bind wp_get wp_when
    using flush assms(3)
    by (auto simp: wp_request split: option.splits intro!: wp_mono [OF txn_abort_ok [OF assms]])
qed

section \<open>The bridge as a state machine\<close>

text \<open>
  The steps of the bridge, and those of the rest of the adapter: a publication through the
  bridge's producer, a poll, any operation that neither touches the bridge nor makes a call of
  the protocol. A transaction is assumed to stage fewer than \<open>10 ^ 500\<close> coordinates.
\<close>

inductive txn_step :: "ctx \<Rightarrow> client \<Rightarrow> 'w txn_world_scheme \<Rightarrow> 'w txn_world_scheme \<Rightarrow> bool"
  for g :: ctx and p :: client where
  opened: "txn_open g p w = (r, w') \<Longrightarrow> txn_step g p w w'"
| begun: "txn_begin g p w = (r, w') \<Longrightarrow> txn_step g p w w'"
| staged: "stage_offset g key co tp pt n w = (r, w') \<Longrightarrow> txn_step g p w w'"
| committed: "txn_commit g p w = (r, w') \<Longrightarrow> small (int (length (txn_offsets w))) \<Longrightarrow> txn_step g p w w'"
| aborted: "txn_abort g p w = (r, w') \<Longrightarrow> small (int (length (txn_offsets w))) \<Longrightarrow> txn_step g p w w'"
| closed: "txn_close g p w = (r, w') \<Longrightarrow> small (int (length (txn_offsets w))) \<Longrightarrow> txn_step g p w w'"
| other: "calls_only txn_neutral w w' \<Longrightarrow> bridge w' = bridge w \<Longrightarrow> txn_step g p w w'"

inductive_cases txn_stepE: "txn_step g p w w'"

lemma wp_run: "wp m (\<lambda>_. P) (\<lambda>_. P) w \<Longrightarrow> m w = (r, w') \<Longrightarrow> P w'"
  by (cases r) (auto dest: wp_Inl wp_Inr)

lemma txn_step_ok:
  assumes "txn_step g p w w'" and "quiet_sink (g_env g)" and "env_returns (g_env g)" and "txn_ok (g_env g) p w"
  shows "txn_ok (g_env g) p w'"
  using assms(1)
proof cases
  case (opened r)
  then show ?thesis using txn_open_ok [OF assms(4)] by (metis snd_conv)
next
  case (begun r)
  then show ?thesis by (rule wp_run [OF wp_mono [OF txn_begin_ok [OF assms(2-4)]], rotated 2]) auto
next
  case (staged key co tp pt n r)
  then show ?thesis by (rule wp_run [OF stage_offset_ok [OF assms(4)], rotated])
next
  case (committed r)
  then show ?thesis by (intro wp_run [OF txn_commit_ok [OF assms(2-4)]])
next
  case (aborted r)
  show ?thesis by (rule wp_run [OF wp_mono [OF txn_abort_ok [OF assms(2-4) aborted(2)]] aborted(1)]) auto
next
  case (closed r)
  then show ?thesis by (intro wp_run [OF txn_close_ok [OF assms(2-4)]])
next
  case other
  then show ?thesis by (rule txn_ok_other [OF assms(4)])
qed

lemma calls_only_mono: "(\<And>c. P c \<Longrightarrow> Q c) \<Longrightarrow> calls_only P w w' \<Longrightarrow> calls_only Q w w'"
  by (auto simp: calls_only_def list_all_iff)

text \<open>A publication through the bridge's producer is such another step.\<close>

lemma publish_txn_step:
  assumes "publish g cmd override w = (r, w')" shows "txn_step g p w w'"
proof (rule txn_step.other)
  have "txn_neutral c" if "publish_call c" for c using that by (cases c) (auto simp: telemetry_call_def)
  then show "calls_only txn_neutral w w'"
    by (rule calls_only_mono [OF _ keepsD [OF publish_calls assms]])
  show "bridge w' = bridge w"
    by (rule unchangedD [OF publish_unchanged assms]) (rule ignores_bridge, simp add: bridge_def)
qed

section \<open>Properties\<close>


text \<open>
  C7. A commit that returns has sent exactly the staged offsets, sorted by topic and partition
  and before the commit, in one call, and nothing when none were staged. A commit that raises
  has made the abort its last call and raises a failure of the adapter. Either way the bridge is
  idle afterwards, its lease released.
\<close>

theorem txn_commit_atomic:
  assumes "quiet_sink (g_env g)" and "env_returns (g_env g)" and "txn_ok (g_env g) p w"
    and "small (int (length (txn_offsets w)))" and "txn_active w" and "txn_commit g p w = (r, w')"
  shows "\<not> txn_active w' \<and> \<not> txn_lease w' \<and> txn_offsets w' = []
    \<and> (case r of
        Inr _ \<Rightarrow> \<exists>ev. hist w' = SinkEmit ev # UtcNow # CommitTransaction p (txn_timeout g) # sends g p w @ hist w
      | Inl x \<Rightarrow> is_meridian x \<and> hd (hist w') = AbortTransaction p (txn_timeout g))"
proof -
  let ?idle = "\<lambda>w'. \<not> txn_active w' \<and> \<not> txn_lease w' \<and> txn_offsets w' = []"
  have "wp (txn_commit g p)
      (\<lambda>_ w'. ?idle w' \<and> (\<exists>ev. hist w' = SinkEmit ev # UtcNow # CommitTransaction p (txn_timeout g) # sends g p w @ hist w))
      (\<lambda>x w'. ?idle w' \<and> is_meridian x \<and> hd (hist w') = AbortTransaction p (txn_timeout g)) w"
    by (rule wp_txn_commit [OF assms(1-5)]) (simp_all add: txn_finish_def cleared_def)
  then show ?thesis using assms(6) by (cases r) (auto simp: wp_def)
qed

lemma stage_offset_Inr:
  assumes "stage_offset g key co tp pt n w = (Inr u, w')"
  shows "txn_offsets w' = dset (tp, pt) (max n (dget (txn_offsets w) (tp, pt) 0)) (txn_offsets w)"
    and "txn_group_key w' = Some key" and "txn_active w'"
  using assms
  by (auto simp: stage_offset_def op_defs request_def push_def Let_def split: if_splits option.splits)

lemma staged_all:
  assumes "forM xs (\<lambda>((tp, pt), n). stage_offset g key co tp pt n) w = (Inr u, w')"
  shows "map_of (txn_offsets w') c = (case map snd (filter (\<lambda>x. fst x = c) xs) of
      [] \<Rightarrow> map_of (txn_offsets w) c
    | os \<Rightarrow> Some (fold max os (dget (txn_offsets w) c 0)))
    \<and> (xs \<noteq> [] \<longrightarrow> txn_group_key w' = Some key \<and> txn_active w')"
  using assms
proof (induction xs arbitrary: w u)
  case (Cons x xs)
  obtain tp pt n where x: "x = ((tp, pt), n)" by (metis prod.collapse)
  from Cons.prems obtain v w1 where one: "stage_offset g key co tp pt n w = (Inr v, w1)"
    and rest: "forM xs (\<lambda>((tp, pt), n). stage_offset g key co tp pt n) w1 = (Inr u, w')"
    by (auto simp: x bindM_def split: prod.splits sum.splits)
  have u: "u = ()" by simp
  show ?case
    using Cons.IH [OF rest] stage_offset_Inr [OF one] rest
    by (auto simp: x dget_def retM_def max.commute split: list.splits)
qed (simp add: retM_def)

text \<open>
  Staging is cumulative and independent of order: after any sequence of stagings the offset
  kept for a partition is the largest one staged for it, and the transaction belongs to one
  ConsumerGroup: staging for another is refused with \<open>KafkaTransactionAborted\<close> and changes nothing.
\<close>

theorem staged_maximum:
  assumes "forM xs (\<lambda>((tp, pt), n). stage_offset g key co tp pt n) w = (Inr u, w')" and "txn_offsets w = []"
    and "(c, off) \<in> set xs"
  shows "map_of (txn_offsets w') c = Some (Max (insert 0 (snd ` {x \<in> set xs. fst x = c})))
    \<and> (key' \<noteq> key \<longrightarrow> stage_offset g key' co' tp' pt' n' w' = (Inl (raised_retryable KafkaTransactionAborted False), w'))"
proof -
  let ?os = "map snd (filter (\<lambda>x. fst x = c) xs)"
  have ne: "?os \<noteq> []" using assms(3) by (force simp: filter_empty_conv)
  then have "map_of (txn_offsets w') c = Some (fold max ?os 0)"
    using staged_all [OF assms(1), of c] assms(2) by (auto simp: dget_def split: list.splits)
  also have "fold max ?os 0 = Max (insert 0 (set ?os))" by (simp only: Max.set_eq_fold list.set [symmetric])
  also have "set ?os = snd ` {x \<in> set xs. fst x = c}" by auto
  finally show ?thesis
    using staged_all [OF assms(1), of c] assms(3) by (auto simp: stage_offset_def op_defs)
qed

text \<open>
  A telemetry sink that raises breaks the lease: \<open>begin\<close> then raises with the lease released
  but the transaction open and the bridge active, and the next \<open>begin\<close> starts a transaction
  inside the open one.
\<close>

theorem begin_sink_leak:
  fixes w :: "'a txn_world_scheme"
  assumes "\<not> txn_lease w" and "\<forall>q h. e_raises (g_env g) (BeginTransaction q # h) = None"
    and "\<forall>ev h. e_raises (g_env g) (SinkEmit ev # h) = Some x" and "x \<noteq> Diverged"
  shows "\<exists>w'. txn_begin g p w = (Inl (normalize_kafka_error (g_attrs g) (Failed x) (Some txn_contract)), w')
    \<and> txn_active w' \<and> \<not> txn_lease w' \<and> \<not> txn_conforms (g_env g) p (hist (snd (txn_begin g p w')))"
proof -
  let ?n = "normalize_kafka_error (g_attrs g) (Failed x) (Some txn_contract)"
  let ?b = "\<lambda>w'. txn_active w' \<and> \<not> txn_lease w' \<and> txn_in_progress (g_env g) p (hist w')"
  have emits: "wp (emit (g_env g) ''meridian.kafka.transaction.began'' [(''active'', TBool True)])
      (\<lambda>_ _. False) (\<lambda>y u. y = x \<and> (\<exists>evs ev. u = v\<lparr>tel_events := evs, hist := SinkEmit ev # UtcNow # hist v\<rparr>)) v"
    for v :: "'a txn_world_scheme"
    using assms(3) by (intro wp_emit txn_attributes txn_event_names) (auto simp: Let_def)
  have "wp (txn_begin g p) (\<lambda>_ _. False) (\<lambda>y w'. y = ?n \<and> ?b w' \<and> (\<exists>cs. hist w' = cs @ BeginTransaction p # hist v)) v"
    if "\<not> txn_lease v" for v :: "'a txn_world_scheme"
    using that assms(2,4)
    by (auto simp: txn_begin_def wp_simps cleared_def push_def intro!: wp_mono [OF emits])
  note begins = this
  obtain w' where w': "txn_begin g p w = (Inl ?n, w')" "?b w'"
    using begins [OF assms(1)] by (auto simp: wp_def split: prod.splits sum.splits)
  obtain cs where "hist (snd (txn_begin g p w')) = cs @ BeginTransaction p # hist w'"
    using begins [of w'] w'(2) by (auto simp: wp_def split: prod.splits sum.splits)
  moreover have "txn_conforms (g_env g) p (cs @ h) \<Longrightarrow> txn_conforms (g_env g) p h" for cs h by (induction cs) auto
  ultimately have "\<not> txn_conforms (g_env g) p (hist (snd (txn_begin g p w')))" using w'(2) by fastforce
  then show ?thesis using w' by blast
qed

text \<open>
  A sink that raises after the commit makes a committed transaction look aborted: the broker
  has committed, the bridge then calls abort and raises.
\<close>

theorem commit_sink_misreport:
  assumes "txn_ok (g_env g) p w" and "txn_active w" and "small (int (length (txn_offsets w)))"
    and "\<forall>h q tps md t. e_raises (g_env g) (SendOffsets q tps md t # h) = None"
    and "\<forall>h q t. e_raises (g_env g) (CommitTransaction q t # h) = None"
    and "\<forall>ev h. e_raises (g_env g) (SinkEmit ev # h) = Some x" and "env_returns (g_env g)"
  shows "\<exists>ev w'. txn_commit g p w = (Inl (normalize_kafka_error (g_attrs g) (Failed x) (Some txn_contract)), w')
    \<and> hist w' = AbortTransaction p (txn_timeout g) # SinkEmit ev # UtcNow
        # CommitTransaction p (txn_timeout g) # sends g p w @ hist w"
proof -
  let ?t = "txn_timeout g" and ?N = "\<lambda>x. normalize_kafka_error (g_attrs g) (Failed x) (Some txn_contract)"
  let ?E = "\<lambda>y w'. y = ?N x \<and> (\<exists>ev. hist w' = AbortTransaction p ?t # SinkEmit ev # UtcNow
        # CommitTransaction p ?t # sends g p w @ hist w)"
  have md: "txn_offsets w \<noteq> [] \<longrightarrow> txn_group_metadata w \<noteq> None" using assms(1) by (simp add: txn_ok_def)
  have x: "x \<noteq> Diverged" using assms(6,7) by (metis env_returns_def)
  have "wp (bindM (send_staged g p) (\<lambda>_.
          bindM (command (g_env g) (CommitTransaction p ?t)) (\<lambda>_.
          bindM (getM txn_offsets) (\<lambda>offsets.
          emit (g_env g) ''meridian.kafka.transaction.committed''
            [(''offsetCount'', TInt (int (length offsets)))]))))
      (\<lambda>_ _. False) (\<lambda>y t. y \<noteq> Diverged \<and> ?E (?N y) (txn_finish (push (AbortTransaction p ?t) t))) w"
    unfolding wp_bind [of "send_staged g p"]
  proof (rule wp_send_staged [OF md])
    show "e_raises (g_env g) (sends g p w @ hist w) = Some y \<Longrightarrow> sends g p w \<noteq> [] \<Longrightarrow> z" for y z
      using assms(4) by (auto simp: sends_def split: option.splits if_splits)
  qed (use assms(3,5,6) x in \<open>auto simp: wp_simps push_def txn_finish_def cleared_def Let_def
      intro!: wp_emit txn_attributes txn_event_names\<close>)
  from wp_try_abort [where f = txn_finish and c = "AbortTransaction p ?t" and E = ?E and Q = "\<lambda>_ _. False",
      OF assms(7) normalized_finite this]
  have "wp (txn_commit g p) (\<lambda>_ _. False) ?E w"
    unfolding txn_commit_def wp_bind [of "getM txn_active"] wp_get using assms(2) by simp
  then show ?thesis by (auto simp: wp_def split: prod.splits sum.splits)
qed

subsection \<open>Witnesses\<close>

definition sample_txn_world :: txn_world where
  "sample_txn_world = \<lparr>hist = [], tel_events = [], tel_maximum = 4, idempotency = [], txn_active = False,
     txn_lease = False, txn_offsets = [], txn_group_metadata = None, txn_group_key = None\<rparr>"

lemma sample_txn_ok: "txn_ok e p sample_txn_world"
  by (simp add: txn_ok_def sample_txn_world_def)

text \<open>A transaction with three stagings on two partitions.\<close>

definition sample_stagings :: "((string \<times> int) \<times> int) list" where
  "sample_stagings = [((''t'', 1), 3), ((''t'', 0), 7), ((''t'', 1), 2)]"

definition sample_txn_staged :: "(exc + unit) \<times> txn_world" where
  "sample_txn_staged = bindM (txn_begin sample_ctx 0) (\<lambda>_.
     forM sample_stagings (\<lambda>((tp, pt), n). stage_offset sample_ctx ''g'' 1 tp pt n)) sample_txn_world"

lemma sample_txn_begun: "\<exists>w. txn_begin sample_ctx 0 sample_txn_world = (Inr (), w) \<and> txn_offsets w = []
    \<and> sample_txn_staged = forM sample_stagings (\<lambda>((tp, pt), n). stage_offset sample_ctx ''g'' 1 tp pt n) w"
proof -
  have "(case txn_begin sample_ctx 0 sample_txn_world of (Inr _, w) \<Rightarrow> txn_offsets w = [] | _ \<Rightarrow> False)" by code_simp
  then show ?thesis by (auto simp: sample_txn_staged_def bindM_def split: prod.splits sum.splits)
qed

lemma sample_txn_staged:
  "fst sample_txn_staged = Inr ()" "txn_active (snd sample_txn_staged)"
  "txn_offsets (snd sample_txn_staged) = [((''t'', 1), 3), ((''t'', 0), 7)]"
  "sends sample_ctx 0 (snd sample_txn_staged) = [SendOffsets 0 [(''t'', 0, 7), (''t'', 1, 3)] ''x'' 1]"
  by code_simp+

lemma sample_txn_reached: "(txn_step sample_ctx 0)\<^sup>*\<^sup>* sample_txn_world (snd sample_txn_staged)"
proof -
  have steps: "(txn_step sample_ctx 0)\<^sup>*\<^sup>* w
      (snd (forM xs (\<lambda>((tp, pt), n). stage_offset sample_ctx ''g'' 1 tp pt n) w))" for xs and w :: txn_world
  proof (induction xs arbitrary: w)
    case (Cons x xs)
    obtain tp pt n where x: "x = ((tp, pt), n)" by (metis prod.collapse)
    obtain r w1 where one: "stage_offset sample_ctx ''g'' 1 tp pt n w = (r, w1)" by force
    have "txn_step sample_ctx 0 w w1" using one by (rule txn_step.staged)
    then show ?case using Cons [of w1] one
      by (cases r) (auto simp: x bindM_def intro: converse_rtranclp_into_rtranclp)
  qed (simp add: retM_def)
  obtain w where w: "txn_begin sample_ctx 0 sample_txn_world = (Inr (), w)"
      "sample_txn_staged = forM sample_stagings (\<lambda>((tp, pt), n). stage_offset sample_ctx ''g'' 1 tp pt n) w"
    using sample_txn_begun by blast
  have "txn_step sample_ctx 0 sample_txn_world w" using w(1) by (rule txn_step.begun)
  then show ?thesis unfolding w(2) by (rule converse_rtranclp_into_rtranclp [OF _ steps])
qed


lemma sample_staged_ok: "txn_ok (g_env sample_ctx) 0 (snd sample_txn_staged)"
proof -
  have "txn_ok (g_env sample_ctx) 0 w'" if "(txn_step sample_ctx 0)\<^sup>*\<^sup>* sample_txn_world w'" for w'
    using that by (induction rule: rtranclp_induct) (use sample_txn_ok sample_ctx_env txn_step_ok in blast)+
  then show ?thesis using sample_txn_reached by blast
qed

theorem txn_commit_atomic_witness:
  "\<exists>ev w'. txn_commit sample_ctx 0 (snd sample_txn_staged) = (Inr (), w') \<and> \<not> txn_lease w'
    \<and> hist w' = SinkEmit ev # UtcNow # CommitTransaction 0 (txn_timeout sample_ctx)
        # SendOffsets 0 [(''t'', 0, 7), (''t'', 1, 3)] ''x'' 1 # hist (snd sample_txn_staged)"
proof -
  obtain r w' where c: "txn_commit sample_ctx 0 (snd sample_txn_staged) = (r, w')" by force
  have s: "small (int (length (txn_offsets (snd sample_txn_staged))))"
    by (simp add: sample_txn_staged(3) small_def)
  have "\<not> isl (fst (txn_commit sample_ctx 0 (snd sample_txn_staged)))" by code_simp
  then have r: "r = Inr ()" using c by (cases r) auto
  show ?thesis
    using txn_commit_atomic [OF sample_ctx_env(1,2) sample_staged_ok s sample_txn_staged(2) c] c
    by (simp add: r sample_txn_staged(4))
qed

theorem staged_maximum_witness:
  "map_of (txn_offsets (snd sample_txn_staged)) (''t'', 1) = Some 3
   \<and> stage_offset sample_ctx ''other'' 1 ''t'' 0 9 (snd sample_txn_staged)
     = (Inl (raised_retryable KafkaTransactionAborted False), snd sample_txn_staged)"
proof -
  obtain w where w: "txn_offsets w = []"
      "sample_txn_staged = forM sample_stagings (\<lambda>((tp, pt), n). stage_offset sample_ctx ''g'' 1 tp pt n) w"
    using sample_txn_begun by blast
  then have f: "forM sample_stagings (\<lambda>((tp, pt), n). stage_offset sample_ctx ''g'' 1 tp pt n) w
      = (Inr (), snd sample_txn_staged)" using sample_txn_staged(1) by (metis prod.collapse)
  have "((''t'', 1), 3) \<in> set sample_stagings" by (simp add: sample_stagings_def)
  moreover have "{x \<in> set sample_stagings. fst x = (''t'', 1)} = {((''t'', 1), 3), ((''t'', 1), 2)}"
    by (auto simp: sample_stagings_def)
  ultimately show ?thesis
    using staged_maximum [OF f w(1), of "(''t'', 1)" 3 "''other''" 1 "''t''" 0 9] by simp
qed

text \<open>The same environment with a sink that always raises.\<close>

definition noisy_ctx :: ctx where
  "noisy_ctx = sample_ctx\<lparr>g_env := (g_env sample_ctx)\<lparr>e_raises :=
     (\<lambda>h. case h of SinkEmit _ # _ \<Rightarrow> Some (PyExc ValueError) | _ \<Rightarrow> None)\<rparr>\<rparr>"

theorem begin_sink_leak_witness:
  "\<exists>w'. txn_begin noisy_ctx 0 sample_txn_world
      = (Inl (normalize_kafka_error (g_attrs noisy_ctx) (Failed (PyExc ValueError)) (Some txn_contract)), w')
    \<and> txn_active w' \<and> \<not> txn_lease w'"
  using begin_sink_leak [of sample_txn_world noisy_ctx "PyExc ValueError" 0]
  by (auto simp: noisy_ctx_def sample_txn_world_def)

theorem commit_sink_misreport_witness:
  "\<exists>ev w'. txn_commit noisy_ctx 0 (snd sample_txn_staged)
      = (Inl (normalize_kafka_error (g_attrs noisy_ctx) (Failed (PyExc ValueError)) (Some txn_contract)), w')
    \<and> take 4 (hist w') = [AbortTransaction 0 (txn_timeout noisy_ctx), SinkEmit ev, UtcNow,
        CommitTransaction 0 (txn_timeout noisy_ctx)]"
proof -
  have "txn_ok (g_env noisy_ctx) 0 (snd sample_txn_staged)"
  proof -
    have "txn_conforms (g_env noisy_ctx) 0 (hist (snd sample_txn_staged))"
      "txn_in_progress (g_env noisy_ctx) 0 (hist (snd sample_txn_staged))" by code_simp+
    then show ?thesis using sample_staged_ok sample_txn_staged(2) by (simp add: txn_ok_def)
  qed
  moreover have "small (int (length (txn_offsets (snd sample_txn_staged))))"
    by (simp add: sample_txn_staged(3) small_def)
  moreover have "env_returns (g_env noisy_ctx)"
    by (auto simp: env_returns_def noisy_ctx_def split: list.splits call.splits)
  ultimately obtain ev w' where
    "txn_commit noisy_ctx 0 (snd sample_txn_staged)
      = (Inl (normalize_kafka_error (g_attrs noisy_ctx) (Failed (PyExc ValueError)) (Some txn_contract)), w')"
    "hist w' = AbortTransaction 0 (txn_timeout noisy_ctx) # SinkEmit ev # UtcNow
      # CommitTransaction 0 (txn_timeout noisy_ctx) # sends noisy_ctx 0 (snd sample_txn_staged) @ hist (snd sample_txn_staged)"
    using commit_sink_misreport [of noisy_ctx 0 "snd sample_txn_staged" "PyExc ValueError"] sample_txn_staged(2)
    by (auto simp: noisy_ctx_def)
  then show ?thesis by auto
qed

end
