(* ===== verification/Consumer.thy ===== *)
theory Consumer
  imports Transactions
begin

text \<open>
  \<^verbatim>\<open>consumer/__init__.py\<close>, the group consumer: deliveries, acknowledgement with safe positions,
  redelivery, dead letters, rebalances and the group position.

  The engine maps a Subscription and a ConsumerGroup to a \<open>_GroupState\<close>, a mutable object. An
  operation takes the object of its group into the field \<open>grp\<close>, works on it there, and what it
  leaves in \<open>grp\<close>, whether it returns or raises, is the object afterwards (\<open>stored\<close>). Rebalance
  callbacks run inside the client's \<open>poll\<close> and \<open>close\<close>. Locks are left out: operations are run one
  after the other. A Python set of integers is a list without duplicates.
\<close>

section \<open>State\<close>

record inflight =
  if_event :: event
  if_attempt :: int
  if_assignment_epoch :: int
  if_expires_at_ms :: int

record paused_delivery =
  pd_offset :: int
  pd_resume_at :: rat

record group_state =
  gs_command :: poll_command
  gs_consumer :: client
  gs_assignment_epoch :: int
  gs_assigned :: "int list"
  gs_inflight :: "(int \<times> int, inflight) dict"
  gs_attempts :: "(int \<times> int, int) dict"
  gs_acknowledged :: "(int, int list) dict"
  gs_safe_next :: "(int, int) dict"
  gs_paused :: "(int, paused_delivery) dict"

definition new_group_state :: "poll_command \<Rightarrow> client \<Rightarrow> group_state" where
  "new_group_state cmd consumer = \<lparr>gs_command = cmd, gs_consumer = consumer, gs_assignment_epoch = 0,
     gs_assigned = [], gs_inflight = [], gs_attempts = [], gs_acknowledged = [], gs_safe_next = [], gs_paused = []\<rparr>"

record consumer_world = txn_world +
  states :: "(ref \<times> ref, group_state) dict"
  engine_closed :: bool
  grp :: group_state

type_synonym ('w, 'a) group_op = "(exc, 'w consumer_world_scheme, 'a) op"

definition grpM :: "(group_state \<Rightarrow> 'a) \<Rightarrow> ('w, 'a) group_op" where
  "grpM f = getM (\<lambda>w. f (grp w))"

definition updM :: "(group_state \<Rightarrow> group_state) \<Rightarrow> ('w, unit) group_op" where
  "updM f = modM (\<lambda>w. w\<lparr>grp := f (grp w)\<rparr>)"

definition gs_topic :: "group_state \<Rightarrow> string" where
  "gs_topic s = ps_topic (poll_stream (gs_command s))"

record group_delivery =
  gd_event :: event
  gd_token :: delivery_token
  gd_position :: position
  gd_attempt :: int
  gd_redelivered :: bool
  gd_delivered_at :: string
  gd_expires_at :: int

section \<open>Reading messages\<close>

definition msg_header :: "message \<Rightarrow> string \<Rightarrow> string option" where
  "msg_header m name = (case m_headers m of None \<Rightarrow> None
   | Some hs \<Rightarrow> (case map_of hs name of None \<Rightarrow> None | Some v \<Rightarrow> v))"

text \<open>\<open>value.decode("ascii", errors="ignore")\<close>\<close>

definition ascii_only :: "string \<Rightarrow> string" where
  "ascii_only s = filter (\<lambda>c. (of_char c :: nat) < 128) s"

definition decode_event :: "core \<Rightarrow> message \<Rightarrow> physical_stream \<Rightarrow> exc + event" where
  "decode_event c m strm = (case m_value m of
     None \<Rightarrow> Inl (raised InvalidEvent)
   | Some raw \<Rightarrow>
       if length raw > 16 * 1024 * 1024 then Inl (raised InvalidEvent)
       else bindE (exceptE c [TypeError, ValueError, UnicodeError, JSONDecodeError] (raised InvalidEvent)
         (bindE (json_loads raw) (\<lambda>decoded. case decoded of
            JObj _ \<Rightarrow> event_parse c decoded
          | _ \<Rightarrow> Inl (PyExc TypeError)))) (\<lambda>ev.
       if ev_stream ev \<noteq> ps_ref strm then Inl (raised InvalidEvent)
       else case msg_header m ''meridian.schema-fingerprint'' of
         None \<Rightarrow> Inl (raised_for InvalidEvent ''event.schema-fingerprint'')
       | Some fp \<Rightarrow> if ascii_only fp \<notin> set (ps_compatible_schema_fingerprints strm)
           then Inl (raised_for InvalidEvent ''event.schema-fingerprint'')
           else Inr ev))"

definition partition_eof :: "ctx \<Rightarrow> kerr \<Rightarrow> bool" where
  "partition_eof g err \<longleftrightarrow> g_attrs g ''_PARTITION_EOF'' = Some (ke_code err)"

definition partition_ids :: "attrs \<Rightarrow> cluster_metadata \<Rightarrow> string \<Rightarrow> exc + int list" where
  "partition_ids a metadata topic = (case metadata of
     None \<Rightarrow> Inl (raised RetentionBoundaryExceeded)
   | Some topics \<Rightarrow> (case map_of topics topic of
       None \<Rightarrow> Inl (raised RetentionBoundaryExceeded)
     | Some tm \<Rightarrow> (case tm_error tm of
         Some error \<Rightarrow> Inl (normalize_kafka_error a (KafkaErrorValue error) (Some ''meridian.streaming.read-range''))
       | None \<Rightarrow> (case tm_partitions tm of
           None \<Rightarrow> Inl (raised RetentionBoundaryExceeded)
         | Some parts \<Rightarrow>
             if parts = [] \<or> list_ex (\<lambda>v. v < 0) parts then Inl (raised RetentionBoundaryExceeded)
             else Inr (sort parts)))))"

text \<open>A cursor, or else a single position.\<close>

definition decode_positions :: "ctx \<Rightarrow> json \<Rightarrow> physical_stream \<Rightarrow> (exc, 'w world_scheme, (int, int) dict) op" where
  "decode_positions g value strm =
     bindM (now_ms (g_env g)) (\<lambda>now.
     case decode_cursor (g_core g) (g_digests g) (g_codec g) value (ps_ref strm) (ps_topic strm) now of
       Inr co \<Rightarrow> retM (cc_positions co)
     | Inl cursor_error \<Rightarrow>
         if \<not> has_kind InvalidCursor cursor_error then throwM cursor_error
         else bindM (now_ms (g_env g)) (\<lambda>now'.
           case decode_position (g_core g) (g_digests g) (g_codec g) value (ps_ref strm) (ps_topic strm) now' of
             Inr po \<Rightarrow> retM [(pc_partition po, pc_offset po)]
           | Inl x \<Rightarrow> throwM (if has_kind InvalidCursor x then cursor_error else x)))"

section \<open>Rebalances\<close>

definition assigned_update :: "topic_partition list \<Rightarrow> group_state \<Rightarrow> group_state" where
  "assigned_update ps s = s\<lparr>gs_assignment_epoch := gs_assignment_epoch s + 1,
     gs_assigned := remdups (map (\<lambda>(_, p, _). p) ps)\<rparr>"

definition revoked_update :: "topic_partition list \<Rightarrow> group_state \<Rightarrow> group_state" where
  "revoked_update ps s = (let gone = map (\<lambda>(_, p, _). p) ps in
     s\<lparr>gs_assignment_epoch := gs_assignment_epoch s + 1,
       gs_assigned := filter (\<lambda>p. p \<notin> set gone) (gs_assigned s),
       gs_inflight := dfilter (\<lambda>key. fst key \<notin> set gone) (gs_inflight s),
       gs_attempts := dfilter (\<lambda>key. fst key \<notin> set gone) (gs_attempts s),
       gs_acknowledged := dfilter (\<lambda>p. p \<notin> set gone) (gs_acknowledged s),
       gs_paused := dfilter (\<lambda>p. p \<notin> set gone) (gs_paused s)\<rparr>)"

definition rebalance_evidence :: "ctx \<Rightarrow> string \<Rightarrow> topic_partition list \<Rightarrow> ('w, unit) group_op" where
  "rebalance_evidence g name ps = bindM (grpM gs_assignment_epoch) (\<lambda>epoch.
     emit (g_env g) name [(''partitionCount'', TInt (int (length ps))), (''assignmentEpoch'', TInt epoch)])"

definition on_assigned :: "ctx \<Rightarrow> topic_partition list \<Rightarrow> ('w, unit) group_op" where
  "on_assigned g ps =
     bindM (updM (assigned_update ps)) (\<lambda>_.
     bindM (grpM gs_consumer) (\<lambda>consumer.
     bindM (command (g_env g) (Assign consumer ps)) (\<lambda>_.
     rebalance_evidence g ''meridian.kafka.rebalance.assigned'' ps)))"

definition on_revoked :: "ctx \<Rightarrow> topic_partition list \<Rightarrow> ('w, unit) group_op" where
  "on_revoked g ps =
     bindM (updM (revoked_update ps)) (\<lambda>_.
     bindM (grpM gs_consumer) (\<lambda>consumer.
     bindM (command (g_env g) (Unassign consumer)) (\<lambda>_.
     rebalance_evidence g ''meridian.kafka.rebalance.revoked'' ps)))"

fun on_rebalance :: "ctx \<Rightarrow> rebalance \<Rightarrow> ('w, unit) group_op" where
  "on_rebalance g (OnAssign ps) = on_assigned g ps"
| "on_rebalance g (OnRevoke ps) = on_revoked g ps"

text \<open>A client call that serves rebalance callbacks before it returns or raises.\<close>

definition serving :: "ctx \<Rightarrow> call \<Rightarrow> (history \<Rightarrow> 'a) \<Rightarrow> ('w, 'a) group_op" where
  "serving g c answer =
     bindM (ask c (\<lambda>h. (e_rebalances (g_env g) h, e_raises (g_env g) h, answer h))) (\<lambda>(rebalances, failure, result).
     bindM (forM rebalances (on_rebalance g)) (\<lambda>_.
     case failure of Some x \<Rightarrow> throwM x | None \<Rightarrow> retM result))"

section \<open>The state of a group\<close>

definition state_key :: "poll_command \<Rightarrow> ref \<times> ref" where
  "state_key cmd = (sub_ref (poll_subscription cmd), cg_ref (poll_consumer_group cmd))"

definition ensure_state :: "ctx \<Rightarrow> poll_command \<Rightarrow> ('w, unit) group_op" where
  "ensure_state g cmd =
     bindM (getM engine_closed) (\<lambda>closed.
     if closed then throwM (PyExc RuntimeError)
     else bindM (getM (\<lambda>w. map_of (states w) (state_key cmd))) (\<lambda>found.
     case found of
       Some s \<Rightarrow> modM (\<lambda>w. w\<lparr>grp := s\<rparr>)
     | None \<Rightarrow>
         bindM (liftE (consumer_config (g_settings g) (cg_group_id (poll_consumer_group cmd)) False)) (\<lambda>cfg.
         bindM (request (g_env g) (ConsumerCreate cfg) (\<lambda>h. length h - 1)) (\<lambda>consumer.
         bindM (modM (\<lambda>w. w\<lparr>grp := new_group_state cmd consumer\<rparr>)) (\<lambda>_.
         bindM (command (g_env g) (Subscribe consumer (ps_topic (poll_stream cmd)))) (\<lambda>_.
         modM (\<lambda>w. w\<lparr>states := dset (state_key cmd) (grp w) (states w)\<rparr>)))))))"

definition existing_state :: "ref \<times> ref \<Rightarrow> ('w, unit) group_op" where
  "existing_state key = bindM (getM (\<lambda>w. map_of (states w) key)) (\<lambda>found.
     case found of None \<Rightarrow> throwM (raised DeliveryRejected) | Some s \<Rightarrow> modM (\<lambda>w. w\<lparr>grp := s\<rparr>))"

text \<open>What the body leaves in \<open>grp\<close> is the group's object, also when it raises.\<close>

definition stored :: "ref \<times> ref \<Rightarrow> ('w, 'a) group_op \<Rightarrow> ('w, 'a) group_op" where
  "stored key m = (\<lambda>w. case m w of (r, w') \<Rightarrow> (r, w'\<lparr>states := dset key (grp w') (states w')\<rparr>))"

section \<open>Delivery\<close>

definition delivered_update :: "int \<times> int \<Rightarrow> int \<Rightarrow> group_state \<Rightarrow> group_state" where
  "delivered_update key attempt s = s\<lparr>gs_attempts := dset key attempt (gs_attempts s),
     gs_safe_next := dsetdefault (fst key) (snd key) (gs_safe_next s)\<rparr>"

definition deliver_event :: "ctx \<Rightarrow> message \<Rightarrow> ('w, group_delivery option) group_op" where
  "deliver_event g m =
     bindM (getM grp) (\<lambda>s. let strm = poll_stream (gs_command s); key = (m_partition m, m_offset m) in
     bindM (liftE (decode_event (g_core g) m strm)) (\<lambda>ev. let attempt = dget (gs_attempts s) key 0 + 1 in
     bindM (updM (delivered_update key attempt)) (\<lambda>_.
     bindM (now_ms (g_env g)) (\<lambda>now.
     let expires_at_ms = now + sub_acknowledgement_timeout_ms (poll_subscription (gs_command s)) in
     bindM (now_ms (g_env g)) (\<lambda>issued.
     bindM (liftE (encode_delivery (g_core g) (g_digests g) (g_codec g) (sub_ref (poll_subscription (gs_command s)))
       (cg_ref (poll_consumer_group (gs_command s))) (ps_topic strm) (m_partition m) (m_offset m)
       (gs_assignment_epoch s) attempt expires_at_ms issued)) (\<lambda>token.
     bindM (now_ms (g_env g)) (\<lambda>issued'.
     bindM (liftE (encode_position (g_core g) (g_digests g) (g_codec g) (ps_ref strm) (ps_topic strm)
       (m_partition m) (m_offset m) (ev_logical_partition_key ev) issued')) (\<lambda>pos.
     bindM (updM (\<lambda>s. s\<lparr>gs_inflight := dset key \<lparr>if_event = ev, if_attempt = attempt,
       if_assignment_epoch = gs_assignment_epoch s, if_expires_at_ms = expires_at_ms\<rparr> (gs_inflight s)\<rparr>)) (\<lambda>_.
     bindM (ask UtcNow (e_text (g_env g))) (\<lambda>stamp.
     retM (Some \<lparr>gd_event = ev, gd_token = token, gd_position = pos, gd_attempt = attempt,
       gd_redelivered = (attempt > 1), gd_delivered_at = stamp, gd_expires_at = dt_expires_at token\<rparr>)))))))))))"

definition group_deliver :: "ctx \<Rightarrow> message \<Rightarrow> ('w, group_delivery option) group_op" where
  "group_deliver g m =
     bindM (getM grp) (\<lambda>s.
     if m_topic m \<noteq> gs_topic s then throwM (raised InvalidEvent)
     else case map_of (gs_paused s) (m_partition m) of
       Some paused \<Rightarrow>
         if pd_offset paused = m_offset m
         then bindM (monotonic (g_env g)) (\<lambda>now.
           if pd_resume_at paused > now
           then bindM (command (g_env g) (Seek (gs_consumer s) (gs_topic s, m_partition m, m_offset m))) (\<lambda>_. retM None)
           else bindM (updM (\<lambda>s. s\<lparr>gs_paused := dpop (m_partition m) (gs_paused s)\<rparr>)) (\<lambda>_. deliver_event g m))
         else deliver_event g m
     | None \<Rightarrow> deliver_event g m)"

definition resume_due :: "ctx \<Rightarrow> ('w, unit) group_op" where
  "resume_due g =
     bindM (monotonic (g_env g)) (\<lambda>now.
     bindM (getM grp) (\<lambda>s.
     forM (gs_paused s) (\<lambda>(part, paused).
       whenM (\<not> pd_resume_at paused > now)
         (bindM (command (g_env g) (Seek (gs_consumer s) (gs_topic s, part, pd_offset paused))) (\<lambda>_.
          bindM (command (g_env g) (Resume (gs_consumer s) (gs_topic s, part, pd_offset paused))) (\<lambda>_.
          updM (\<lambda>s. s\<lparr>gs_paused := dpop part (gs_paused s)\<rparr>)))))))"

definition rewinds :: "(int \<times> int) list \<Rightarrow> (int, int) dict" where
  "rewinds expired = fold (\<lambda>(part, off) d. dset part (min off (dget d part off)) d) expired []"

definition rewound_update :: "int \<Rightarrow> int \<Rightarrow> group_state \<Rightarrow> group_state" where
  "rewound_update part off s = s\<lparr>
     gs_inflight := dfilter (\<lambda>key. fst key \<noteq> part \<or> snd key < off) (gs_inflight s),
     gs_acknowledged := dset part (filter (\<lambda>a. a < off) (dget (gs_acknowledged s) part [])) (gs_acknowledged s)\<rparr>"

definition expire_inflight :: "ctx \<Rightarrow> ('w, unit) group_op" where
  "expire_inflight g =
     bindM (now_ms (g_env g)) (\<lambda>now.
     bindM (getM grp) (\<lambda>s.
     let expired = map fst (filter (\<lambda>(key, item). if_expires_at_ms item \<le> now) (gs_inflight s));
         rewind = rewinds expired
     in whenM (expired \<noteq> [])
       (bindM (forM rewind (\<lambda>(part, off).
          bindM (command (g_env g) (Seek (gs_consumer s) (gs_topic s, part, off))) (\<lambda>_.
          updM (rewound_update part off)))) (\<lambda>_.
        emit (g_env g) ''meridian.kafka.delivery.expired''
          [(''deliveryCount'', TInt (int (length expired))), (''partitionCount'', TInt (int (length rewind)))]))))"

text \<open>Lag over the assigned partitions; a partition whose watermarks cannot be read is skipped.\<close>

fun lag_of :: "ctx \<Rightarrow> group_state \<Rightarrow> int list \<Rightarrow> int \<Rightarrow> ('w, int) group_op" where
  "lag_of g s [] lag = retM lag"
| "lag_of g s (part # parts) lag =
     bindM (exceptM (bindM (request (g_env g) (Watermarks (gs_consumer s) (gs_topic s) part) (e_watermarks (g_env g)))
         (\<lambda>marks. retM (Some (snd marks)))) (\<lambda>_. retM None)) (\<lambda>high.
     lag_of g s parts (case high of None \<Rightarrow> lag | Some h \<Rightarrow> lag + max 0 (h - dget (gs_safe_next s) part h)))"

definition group_lag :: "ctx \<Rightarrow> ('w, int) group_op" where
  "group_lag g = bindM (getM grp) (\<lambda>s. lag_of g s (gs_assigned s) 0)"

section \<open>Poll\<close>

definition poll_timeout :: "ctx \<Rightarrow> poll_command \<Rightarrow> rat \<Rightarrow> ('w, rat) group_op" where
  "poll_timeout g cmd remaining =
     (let timeout = (if poll_wait_timeout_ms cmd = 0 then 0 else remaining) in
      bindM (grpM gs_paused) (\<lambda>paused.
      if paused = [] then retM timeout
      else bindM (monotonic (g_env g)) (\<lambda>now.
        retM (min timeout (max 0 (Min (set (map (pd_resume_at \<circ> snd) paused)) - now))))))"

fun poll_loop :: "nat \<Rightarrow> ctx \<Rightarrow> poll_command \<Rightarrow> rat \<Rightarrow> group_delivery list \<Rightarrow> ('w, group_delivery list) group_op" where
  "poll_loop 0 g cmd deadline ds = throwM Diverged"
| "poll_loop (Suc fuel) g cmd deadline ds =
     (if \<not> int (length ds) < poll_limit cmd then retM ds
      else bindM (expire_inflight g) (\<lambda>_.
        bindM (resume_due g) (\<lambda>_.
        bindM (monotonic (g_env g)) (\<lambda>now.
        if poll_wait_timeout_ms cmd > 0 \<and> deadline - now \<le> 0 then retM ds
        else bindM (poll_timeout g cmd (deadline - now)) (\<lambda>timeout.
        bindM (grpM gs_consumer) (\<lambda>consumer.
        bindM (normalizedM (g_attrs g) ''meridian.streaming.poll''
          (serving g (ConsumerPoll consumer timeout) (e_message (g_env g)))) (\<lambda>received.
        case received of
          None \<Rightarrow> if poll_wait_timeout_ms cmd = 0 then retM ds else poll_loop fuel g cmd deadline ds
        | Some m \<Rightarrow> (case m_error m of
            Some err \<Rightarrow>
              if partition_eof g err then poll_loop fuel g cmd deadline ds
              else throwM (normalize_kafka_error (g_attrs g) (KafkaErrorValue err) (Some ''meridian.streaming.poll''))
          | None \<Rightarrow> bindM (group_deliver g m) (\<lambda>d.
              poll_loop fuel g cmd deadline (case d of None \<Rightarrow> ds | Some x \<Rightarrow> ds @ [x]))))))))))"

definition poll_group :: "ctx \<Rightarrow> poll_command \<Rightarrow> ('w, group_delivery list) group_op" where
  "poll_group g cmd =
     bindM (monotonic (g_env g)) (\<lambda>start.
     bindM (poll_loop (g_fuel g) g cmd (start + of_int (poll_wait_timeout_ms cmd) / 1000) []) (\<lambda>ds.
     bindM (group_lag g) (\<lambda>lag.
     bindM (emit (g_env g) ''meridian.kafka.poll.completed''
       [(''deliveryCount'', TInt (int (length ds))),
        (''redeliveryCount'', TInt (int (length (filter gd_redelivered ds)))), (''lagRecords'', TInt lag)]) (\<lambda>_.
     retM ds))))"

definition poll :: "ctx \<Rightarrow> poll_command \<Rightarrow> ('w, group_delivery list) group_op" where
  "poll g cmd = bindM (ensure_state g cmd) (\<lambda>_. stored (state_key cmd) (poll_group g cmd))"

section \<open>Acknowledgement\<close>

text \<open>\<open>while safe in acknowledged: acknowledged.remove(safe); safe += 1\<close>\<close>

function advance :: "int list \<Rightarrow> int \<Rightarrow> int list \<times> int" where
  "advance acknowledged safe =
     (if safe \<in> set acknowledged then advance (removeAll safe acknowledged) (safe + 1) else (acknowledged, safe))"
  by auto
termination by (relation "measure (\<lambda>(acknowledged, safe). length acknowledged)") (auto intro: length_removeAll_less)

declare advance.simps [simp del]

definition decode_token :: "ctx \<Rightarrow> 'c acknowledge_command_scheme \<Rightarrow> (exc, 'w world_scheme, delivery_coordinates) op" where
  "decode_token g cmd = bindM (now_ms (g_env g)) (\<lambda>now.
     liftE (decode_delivery (g_core g) (g_digests g) (g_codec g) (ack_delivery cmd) (sub_ref (ack_subscription cmd))
       (cg_ref (ack_consumer_group cmd)) (ps_topic (ack_stream cmd)) now))"

definition ack_key :: "'c acknowledge_command_scheme \<Rightarrow> ref \<times> ref" where
  "ack_key cmd = (sub_ref (ack_subscription cmd), cg_ref (ack_consumer_group cmd))"

definition token_key_of :: "delivery_coordinates \<Rightarrow> int \<times> int" where
  "token_key_of co = (dc_partition co, dc_offset co)"

definition acknowledgeable :: "group_state \<Rightarrow> delivery_coordinates \<Rightarrow> bool" where
  "acknowledgeable s co = (case map_of (gs_inflight s) (token_key_of co) of
     None \<Rightarrow> False
   | Some item \<Rightarrow> if_assignment_epoch item = gs_assignment_epoch s \<and> if_attempt item = dc_attempt co)"

text \<open>
  The acknowledged offset is added, the safe position starts at it when there was none, and the
  contiguous prefix is taken out of the set.
\<close>

definition safe_start :: "int \<Rightarrow> int \<Rightarrow> group_state \<Rightarrow> int" where
  "safe_start part off s = dget (gs_safe_next s) part off"

definition safe_target :: "int \<Rightarrow> int \<Rightarrow> group_state \<Rightarrow> int" where
  "safe_target part off s =
     snd (advance (List.insert off (dget (gs_acknowledged s) part [])) (safe_start part off s))"

definition drained_update :: "int \<Rightarrow> int \<Rightarrow> group_state \<Rightarrow> group_state" where
  "drained_update part off s = s\<lparr>
     gs_acknowledged := dset part
       (fst (advance (List.insert off (dget (gs_acknowledged s) part [])) (safe_start part off s))) (gs_acknowledged s),
     gs_safe_next := dsetdefault part off (gs_safe_next s)\<rparr>"

definition safe_update :: "int \<Rightarrow> int \<Rightarrow> group_state \<Rightarrow> group_state" where
  "safe_update part safe s = s\<lparr>gs_safe_next := dset part safe (gs_safe_next s)\<rparr>"

definition resolved_update :: "int \<times> int \<Rightarrow> group_state \<Rightarrow> group_state" where
  "resolved_update key s = s\<lparr>gs_inflight := dpop key (gs_inflight s), gs_attempts := dpop key (gs_attempts s)\<rparr>"

record ack_result =
  ar_committed :: bool
  ar_safe_position :: position

definition commit_safe :: "ctx \<Rightarrow> 'c acknowledge_command_scheme \<Rightarrow> bool \<Rightarrow> client \<Rightarrow> int \<Rightarrow> int \<Rightarrow> ('w, unit) group_op" where
  "commit_safe g cmd transactional consumer part safe =
     bindM (if \<not> transactional
       then normalizedM (g_attrs g) ''meridian.streaming.acknowledge''
         (command (g_env g) (Commit consumer [(ps_topic (ack_stream cmd), part, safe)]))
       else stage_offset g (ref_str (g_core g) (cg_ref (ack_consumer_group cmd))) consumer (ps_topic (ack_stream cmd)) part safe)
     (\<lambda>_. updM (safe_update part safe))"

definition settle_from :: "ctx \<Rightarrow> 'c acknowledge_command_scheme \<Rightarrow> bool \<Rightarrow> delivery_coordinates \<Rightarrow> group_state \<Rightarrow>
    ('w, ack_result) group_op" where
  "settle_from g cmd transactional co s =
     (let part = dc_partition co; off = dc_offset co;
          original = safe_start part off s; safe = safe_target part off s; committed = safe > original in
      bindM (updM (drained_update part off)) (\<lambda>_.
      bindM (whenM committed (commit_safe g cmd transactional (gs_consumer s) part safe)) (\<lambda>_.
      bindM (updM (resolved_update (part, off))) (\<lambda>_.
      bindM (grpM (\<lambda>s. map_of (gs_safe_next s) part)) (\<lambda>next.
      bindM (liftE (case next of None \<Rightarrow> Inl (PyExc KeyError) | Some n \<Rightarrow> Inr n)) (\<lambda>n.
      bindM (now_ms (g_env g)) (\<lambda>now.
      bindM (liftE (encode_position (g_core g) (g_digests g) (g_codec g) (ps_ref (ack_stream cmd))
        (ps_topic (ack_stream cmd)) part n None now)) (\<lambda>pos.
      bindM (emit (g_env g) ''meridian.kafka.acknowledge.completed''
        [(''committed'', TBool committed), (''transactional'', TBool transactional)]) (\<lambda>_.
      retM \<lparr>ar_committed = committed, ar_safe_position = pos\<rparr>)))))))))"

definition settle :: "ctx \<Rightarrow> 'c acknowledge_command_scheme \<Rightarrow> bool \<Rightarrow> delivery_coordinates \<Rightarrow> ('w, ack_result) group_op" where
  "settle g cmd transactional co = bindM (getM grp) (settle_from g cmd transactional co)"

definition ack_group :: "ctx \<Rightarrow> 'c acknowledge_command_scheme \<Rightarrow> bool \<Rightarrow> ('w, ack_result) group_op" where
  "ack_group g cmd transactional =
     bindM (decode_token g cmd) (\<lambda>co.
     bindM (getM grp) (\<lambda>s.
     if dc_assignment_epoch co \<noteq> gs_assignment_epoch s
     then throwM (raised_for RebalanceConflict ''delivery.group-generation'')
     else if \<not> acknowledgeable s co then throwM (raised DeliveryRejected)
     else settle g cmd transactional co))"

definition acknowledge :: "ctx \<Rightarrow> 'c acknowledge_command_scheme \<Rightarrow> bool \<Rightarrow> ('w, ack_result) group_op" where
  "acknowledge g cmd transactional =
     bindM (existing_state (ack_key cmd)) (\<lambda>_. stored (ack_key cmd) (ack_group g cmd transactional))"

section \<open>Negative acknowledgement\<close>

datatype nack_result =
    DeadLettered string bool
  | RedeliveryScheduled int int

definition dead_letter_document :: "ctx \<Rightarrow> negative_acknowledge_command \<Rightarrow> event \<Rightarrow> physical_stream \<Rightarrow> int \<Rightarrow> string \<Rightarrow> json" where
  "dead_letter_document g cmd original target attempt produced_at =
     (let classification = (case nack_classification cmd of
        Some cl \<Rightarrow> if cl = [] then ''negative-acknowledgement'' else cl | None \<Rightarrow> ''negative-acknowledgement'')
      in JObj [(''formatVersion'', JStr (ev_format_version original)),
        (''eventId'', JStr (''dlq-'' @ ev_event_id original @ ''-'' @ str_int attempt)),
        (''stream'', ref_dict (g_core g) (ps_ref target)),
        (''schema'', schema_dict (g_core g) (ps_schema_ref target)),
        (''data'', JObj [(''originalEvent'', event_dict (g_core g) original),
           (''sourceStream'', JStr (ref_str (g_core g) (ev_stream original))),
           (''deliveryAttempt'', JInt attempt), (''failureClassification'', JStr classification),
           (''failingConsumer'', JStr (ref_str (g_core g) (cg_ref (ack_consumer_group cmd))))]),
        (''occurredAt'', ev_occurred_at original), (''producedAt'', JStr produced_at),
        (''logicalPartitionKey'', case ev_logical_partition_key original of None \<Rightarrow> JNull | Some k \<Rightarrow> JStr k),
        (''headers'', JObj []),
        (''traceContext'', JObj (map (\<lambda>(k, v). (k, JStr v)) (ev_trace_context original))),
        (''extensions'', JObj [(''deadLetter'', JBool True)])])"

definition dead_letter_event :: "ctx \<Rightarrow> negative_acknowledge_command \<Rightarrow> event \<Rightarrow> physical_stream \<Rightarrow> int \<Rightarrow>
    (exc, 'w world_scheme, event) op" where
  "dead_letter_event g cmd original target attempt =
     bindM (ask UtcNow (e_text (g_env g))) (\<lambda>stamp.
     liftE (event_parse (g_core g) (dead_letter_document g cmd original target attempt stamp)))"

definition dead_letter_command :: "physical_stream \<Rightarrow> event \<Rightarrow> event \<Rightarrow> int \<Rightarrow> publish_command" where
  "dead_letter_command target original ev attempt = \<lparr>pub_stream = target, pub_events = [ev],
     pub_idempotency_key = Some (''dead-letter-'' @ ev_event_id original @ ''-'' @ str_int attempt), pub_batch = False\<rparr>"

definition dead_letter :: "ctx \<Rightarrow> negative_acknowledge_command \<Rightarrow> ref \<Rightarrow> event \<Rightarrow> int \<Rightarrow> ('w, nack_result) group_op" where
  "dead_letter g cmd dead_letter_stream original attempt =
     bindM (liftE (stream (g_settings g) dead_letter_stream)) (\<lambda>target.
     bindM (dead_letter_event g cmd original target attempt) (\<lambda>ev.
     bindM (publish g (dead_letter_command target original ev attempt) None) (\<lambda>receipts.
     bindM (liftE (case receipts of [] \<Rightarrow> Inl (PyExc (OtherError ''IndexError'')) | rc # _ \<Rightarrow> Inr rc)) (\<lambda>rc.
     bindM (ack_group g cmd False) (\<lambda>ack.
     bindM (emit (g_env g) ''meridian.kafka.dead-letter.completed''
       [(''attempt'', TInt attempt), (''committed'', TBool (ar_committed ack))]) (\<lambda>_.
     retM (DeadLettered (rc_event_id rc) (ar_committed ack))))))))"

definition schedule_redelivery :: "ctx \<Rightarrow> negative_acknowledge_command \<Rightarrow> delivery_coordinates \<Rightarrow> ('w, nack_result) group_op" where
  "schedule_redelivery g cmd co =
     (let tp = (ps_topic (ack_stream cmd), dc_partition co, dc_offset co) in
      bindM (updM (\<lambda>s. s\<lparr>gs_inflight := dpop (token_key_of co) (gs_inflight s)\<rparr>)) (\<lambda>_.
      bindM (grpM gs_consumer) (\<lambda>consumer.
      bindM (normalizedM (g_attrs g) ''meridian.streaming.negative-acknowledge''
        (bindM (command (g_env g) (Seek consumer tp)) (\<lambda>_.
         whenM (nack_retry_after_ms cmd > 0)
           (bindM (command (g_env g) (Pause consumer tp)) (\<lambda>_.
            bindM (monotonic (g_env g)) (\<lambda>now.
            updM (\<lambda>s. s\<lparr>gs_paused := dset (dc_partition co) \<lparr>pd_offset = dc_offset co,
              pd_resume_at = now + of_int (nack_retry_after_ms cmd) / 1000\<rparr> (gs_paused s)\<rparr>))))))) (\<lambda>_.
      bindM (emit (g_env g) ''meridian.kafka.redelivery.scheduled''
        [(''attempt'', TInt (dc_attempt co + 1)), (''retryAfterMs'', TInt (nack_retry_after_ms cmd))]) (\<lambda>_.
      retM (RedeliveryScheduled (dc_attempt co + 1) (nack_retry_after_ms cmd)))))))"

definition nack_group :: "ctx \<Rightarrow> negative_acknowledge_command \<Rightarrow> ('w, nack_result) group_op" where
  "nack_group g cmd =
     bindM (decode_token g cmd) (\<lambda>co.
     bindM (getM grp) (\<lambda>s.
     if dc_assignment_epoch co \<noteq> gs_assignment_epoch s then throwM (raised RebalanceConflict)
     else case map_of (gs_inflight s) (token_key_of co) of
       None \<Rightarrow> throwM (raised DeliveryRejected)
     | Some item \<Rightarrow>
         if if_attempt item \<noteq> dc_attempt co then throwM (raised DeliveryRejected)
         else case (if dc_attempt co \<ge> sub_max_delivery_attempts (ack_subscription cmd)
             then sub_dead_letter_stream (ack_subscription cmd) else None) of
           Some dls \<Rightarrow> dead_letter g cmd dls (if_event item) (dc_attempt co)
         | None \<Rightarrow> schedule_redelivery g cmd co))"

definition negative_acknowledge :: "ctx \<Rightarrow> negative_acknowledge_command \<Rightarrow> ('w, nack_result) group_op" where
  "negative_acknowledge g cmd =
     bindM (existing_state (ack_key cmd)) (\<lambda>_. stored (ack_key cmd) (nack_group g cmd))"

section \<open>Recovery and the group position\<close>

definition close_consumer :: "ctx \<Rightarrow> group_state \<Rightarrow> ('w, unit) group_op" where
  "close_consumer g s = bindM (modM (\<lambda>w. w\<lparr>grp := s\<rparr>)) (\<lambda>_. serving g (ConsumerClose (gs_consumer s)) (\<lambda>_. ()))"

definition recover :: "ctx \<Rightarrow> ref \<Rightarrow> ref \<Rightarrow> ('w, unit) group_op" where
  "recover g sub cgr =
     bindM (getM (\<lambda>w. map_of (states w) (sub, cgr))) (\<lambda>found.
     case found of
       None \<Rightarrow> retM ()
     | Some s \<Rightarrow>
         bindM (modM (\<lambda>w. w\<lparr>states := dpop (sub, cgr) (states w)\<rparr>)) (\<lambda>_.
         bindM (close_consumer g s) (\<lambda>_.
         emit (g_env g) ''meridian.kafka.consumer.recovered'' [(''rejoined'', TBool True)])))"

definition consumer_close :: "ctx \<Rightarrow> ('w, unit) group_op" where
  "consumer_close g =
     bindM (getM states) (\<lambda>ss.
     bindM (modM (\<lambda>w. w\<lparr>engine_closed := True, states := []\<rparr>)) (\<lambda>_.
     forM ss (\<lambda>(key, s). close_consumer g s)))"

fun fill_committed :: "ctx \<Rightarrow> client \<Rightarrow> string \<Rightarrow> (int \<times> int) list \<Rightarrow> (int, int) dict \<Rightarrow> ('w, (int, int) dict) group_op" where
  "fill_committed g consumer topic [] result = retM result"
| "fill_committed g consumer topic ((part, off) # items) result =
     (if off \<ge> 0 then fill_committed g consumer topic items (dset part off result)
      else bindM (request (g_env g) (Watermarks consumer topic part) (e_watermarks (g_env g))) (\<lambda>marks.
        fill_committed g consumer topic items (dset part (fst marks) result)))"

definition committed_positions :: "ctx \<Rightarrow> client \<Rightarrow> string \<Rightarrow> int list \<Rightarrow> ('w, (int, int) dict) group_op" where
  "committed_positions g consumer topic parts =
     bindM (normalizedM (g_attrs g) ''meridian.streaming.group-position''
       (request (g_env g) (Committed consumer topic parts) (e_committed (g_env g)))) (\<lambda>items.
     fill_committed g consumer topic items [])"

definition validate_bounds :: "ctx \<Rightarrow> client \<Rightarrow> string \<Rightarrow> (int, int) dict \<Rightarrow> ('w, unit) group_op" where
  "validate_bounds g consumer topic target = forM target (\<lambda>(part, off).
     bindM (request (g_env g) (Watermarks consumer topic part) (e_watermarks (g_env g))) (\<lambda>(low, high).
     if off < low then throwM (raised_for CursorExpired ''cursor.retained-range'')
     else if off > high then throwM (raised RetentionBoundaryExceeded) else retM ()))"

definition position_update :: "(int, int) dict \<Rightarrow> group_state \<Rightarrow> group_state" where
  "position_update target s = s\<lparr>gs_assignment_epoch := gs_assignment_epoch s + 1, gs_inflight := [],
     gs_acknowledged := [], gs_safe_next := target\<rparr>"

definition read_positions :: "ctx \<Rightarrow> string \<Rightarrow> ('w, int list \<times> (int, int) dict) group_op" where
  "read_positions g topic =
     bindM (grpM gs_consumer) (\<lambda>consumer.
     bindM (request (g_env g) (ListTopics consumer topic) (e_metadata (g_env g))) (\<lambda>metadata.
     bindM (liftE (partition_ids (g_attrs g) metadata topic)) (\<lambda>parts.
     bindM (committed_positions g consumer topic parts) (\<lambda>before_positions. retM (parts, before_positions)))))"

definition position_group :: "ctx \<Rightarrow> group_position_command \<Rightarrow> ('w, string \<times> string) group_op" where
  "position_group g cmd =
     (let topic = ps_topic (gp_stream cmd) in
      bindM (read_positions g topic) (\<lambda>(parts, before_positions).
      bindM (liftE (group_position_fingerprint (g_digests g) topic before_positions)) (\<lambda>before_fp.
      if before_fp \<noteq> gp_expected_fingerprint cmd then throwM (raised GroupPositionConflict)
      else bindM (decode_positions g (gp_position cmd) (gp_stream cmd)) (\<lambda>target.
      if set (dkeys target) \<noteq> set parts then throwM (raised InvalidCursor)
      else bindM (grpM gs_consumer) (\<lambda>consumer.
      bindM (validate_bounds g consumer topic target) (\<lambda>_.
      bindM (normalizedM (g_attrs g) ''meridian.streaming.group-position''
        (command (g_env g) (Commit consumer (map (\<lambda>(part, off). (topic, part, off)) (sorted_items target))))) (\<lambda>_.
      bindM (updM (position_update target)) (\<lambda>_.
      bindM (liftE (group_position_fingerprint (g_digests g) topic target)) (\<lambda>after_fp.
      bindM (emit (g_env g) ''meridian.kafka.group-position.completed''
        [(''partitionCount'', TInt (int (length target)))]) (\<lambda>_.
      retM (before_fp, after_fp)))))))))))"

definition position_poll :: "physical_subscription \<Rightarrow> physical_consumer_group \<Rightarrow> physical_stream \<Rightarrow> poll_command" where
  "position_poll sub cgr strm = \<lparr>poll_subscription = sub, poll_consumer_group = cgr, poll_stream = strm,
     poll_limit = 1, poll_wait_timeout_ms = 0\<rparr>"

definition group_position :: "ctx \<Rightarrow> group_position_command \<Rightarrow> ('w, string \<times> string) group_op" where
  "group_position g cmd =
     (let pc = position_poll (gp_subscription cmd) (gp_consumer_group cmd) (gp_stream cmd)
      in bindM (ensure_state g pc) (\<lambda>_. stored (state_key pc) (position_group g cmd)))"

definition current_position_fingerprint :: "ctx \<Rightarrow> ref \<Rightarrow> ref \<Rightarrow> ('w, string) group_op" where
  "current_position_fingerprint g sub cgr =
     bindM (liftE (group_stream (g_settings g) sub cgr)) (\<lambda>(sub_config, group_config, strm).
     let pc = position_poll sub_config group_config strm in
     bindM (ensure_state g pc) (\<lambda>_. stored (state_key pc)
       (bindM (read_positions g (ps_topic strm)) (\<lambda>(parts, pos).
        liftE (group_position_fingerprint (g_digests g) (ps_topic strm) pos)))))"

end
