(* ===== verification/Consumer_Safety.thy ===== *)
theory Consumer_Safety
  imports Consumer
begin

text \<open>
  What the group consumer's operations change, and what that guarantees: an offset is committed
  only when it and everything below it, down to where the group stood, has been resolved; tokens
  of an earlier assignment, and tokens already used, are refused.
\<close>

section \<open>Effects of the operations\<close>

lemma grp_ops [keeps_intros]:
  "keeps (calls_only P) (grpM f)" "keeps (calls_only P) (updM h)" "keeps (unchanged q) (grpM f)"
  "(\<And>w s. q (w\<lparr>grp := s\<rparr>) = q w) \<Longrightarrow> keeps (unchanged q) (updM h)"
  unfolding grpM_def updM_def by (intro keeps_intros; simp)+

lemma wp_grp [wp_simps]:
  "wp (grpM f) Q E w = Q (f (grp w)) w" "wp (updM h) Q' E w = Q' () (w\<lparr>grp := h (grp w)\<rparr>)"
  by (simp_all add: grpM_def updM_def wp_simps)

text \<open>
  \<open>acks_within X\<close>: the engine's map of groups is untouched, and an offset is newly acknowledged
  in the group at hand only if \<open>X\<close> has it.
\<close>

abbreviation acks :: "group_state \<Rightarrow> int \<Rightarrow> int set" where
  "acks s part \<equiv> set (dget (gs_acknowledged s) part [])"

definition acks_within :: "(int \<times> int) set \<Rightarrow> 'w consumer_world_scheme \<Rightarrow> 'w consumer_world_scheme \<Rightarrow> bool" where
  "acks_within X w w' \<longleftrightarrow> states w' = states w
     \<and> (\<forall>part. acks (grp w') part \<subseteq> acks (grp w) part \<union> {off. (part, off) \<in> X})"

interpretation growth: op_preorder "acks_within X" for X :: "(int \<times> int) set"
  by unfold_locales (fastforce simp: acks_within_def)+

declare growth.keeps_rules [keeps_intros]

lemma acks_within_upd [keeps_intros]:
  "(\<And>s part. acks (h s) part \<subseteq> acks s part \<union> {off. (part, off) \<in> X}) \<Longrightarrow> keeps (acks_within X) (updM h)"
  by (simp add: keeps_def updM_def modM_def acks_within_def)

lemma acks_within_unchanged:
  "keeps (unchanged (\<lambda>w. (states w, grp w))) m \<Longrightarrow> keeps (acks_within X) m"
  by (auto simp: keeps_def unchanged_def acks_within_def)

lemma ignores_groups [simp, intro]: "ignores_calls (\<lambda>w. (states w, grp w))"
  unfolding ignores_calls_def by (intro allI conjI) simp_all

lemma acks_within_calls [keeps_intros]:
  "keeps (acks_within X) (ask c answer)" "keeps (acks_within X) (request e c answer')"
  "keeps (acks_within X) (monotonic e)" "keeps (acks_within X) (now_ms e)" "keeps (acks_within X) (emit e name as)"
  "keeps (acks_within X) (grpM f)" "keeps (acks_within X) (getM h)"
  by (rule acks_within_unchanged, intro keeps_intros ignores_groups)+

lemma acks_within_publish [keeps_intros]: "keeps (acks_within X) (publish g cmd override)"
  by (rule acks_within_unchanged, rule publish_unchanged) simp_all

lemma acks_within_stage [keeps_intros]: "keeps (acks_within X) (stage_offset g key co tp pt n)"
  by (rule acks_within_unchanged, unfold stage_offset_def, intro keeps_intros ignores_groups) (simp_all add: staged_def)

subsection \<open>Acknowledged offsets under the updates of the state\<close>

lemma acks_updates:
  "acks (assigned_update ps s) part = acks s part"
  "acks (revoked_update ps s) part \<subseteq> acks s part"
  "acks (rewound_update p off s) part \<subseteq> acks s part"
  "acks (delivered_update key attempt s) part = acks s part"
  "acks (safe_update p safe s) part = acks s part"
  "acks (resolved_update key s) part = acks s part"
  "acks (position_update target s) part = {}"
  by (auto simp: assigned_update_def revoked_update_def rewound_update_def delivered_update_def safe_update_def
      resolved_update_def position_update_def dget_def Let_def split: option.splits if_splits)

lemma advance_spec:
  "n \<le> snd (advance A n) \<and> {n..<snd (advance A n)} \<subseteq> set A \<and> snd (advance A n) \<notin> set A
   \<and> set (fst (advance A n)) = set A - {n..<snd (advance A n)}"
proof (induction A n rule: advance.induct)
  case (1 A n)
  show ?case
  proof (cases "n \<in> set A")
    case True
    let ?B = "removeAll n A" and ?m = "snd (advance (removeAll n A) (n + 1))"
    have step: "advance A n = advance ?B (n + 1)" using True by (subst advance.simps) simp
    note ih = 1 [OF True]
    have "n + 1 \<le> ?m" using ih by blast
    then have iv: "{n..<?m} = insert n {n + 1..<?m}" by auto
    have "?m \<notin> set A" using ih by auto
    moreover have "{n..<?m} \<subseteq> set A" using ih True unfolding iv by auto
    moreover have "set (fst (advance ?B (n + 1))) = set A - {n..<?m}" using ih unfolding iv by auto
    ultimately show ?thesis unfolding step using \<open>n + 1 \<le> ?m\<close> by simp
  next
    case False
    then show ?thesis by (subst (1 2 3 4 5) advance.simps) simp
  qed
qed

lemma acks_drained: "acks (drained_update p off s) part \<subseteq> acks s part \<union> {o'. (part, o') \<in> {(p, off)}}"
  using advance_spec [of "safe_start p off s" "List.insert off (dget (gs_acknowledged s) p [])"]
  by (auto simp: drained_update_def dget_def split: if_splits option.splits)

subsection \<open>Which operations acknowledge\<close>

lemma rebalance_acks [keeps_intros]: "keeps (acks_within X) (on_rebalance g rb)"
  using acks_updates(1,2)
  by (cases rb) (auto simp: on_assigned_def on_revoked_def rebalance_evidence_def intro!: keeps_intros, blast+)

lemma serving_acks [keeps_intros]: "keeps (acks_within X) (serving g c answer)"
  unfolding serving_def split_def by (intro keeps_intros)

lemma deliver_event_acks [keeps_intros]: "keeps (acks_within X) (deliver_event g m)"
  unfolding deliver_event_def Let_def
  by (intro keeps_intros) (auto simp: acks_updates)

lemma group_deliver_acks [keeps_intros]: "keeps (acks_within X) (group_deliver g m)"
  unfolding group_deliver_def by (intro keeps_intros) auto

lemma upkeep_acks [keeps_intros]:
  "keeps (acks_within X) (resume_due g)" "keeps (acks_within X) (expire_inflight g)"
proof -
  show "keeps (acks_within X) (resume_due g)"
    unfolding resume_due_def split_def by (intro keeps_intros) auto
  show "keeps (acks_within X) (expire_inflight g)"
    unfolding expire_inflight_def Let_def split_def by (intro keeps_intros le_supI1 acks_updates(3))
qed

lemma poll_loop_acks [keeps_intros]: "keeps (acks_within X) (poll_loop n g cmd dl ds)"
  by (induction n arbitrary: ds) (auto simp: poll_timeout_def Let_def intro!: keeps_intros)

lemma lag_acks [keeps_intros]: "keeps (acks_within X) (lag_of g s parts n)"
  by (induction parts arbitrary: n) (auto intro!: keeps_intros)

lemma poll_group_acks: "keeps (acks_within X) (poll_group g cmd)"
  unfolding poll_group_def group_lag_def by (intro keeps_intros)

text \<open>The coordinates a token stands for: a token decodes to the same ones whenever it decodes.\<close>

definition resolves :: "ctx \<Rightarrow> 'c acknowledge_command_scheme \<Rightarrow> (int \<times> int) set" where
  "resolves g cmd = {token_key_of co | co now. decode_delivery (g_core g) (g_digests g) (g_codec g) (ack_delivery cmd)
     (sub_ref (ack_subscription cmd)) (cg_ref (ack_consumer_group cmd)) (ps_topic (ack_stream cmd)) now = Inr co}"

lemma decode_token_run:
  "decode_token g cmd w = (decode_delivery (g_core g) (g_digests g) (g_codec g) (ack_delivery cmd)
     (sub_ref (ack_subscription cmd)) (cg_ref (ack_consumer_group cmd)) (ps_topic (ack_stream cmd))
     (e_time_ns (g_env g) (TimeNs # hist w) div 1000000), push TimeNs w)"
  by (simp add: decode_token_def now_ms_def ask_def bindM_def liftE_def Let_def)

lemma keeps_decode:
  fixes f :: "delivery_coordinates \<Rightarrow> ('w, 'b) group_op"
  assumes "\<And>co. token_key_of co \<in> resolves g cmd \<Longrightarrow> keeps (acks_within X) (f co)"
  shows "keeps (acks_within X) (bindM (decode_token g cmd) f)"
  unfolding keeps_def
proof
  fix w :: "'w consumer_world_scheme"
  have "acks_within X w (push TimeNs w)" by (simp add: acks_within_def push_def)
  moreover have "acks_within X (push TimeNs w) (snd (f co (push TimeNs w)))"
    if "fst (decode_token g cmd w) = Inr co" for co
    using that assms unfolding decode_token_run resolves_def by (fastforce simp: keeps_def)
  ultimately show "acks_within X w (snd (bindM (decode_token g cmd) f w))"
    using growth.rel_trans [of X w] by (auto simp: bindM_def decode_token_run split: sum.split)
qed

lemma settle_acks: "keeps (acks_within {(dc_partition co, dc_offset co)}) (settle g cmd tx co)"
  unfolding settle_def settle_from_def Let_def commit_safe_def
  by (intro keeps_intros acks_drained) (auto simp: acks_updates)

lemma acks_within_mono: "keeps (acks_within Y) m \<Longrightarrow> Y \<subseteq> X \<Longrightarrow> keeps (acks_within X) m"
  unfolding keeps_def acks_within_def by blast

lemma ack_group_acks: "keeps (acks_within (resolves g cmd)) (ack_group g cmd tx)"
  unfolding ack_group_def
proof (rule keeps_decode)
  fix co
  assume co: "token_key_of co \<in> resolves g cmd"
  have "keeps (acks_within (resolves g cmd)) (settle g cmd tx co)"
    by (rule acks_within_mono [OF settle_acks]) (use co in \<open>simp add: token_key_of_def\<close>)
  then show "keeps (acks_within (resolves g cmd)) (bindM (getM grp) (\<lambda>s.
     if dc_assignment_epoch co \<noteq> gs_assignment_epoch s
     then throwM (raised_for RebalanceConflict ''delivery.group-generation'')
     else if \<not> acknowledgeable s co then throwM (raised DeliveryRejected)
     else settle g cmd tx co))"
    by (intro keeps_intros)
qed

lemma dead_letter_acks:
  "keeps (acks_within (resolves g cmd)) (dead_letter g cmd dls original attempt)"
  unfolding dead_letter_def dead_letter_event_def by (intro keeps_intros ack_group_acks)

lemma nack_group_acks: "keeps (acks_within (resolves g cmd)) (nack_group g cmd)"
  unfolding nack_group_def
  by (rule keeps_decode, intro keeps_intros dead_letter_acks)
    (unfold schedule_redelivery_def Let_def, intro keeps_intros; simp)

lemma position_group_acks: "keeps (acks_within X) (position_group g cmd)"
proof -
  have fill: "keeps (acks_within X) (fill_committed g c tp items d)" for c tp items and d :: "(int, int) dict"
    by (induction items arbitrary: d) (auto intro!: keeps_intros)
  show ?thesis
    unfolding position_group_def read_positions_def committed_positions_def decode_positions_def
      validate_bounds_def Let_def split_def
    by (intro keeps_intros fill) (simp add: acks_updates)
qed

section \<open>Runs of the engine\<close>

text \<open>
  A run is a sequence of operations, each returning or raising, on the engine and the rest of
  the adapter. It carries the set of what its clients have resolved: the group, partition and
  offset of each token presented to \<open>acknowledge\<close> or \<open>negative_acknowledge\<close>.
\<close>

type_synonym resolved = "((ref \<times> ref) \<times> int \<times> int) set"

definition resolved_by :: "ctx \<Rightarrow> 'c acknowledge_command_scheme \<Rightarrow> resolved" where
  "resolved_by g cmd = Pair (ack_key cmd) ` resolves g cmd"

inductive consumer_step :: "ctx \<Rightarrow> 'w consumer_world_scheme \<Rightarrow> resolved \<Rightarrow> 'w consumer_world_scheme \<Rightarrow> bool"
  for g :: ctx where
  polled: "poll g cmd w = (r, w') \<Longrightarrow> consumer_step g w {} w'"
| acknowledged: "acknowledge g (cmd :: acknowledge_command) tx w = (r, w') \<Longrightarrow> consumer_step g w (resolved_by g cmd) w'"
| nacked: "negative_acknowledge g cmd w = (r, w') \<Longrightarrow> consumer_step g w (resolved_by g cmd) w'"
| positioned: "group_position g cmd w = (r, w') \<Longrightarrow> consumer_step g w {} w'"
| fingerprinted: "current_position_fingerprint g sub cgr w = (r, w') \<Longrightarrow> consumer_step g w {} w'"
| recovered: "recover g sub cgr w = (r, w') \<Longrightarrow> consumer_step g w {} w'"
| closed: "consumer_close g w = (r, w') \<Longrightarrow> consumer_step g w {} w'"
| other: "states w' = states w \<Longrightarrow> consumer_step g w {} w'"

inductive consumer_run :: "ctx \<Rightarrow> 'w consumer_world_scheme \<Rightarrow> resolved \<Rightarrow> 'w consumer_world_scheme \<Rightarrow> bool"
  for g :: ctx and w :: "'w consumer_world_scheme" where
  start: "consumer_run g w {} w"
| more: "consumer_run g w R w' \<Longrightarrow> consumer_step g w' S w'' \<Longrightarrow> consumer_run g w (R \<union> S) w''"

text \<open>The invariant: what a group holds as acknowledged was resolved by a client of that group.\<close>

definition acks_resolved :: "resolved \<Rightarrow> 'w consumer_world_scheme \<Rightarrow> bool" where
  "acks_resolved R w \<longleftrightarrow> (\<forall>key s part off. map_of (states w) key = Some s \<longrightarrow> off \<in> acks s part \<longrightarrow>
     (key, part, off) \<in> R)"

lemma acks_resolvedD:
  "acks_resolved R w \<Longrightarrow> map_of (states w) key = Some s \<Longrightarrow> off \<in> acks s part \<Longrightarrow> (key, part, off) \<in> R"
  unfolding acks_resolved_def by blast

lemma acks_resolved_mono: "acks_resolved R w \<Longrightarrow> R \<subseteq> S \<Longrightarrow> states w' = states w \<Longrightarrow> acks_resolved S w'"
  unfolding acks_resolved_def by (metis subsetD)

lemma stored_resolved:
  assumes "keeps (acks_within X) m" and "acks_resolved R w" and "map_of (states w) key = Some (grp w)"
    and "stored key m w = (r, w')"
  shows "acks_resolved (R \<union> Pair key ` X) w'"
proof -
  obtain r' v where m: "m w = (r', v)" by force
  then have w': "w' = v\<lparr>states := dset key (grp v) (states v)\<rparr>" using assms(4) by (simp add: stored_def)
  have v: "acks_within X w v" by (rule keepsD [OF assms(1) m])
  show ?thesis
    unfolding acks_resolved_def
  proof (intro allI impI)
    fix key' s part off
    assume s: "map_of (states w') key' = Some s" and off: "off \<in> acks s part"
    show "(key', part, off) \<in> R \<union> Pair key ` X"
    proof (cases "key' = key")
      case True
      then have "off \<in> acks (grp w) part \<or> (part, off) \<in> X"
        using s off v by (auto simp: w' acks_within_def)
      then show ?thesis using assms(2,3) True unfolding acks_resolved_def by blast
    next
      case False
      then have "map_of (states w) key' = Some s" using s v by (simp add: w' acks_within_def)
      then show ?thesis using off assms(2) unfolding acks_resolved_def by blast
    qed
  qed
qed

lemma ensure_state_ok:
  assumes "ensure_state g cmd w = (r, w')" and "acks_resolved R w"
  shows "acks_resolved R w' \<and> (r = Inr () \<longrightarrow> map_of (states w') (state_key cmd) = Some (grp w'))"
proof -
  have "acks_resolved R (v\<lparr>states := dset (state_key cmd) (new_group_state cmd c) (states w)\<rparr>)"
    for v :: "'a consumer_world_scheme" and c
    using assms(2) unfolding acks_resolved_def by (auto simp: new_group_state_def dget_def)
  then show ?thesis
    using assms acks_resolved_mono [OF assms(2) subset_refl]
    by (auto simp: ensure_state_def op_defs request_def push_def Let_def split: if_splits option.splits sum.splits)
qed

lemma in_group_resolved:
  assumes "keeps (acks_within X) m" and "acks_resolved R w"
    and "bindM (ensure_state g cmd) (\<lambda>_. stored (state_key cmd) m) w = (r, w')"
  shows "acks_resolved (R \<union> Pair (state_key cmd) ` X) w'"
proof -
  obtain q v where e: "ensure_state g cmd w = (q, v)" by force
  note ok = ensure_state_ok [OF e assms(2)]
  show ?thesis
  proof (cases q)
    case (Inl x)
    then have "w' = v" using assms(3) e by (simp add: bindM_def)
    then show ?thesis using ok by (auto intro: acks_resolved_mono [of R v])
  next
    case (Inr u)
    then have "stored (state_key cmd) m v = (r, w')" using assms(3) e by (simp add: bindM_def)
    then show ?thesis using ok Inr by (intro stored_resolved [OF assms(1)]) simp_all
  qed
qed

lemma in_existing_resolved:
  assumes "keeps (acks_within X) m" and "acks_resolved R w"
    and "bindM (existing_state key) (\<lambda>_. stored key m) w = (r, w')"
  shows "acks_resolved (R \<union> Pair key ` X) w'"
proof (cases "map_of (states w) key")
  case None
  then have "w' = w" using assms(3) by (simp add: existing_state_def op_defs)
  then show ?thesis using acks_resolved_mono [OF assms(2)] by blast
next
  case (Some s)
  then have "stored key m (w\<lparr>grp := s\<rparr>) = (r, w')" using assms(3) by (simp add: existing_state_def op_defs)
  moreover have "acks_resolved R (w\<lparr>grp := s\<rparr>)" using assms(2) by (simp add: acks_resolved_def)
  ultimately show ?thesis using Some by (intro stored_resolved [OF assms(1)]) simp_all
qed

lemma close_consumer_states: "close_consumer g s w = (r, w') \<Longrightarrow> states w' = states w"
proof -
  assume run: "close_consumer g s w = (r, w')"
  have "keeps (acks_within {}) (serving g (ConsumerClose (gs_consumer s)) (\<lambda>_. ()))" by (intro keeps_intros)
  then show ?thesis using run keepsD by (fastforce simp: close_consumer_def bindM_def modM_def acks_within_def)
qed

lemma close_all_states: "forM ss (\<lambda>(key, s). close_consumer g s) w = (r, w') \<Longrightarrow> states w' = states w"
proof (induction ss arbitrary: w)
  case (Cons x ss)
  obtain q v where one: "close_consumer g (snd x) w = (q, v)" by force
  then have "states v = states w" by (rule close_consumer_states)
  then show ?case using Cons one by (cases q) (auto simp: bindM_def split_def)
qed (simp add: retM_def)

lemma recover_resolved:
  assumes "recover g sub cgr w = (r, w')" and "acks_resolved R w" shows "acks_resolved R w'"
proof (cases "map_of (states w) (sub, cgr)")
  case None
  then show ?thesis using assms by (simp add: recover_def op_defs)
next
  case (Some s)
  let ?v = "w\<lparr>states := dpop (sub, cgr) (states w)\<rparr>"
  have v: "acks_resolved R ?v" using assms(2) by (auto simp: acks_resolved_def split: if_splits)
  obtain q u where c: "close_consumer g s ?v = (q, u)" by force
  have "states w' = states u"
    using assms(1) Some c
    by (cases q) (auto simp: recover_def op_defs dest!: unchangedD [OF unchanged_emit [OF ignores_groups]])
  then show ?thesis using close_consumer_states [OF c] acks_resolved_mono [OF v subset_refl] by simp
qed

lemma consumer_close_resolved:
  assumes "consumer_close g w = (r, w')" shows "acks_resolved R w'"
proof -
  have "states w' = []"
    using assms close_all_states [where ss = "states w" and w = "w\<lparr>engine_closed := True, states := []\<rparr>"]
    by (simp add: consumer_close_def op_defs)
  then show ?thesis by (simp add: acks_resolved_def)
qed

lemma fingerprint_acks:
  "keeps (acks_within {}) (bindM (read_positions g tp) (\<lambda>(parts, pos). liftE (f pos)))"
proof -
  have fill: "keeps (acks_within {}) (fill_committed g c tp items d)" for c tp items and d :: "(int, int) dict"
    by (induction items arbitrary: d) (auto intro!: keeps_intros)
  show ?thesis unfolding read_positions_def committed_positions_def by (intro keeps_intros fill)
qed

lemma consumer_step_resolved:
  assumes "consumer_step g w S w'" and "acks_resolved R w" shows "acks_resolved (R \<union> S) w'"
  using assms(1)
proof cases
  case (polled cmd r)
  show ?thesis using in_group_resolved [OF poll_group_acks [of "{}"] assms(2) polled(2) [unfolded poll_def]] polled(1) by simp
next
  case (acknowledged cmd tx r)
  show ?thesis
    using in_existing_resolved [OF ack_group_acks assms(2) acknowledged(2) [unfolded acknowledge_def]] acknowledged(1)
    by (simp add: resolved_by_def)
next
  case (nacked cmd r)
  show ?thesis
    using in_existing_resolved [OF nack_group_acks assms(2) nacked(2) [unfolded negative_acknowledge_def]] nacked(1)
    by (simp add: resolved_by_def)
next
  case (positioned cmd r)
  show ?thesis
    using in_group_resolved [OF position_group_acks [of "{}"] assms(2) positioned(2) [unfolded group_position_def Let_def]]
      positioned(1) by simp
next
  case (fingerprinted sub cgr r)
  show ?thesis
  proof (cases "group_stream (g_settings g) sub cgr")
    case (Inl x)
    then show ?thesis using fingerprinted assms(2) by (simp add: current_position_fingerprint_def op_defs)
  next
    case (Inr y)
    obtain a b c where y: "y = (a, b, c)" by (metis prod_cases3)
    have "bindM (ensure_state g (position_poll a b c)) (\<lambda>_. stored (state_key (position_poll a b c))
       (bindM (read_positions g (ps_topic c)) (\<lambda>(parts, pos).
        liftE (group_position_fingerprint (g_digests g) (ps_topic c) pos)))) w = (r, w')"
      using fingerprinted(2) Inr y by (simp add: current_position_fingerprint_def liftE_def bindM_def [of "\<lambda>s. (Inr _, s)"] Let_def)
    from in_group_resolved [OF fingerprint_acks assms(2) this] show ?thesis using fingerprinted(1) by simp
  qed
next
  case (recovered sub cgr r)
  then show ?thesis using recover_resolved [OF _ assms(2)] by simp
next
  case (closed r)
  then show ?thesis using consumer_close_resolved by simp
next
  case other
  then show ?thesis by (auto intro: acks_resolved_mono [OF assms(2)])
qed

lemma consumer_run_resolved:
  assumes "consumer_run g w R w'" and "\<forall>key s. map_of (states w) key = Some s \<longrightarrow> gs_acknowledged s = []"
  shows "acks_resolved R w'"
  using assms(1)
proof induction
  case start
  show ?case using assms(2) unfolding acks_resolved_def by (simp add: dget_def)
next
  case (more R w' S w'')
  then show ?case by (intro consumer_step_resolved)
qed

section \<open>Commits\<close>

fun only_commit :: "(topic_partition list \<Rightarrow> bool) \<Rightarrow> call \<Rightarrow> bool" where
  "only_commit Q (Commit _ tps) = Q tps"
| "only_commit Q _ = True"

lemma stage_offset_calls [keeps_intros]:
  "P (GroupMetadata co) \<Longrightarrow> keeps (calls_only P) (stage_offset g key co tp pt n)"
  unfolding stage_offset_def by (intro keeps_intros) (simp_all add: staged_def)

lemma settle_from_calls:
  assumes "\<And>c. safe_start (dc_partition co) (dc_offset co) s < safe_target (dc_partition co) (dc_offset co) s \<Longrightarrow>
      P (Commit c [(ps_topic (ack_stream cmd), dc_partition co, safe_target (dc_partition co) (dc_offset co) s)])"
    and "\<And>c. P (GroupMetadata c)" and "P TimeNs" and "P UtcNow" and "\<And>ev. P (SinkEmit ev)"
  shows "keeps (calls_only P) (settle_from g cmd tx co s)"
proof (cases "safe_start (dc_partition co) (dc_offset co) s < safe_target (dc_partition co) (dc_offset co) s")
  case True
  have "keeps (calls_only P) (commit_safe g cmd tx c (dc_partition co) (safe_target (dc_partition co) (dc_offset co) s))" for c
    using assms(1) [OF True] assms(2) unfolding commit_safe_def by (intro keeps_intros)
  then show ?thesis unfolding settle_from_def Let_def by (intro keeps_intros assms(3-5))
next
  case False
  show ?thesis
    unfolding settle_from_def Let_def whenM_def by (simp only: False if_False, intro keeps_intros assms(3-5))
qed

lemma settle_commits:
  assumes "settle g cmd tx co w = (r, w')"
  shows "calls_only (only_commit (\<lambda>tps. tps = [(ps_topic (ack_stream cmd), dc_partition co,
      safe_target (dc_partition co) (dc_offset co) (grp w))]
    \<and> safe_start (dc_partition co) (dc_offset co) (grp w) < safe_target (dc_partition co) (dc_offset co) (grp w))) w w'"
proof -
  have run: "settle_from g cmd tx co (grp w) w = (r, w')" using assms by (simp add: settle_def bindM_def getM_def)
  show ?thesis by (rule keepsD [OF settle_from_calls run]) simp_all
qed

lemma ack_group_cases:
  assumes "ack_group g cmd tx w = (r, w')"
  shows "w' = push TimeNs w \<and> isl r \<or> (\<exists>co. token_key_of co \<in> resolves g cmd \<and> acknowledgeable (grp w) co
    \<and> dc_assignment_epoch co = gs_assignment_epoch (grp w) \<and> settle g cmd tx co (push TimeNs w) = (r, w'))"
  using assms
  by (auto simp: ack_group_def bindM_def decode_token_run getM_def throwM_def resolves_def push_def
      split: sum.splits if_splits)

lemma safe_interval:
  assumes "n = safe_target part off s" and "o' \<in> {safe_start part off s..<n}"
  shows "o' \<in> acks s part \<or> o' = off"
  using advance_spec [of "safe_start part off s" "List.insert off (dget (gs_acknowledged s) part [])"] assms
  by (auto simp: safe_target_def)

section \<open>Properties\<close>


lemma advance_is_least: "snd (advance A n) = (LEAST m. n \<le> m \<and> m \<notin> set A)"
proof (rule Least_equality [symmetric])
  show "n \<le> snd (advance A n) \<and> snd (advance A n) \<notin> set A" using advance_spec [of n A] by blast
next
  fix m
  assume "n \<le> m \<and> m \<notin> set A"
  then show "snd (advance A n) \<le> m" using advance_spec [of n A] by (metis atLeastLessThan_iff not_le subsetD)
qed

text \<open>
  C31. The loop that looks for the safe position finds the least offset, from the given one on,
  that is not acknowledged, and leaves exactly the acknowledged offsets that are not below it.
\<close>

theorem advance_least:
  "snd (advance A n) = (LEAST m. n \<le> m \<and> m \<notin> set A)
   \<and> set (fst (advance A n)) = {x \<in> set A. x < n \<or> snd (advance A n) \<le> x}"
  using advance_is_least [of A n] advance_spec [of n A] by auto

subsection \<open>Tokens that are refused\<close>

lemma dset_same: "map_of d k = Some v \<Longrightarrow> dset k v d = d"
  by (induction d) (auto split: if_splits)

lemma existing_run:
  assumes "map_of (states w) key = Some s" and "m (w\<lparr>grp := s\<rparr>) = (r, v)"
  shows "bindM (existing_state key) (\<lambda>_. stored key m) w = (r, v\<lparr>states := dset key (grp v) (states v)\<rparr>)"
  using assms by (simp add: existing_state_def op_defs stored_def)

abbreviation decoded :: "ctx \<Rightarrow> 'c acknowledge_command_scheme \<Rightarrow> 'w world_scheme \<Rightarrow> exc + delivery_coordinates" where
  "decoded g cmd w \<equiv> decode_delivery (g_core g) (g_digests g) (g_codec g) (ack_delivery cmd)
     (sub_ref (ack_subscription cmd)) (cg_ref (ack_consumer_group cmd)) (ps_topic (ack_stream cmd))
     (e_time_ns (g_env g) (TimeNs # hist w) div 1000000)"

lemma ack_refused:
  assumes "map_of (states w) (ack_key cmd) = Some s" and "decoded g cmd w = Inr co"
    and "dc_assignment_epoch co \<noteq> gs_assignment_epoch s \<or> \<not> acknowledgeable s co"
  shows "acknowledge g cmd tx w = (Inl (if dc_assignment_epoch co \<noteq> gs_assignment_epoch s
      then raised_for RebalanceConflict ''delivery.group-generation'' else raised DeliveryRejected),
      w\<lparr>hist := TimeNs # hist w, grp := s\<rparr>)"
proof -
  have "ack_group g cmd tx (w\<lparr>grp := s\<rparr>) = (Inl (if dc_assignment_epoch co \<noteq> gs_assignment_epoch s
      then raised_for RebalanceConflict ''delivery.group-generation'' else raised DeliveryRejected),
      push TimeNs (w\<lparr>grp := s\<rparr>))"
    using assms(2,3) by (auto simp: ack_group_def bindM_def decode_token_run getM_def throwM_def push_def)
  from existing_run [where m = "ack_group g cmd tx", OF assms(1) this] show ?thesis
    using assms(1) by (simp add: acknowledge_def push_def dset_same)
qed

lemma nack_refused:
  assumes "map_of (states w) (ack_key cmd) = Some s" and "decoded g cmd w = Inr co"
    and "dc_assignment_epoch co \<noteq> gs_assignment_epoch s
      \<or> (\<forall>item. map_of (gs_inflight s) (token_key_of co) = Some item \<longrightarrow> if_attempt item \<noteq> dc_attempt co)"
  shows "negative_acknowledge g cmd w = (Inl (if dc_assignment_epoch co \<noteq> gs_assignment_epoch s
      then raised RebalanceConflict else raised DeliveryRejected), w\<lparr>hist := TimeNs # hist w, grp := s\<rparr>)"
proof -
  have "nack_group g cmd (w\<lparr>grp := s\<rparr>) = (Inl (if dc_assignment_epoch co \<noteq> gs_assignment_epoch s
      then raised RebalanceConflict else raised DeliveryRejected), push TimeNs (w\<lparr>grp := s\<rparr>))"
    using assms(2,3) by (auto simp: nack_group_def bindM_def decode_token_run getM_def throwM_def push_def split: option.split)
  from existing_run [where m = "nack_group g cmd", OF assms(1) this] show ?thesis
    using assms(1) by (simp add: negative_acknowledge_def push_def dset_same)
qed

text \<open>
  C32. A token of another assignment epoch is refused with \<open>RebalanceConflict\<close>, and one that is
  not in flight under its attempt, unknown, revoked, resolved or superseded, with
  \<open>DeliveryRejected\<close>, by \<open>acknowledge\<close> and \<open>negative_acknowledge\<close> alike, with no call but
  the reading of the clock and no change of any group.
\<close>

theorem stale_tokens_refused:
  fixes cmd :: negative_acknowledge_command
  assumes "map_of (states w) (ack_key cmd) = Some s" and "decoded g cmd w = Inr co"
    and "dc_assignment_epoch co \<noteq> gs_assignment_epoch s
      \<or> (\<forall>item. map_of (gs_inflight s) (token_key_of co) = Some item \<longrightarrow> if_attempt item \<noteq> dc_attempt co)"
  shows "(\<exists>x. acknowledge g cmd tx w = (Inl x, w\<lparr>hist := TimeNs # hist w, grp := s\<rparr>)
      \<and> has_kind (if dc_assignment_epoch co \<noteq> gs_assignment_epoch s then RebalanceConflict else DeliveryRejected) x)
    \<and> (\<exists>x. negative_acknowledge g cmd w = (Inl x, w\<lparr>hist := TimeNs # hist w, grp := s\<rparr>)
      \<and> has_kind (if dc_assignment_epoch co \<noteq> gs_assignment_epoch s then RebalanceConflict else DeliveryRejected) x)"
proof -
  have "\<not> acknowledgeable s co \<or> dc_assignment_epoch co \<noteq> gs_assignment_epoch s"
    using assms(3) by (auto simp: acknowledgeable_def split: option.splits)
  then have "acknowledge g cmd tx w = (Inl (if dc_assignment_epoch co \<noteq> gs_assignment_epoch s
      then raised_for RebalanceConflict ''delivery.group-generation'' else raised DeliveryRejected),
      w\<lparr>hist := TimeNs # hist w, grp := s\<rparr>)" by (intro ack_refused [OF assms(1,2)]) blast
  then show ?thesis using nack_refused [OF assms] by (simp add: merror_def)
qed

subsection \<open>A token is used once\<close>

lemma wp_bind_any: "(\<And>x t. wp (f x) Q (\<lambda>_ _. True) t) \<Longrightarrow> wp (bindM m f) Q (\<lambda>_ _. True) s"
proof -
  assume *: "\<And>x t. wp (f x) Q (\<lambda>_ _. True) t"
  have "wp m (\<lambda>_ _. True) (\<lambda>_ _. True) s" by (simp add: wp_def split: prod.split sum.split)
  then show ?thesis unfolding wp_bind by (rule wp_mono) (simp_all add: *)
qed

lemma ignores_grp [simp, intro]: "ignores_calls (\<lambda>w. h (grp w))" "ignores_calls (\<lambda>w. h' (states w))"
  unfolding ignores_calls_def by simp_all

lemma settle_inflight:
  "wp (settle g cmd tx co) (\<lambda>_ w'. map_of (gs_inflight (grp w')) (token_key_of co) = None) (\<lambda>_ _. True) w"
  unfolding settle_def settle_from_def Let_def
  apply (rule wp_bind_any, rule wp_bind_any, rule wp_bind_any)
  apply (simp only: wp_bind [of "updM _"] wp_grp(2))
  apply (rule wp_mono [OF keeps_wp [where R = "unchanged grp"]])
    apply (intro keeps_intros ignores_grp)
   apply (auto simp: unchanged_def resolved_update_def token_key_of_def)
  done

lemma settle_epoch: "keeps (unchanged (\<lambda>w. gs_assignment_epoch (grp w))) (settle g cmd tx co)"
proof -
  have stage: "keeps (unchanged (\<lambda>w. gs_assignment_epoch (grp w))) (stage_offset g key c tp pt n)" for key c tp pt n
    unfolding stage_offset_def by (intro keeps_intros ignores_grp) (simp_all add: staged_def)
  have upd: "(\<And>s. gs_assignment_epoch (h s) = gs_assignment_epoch s) \<Longrightarrow>
      keeps (unchanged (\<lambda>w. gs_assignment_epoch (grp w))) (updM h)" for h
    unfolding updM_def by (intro keeps_intros) simp
  show ?thesis
    unfolding settle_def settle_from_def Let_def commit_safe_def
    by (intro upd keeps_intros stage ignores_grp)
      (simp_all add: drained_update_def safe_update_def resolved_update_def)
qed

lemma settle_states: "keeps (unchanged states) (settle g cmd tx co)"
  using settle_acks [of co g cmd tx] by (auto simp: keeps_def acks_within_def unchanged_def)

text \<open>What a successful acknowledgement leaves of its group.\<close>

lemma acknowledged_state:
  assumes "acknowledge g cmd tx w = (Inr ar, w')"
  shows "\<exists>co s. decoded g cmd w = Inr co \<and> map_of (states w') (ack_key cmd) = Some s
    \<and> dc_assignment_epoch co = gs_assignment_epoch s \<and> map_of (gs_inflight s) (token_key_of co) = None"
proof -
  obtain s where s: "map_of (states w) (ack_key cmd) = Some s"
    using assms by (cases "map_of (states w) (ack_key cmd)") (auto simp: acknowledge_def existing_state_def op_defs)
  let ?w = "push TimeNs (w\<lparr>grp := s\<rparr>)"
  obtain v where run: "ack_group g cmd tx (w\<lparr>grp := s\<rparr>) = (Inr ar, v)" and w': "w' = v\<lparr>states := dset (ack_key cmd) (grp v) (states v)\<rparr>"
    using assms s by (auto simp: acknowledge_def existing_state_def op_defs stored_def split: prod.splits)
  then obtain co where co: "decoded g cmd w = Inr co" "dc_assignment_epoch co = gs_assignment_epoch s"
      "settle g cmd tx co ?w = (Inr ar, v)"
    by (auto simp: ack_group_def bindM_def decode_token_run getM_def throwM_def push_def
        split: sum.splits if_splits)
  have "gs_assignment_epoch (grp v) = gs_assignment_epoch s"
    using unchangedD [OF settle_epoch co(3)] by (simp add: push_def)
  moreover have "map_of (gs_inflight (grp v)) (token_key_of co) = None" by (rule wp_Inr [OF settle_inflight co(3)])
  ultimately show ?thesis using co(1,2) by (intro exI [of _ co] exI [of _ "grp v"]) (simp add: w')
qed

text \<open>A token decodes to the same coordinates whenever it decodes.\<close>

lemma decode_delivery_text:
  assumes "decode_delivery c d co value sub cgr topic now = Inr x"
  shows "\<exists>token. (value = JStr token \<or> (\<exists>q. delivery_parse c value = Inr (token, q)))
    \<and> (\<exists>kvs. value = JObj kvs) = (value \<noteq> JStr token) \<and> decode_delivery c d co (JStr token) sub cgr topic now = Inr x"
  using assms by (cases "value") (auto simp: decode_delivery_def token_decode_def split: prod.splits if_splits)

lemma decode_delivery_same:
  assumes "decode_delivery c d co value sub cgr topic t = Inr x" and "decode_delivery c d co value sub cgr topic t' = Inr y"
  shows "x = y"
proof -
  obtain token where token: "decode_delivery c d co (JStr token) sub cgr topic t = Inr x"
      "decode_delivery c d co (JStr token) sub cgr topic t' = Inr y"
    using decode_delivery_text [OF assms(1)] decode_delivery_text [OF assms(2)] by fastforce
  obtain item pos where i: "token_decode d co (JStr token) ''delivery'' t = Inr item"
    "map_of item ''positions'' = Some pos" "parse_positions pos = Inr [(dc_partition x, dc_offset x)]"
    "map_of item ''assignmentEpoch'' = Some (JInt (dc_assignment_epoch x))"
    "map_of item ''attempt'' = Some (JInt (dc_attempt x))"
    "map_of item ''expiresAtMs'' = Some (JInt (dc_expires_at_ms x))"
    "dc_subscription x = sub" "dc_consumer_group x = cgr"
    using decode_delivery_item [OF token(1)] by metis
  obtain item' pos' where j: "token_decode d co (JStr token) ''delivery'' t' = Inr item'"
    "map_of item' ''positions'' = Some pos'" "parse_positions pos' = Inr [(dc_partition y, dc_offset y)]"
    "map_of item' ''assignmentEpoch'' = Some (JInt (dc_assignment_epoch y))"
    "map_of item' ''attempt'' = Some (JInt (dc_attempt y))"
    "map_of item' ''expiresAtMs'' = Some (JInt (dc_expires_at_ms y))"
    "dc_subscription y = sub" "dc_consumer_group y = cgr"
    using decode_delivery_item [OF token(2)] by metis
  have "item' = item" using token_decode_same [OF i(1) j(1)] by blast
  then show ?thesis using i j by (intro delivery_coordinates.equality) auto
qed

text \<open>
  C33. A delivery is acknowledged at most once: after an acknowledgement that returned, the same
  token is refused by both operations, with no call but the clock's.
\<close>

theorem acknowledged_once:
  fixes cmd :: negative_acknowledge_command
  assumes "acknowledge g cmd tx w = (Inr ar, w')"
  shows "isl (fst (acknowledge g cmd tx' w')) \<and> isl (fst (negative_acknowledge g cmd w'))
    \<and> hist (snd (acknowledge g cmd tx' w')) = TimeNs # hist w'
    \<and> hist (snd (negative_acknowledge g cmd w')) = TimeNs # hist w'"
proof -
  obtain co s where s: "decoded g cmd w = Inr co" "map_of (states w') (ack_key cmd) = Some s"
      "map_of (gs_inflight s) (token_key_of co) = None"
    using acknowledged_state [OF assms] by blast
  show ?thesis
  proof (cases "decoded g cmd w'")
    case (Inl x)
    then show ?thesis
      using s(2) by (simp add: acknowledge_def negative_acknowledge_def existing_state_def op_defs stored_def
          ack_group_def nack_group_def decode_token_run push_def)
  next
    case (Inr co')
    then have co': "co' = co" using decode_delivery_same s(1) by blast
    show ?thesis
      using ack_refused [OF s(2) Inr, of tx'] nack_refused [OF s(2) Inr] s(3)
      by (simp add: co' acknowledgeable_def)
  qed
qed

subsection \<open>The effect of an acknowledgement\<close>

definition acknowledged_update :: "int \<Rightarrow> int \<Rightarrow> group_state \<Rightarrow> group_state" where
  "acknowledged_update part off s = resolved_update (part, off)
     (safe_update part (safe_target part off s) (drained_update part off s))"

lemma safe_update_idle:
  "safe_target part off s = safe_start part off s \<Longrightarrow>
   safe_update part (safe_target part off s) (drained_update part off s) = drained_update part off s"
  by (simp add: safe_update_def drained_update_def safe_start_def dsetdefault_def dget_def dset_same split: option.splits)

lemma acknowledge_attributes:
  "list_all valid_attribute [(''committed'', TBool b), (''transactional'', TBool b')]"
  "valid_key ''meridian.kafka.acknowledge.completed''"
proof -
  have "valid_key ''committed''" "valid_key ''transactional''" by code_simp+
  then show "list_all valid_attribute [(''committed'', TBool b), (''transactional'', TBool b')]"
    by (simp add: valid_attribute_TBool)
qed code_simp

lemma wp_settle:
  fixes w :: "'w consumer_world_scheme"
  assumes "quiet_sink (g_env g)" and "\<forall>c tps h. e_raises (g_env g) (Commit c tps # h) = None"
    and "\<forall>h. \<not> isl (encode_position (g_core g) (g_digests g) (g_codec g) (ps_ref (ack_stream cmd))
      (ps_topic (ack_stream cmd)) part (safe_target part off (grp w)) None (e_time_ns (g_env g) h div 1000000))"
    and "part = dc_partition co" and "off = dc_offset co"
  shows "wp (settle g cmd False co) (\<lambda>ar w'. grp w' = acknowledged_update part off (grp w) \<and> states w' = states w
      \<and> (\<exists>ev. hist w' = SinkEmit ev # UtcNow # TimeNs #
        (if safe_start part off (grp w) < safe_target part off (grp w)
         then [Commit (gs_consumer (grp w)) [(ps_topic (ack_stream cmd), part, safe_target part off (grp w))]] else [])
        @ hist w) \<and> ar_committed ar = (safe_start part off (grp w) < safe_target part off (grp w))) (\<lambda>_ _. False) w"
proof -
  have le: "safe_start part off (grp w) \<le> safe_target part off (grp w)"
    using advance_spec by (simp add: safe_target_def)
  have enc: "\<exists>pos. encode_position (g_core g) (g_digests g) (g_codec g) (ps_ref (ack_stream cmd))
      (ps_topic (ack_stream cmd)) part (safe_target part off (grp w)) None (e_time_ns (g_env g) h div 1000000) = Inr pos" for h
    using assms(3) by (metis isl_def sum.exhaust_sel)
  note em = wp_emit_quiet [OF assms(1) acknowledge_attributes]
  show ?thesis
  proof (cases "safe_start part off (grp w) < safe_target part off (grp w)")
    case True
    obtain pos where pos: "encode_position (g_core g) (g_digests g) (g_codec g) (ps_ref (ack_stream cmd))
        (ps_topic (ack_stream cmd)) part (safe_target part off (grp w)) None
        (e_time_ns (g_env g) (TimeNs # Commit (gs_consumer (grp w)) [(ps_topic (ack_stream cmd), part, safe_target part off (grp w))] # hist w) div 1000000) = Inr pos"
      using enc by blast
    show ?thesis
      using True assms(2,4,5) pos
      by (auto simp: settle_def settle_from_def commit_safe_def wp_simps Let_def push_def acknowledged_update_def
          resolved_update_def safe_update_def intro!: em)
  next
    case False
    then have eq: "safe_target part off (grp w) = safe_start part off (grp w)" using le by simp
    obtain pos where pos: "encode_position (g_core g) (g_digests g) (g_codec g) (ps_ref (ack_stream cmd))
        (ps_topic (ack_stream cmd)) part (safe_target part off (grp w)) None
        (e_time_ns (g_env g) (TimeNs # hist w) div 1000000) = Inr pos"
      using enc by blast
    have n: "map_of (gs_safe_next (drained_update part off (grp w))) part = Some (safe_target part off (grp w))"
      unfolding eq by (simp add: drained_update_def safe_start_def dget_def map_of_dsetdefault split: option.splits)
    show ?thesis
      using False assms(4,5) pos n safe_update_idle [OF eq]
      by (auto simp: settle_def settle_from_def wp_simps Let_def push_def acknowledged_update_def
          resolved_update_def intro!: em)
  qed
qed

lemma acknowledge_run:
  assumes "map_of (states w) (ack_key cmd) = Some s" and "decoded g cmd w = Inr co"
    and "dc_assignment_epoch co = gs_assignment_epoch s" and "acknowledgeable s co"
    and "quiet_sink (g_env g)" and "\<forall>c tps h. e_raises (g_env g) (Commit c tps # h) = None"
    and "\<forall>h. \<not> isl (encode_position (g_core g) (g_digests g) (g_codec g) (ps_ref (ack_stream cmd))
      (ps_topic (ack_stream cmd)) (dc_partition co) (safe_target (dc_partition co) (dc_offset co) s) None
      (e_time_ns (g_env g) h div 1000000))"
  shows "\<exists>ar w' ev. acknowledge g cmd False w = (Inr ar, w')
    \<and> ar_committed ar = (safe_start (dc_partition co) (dc_offset co) s < safe_target (dc_partition co) (dc_offset co) s)
    \<and> states w' = dset (ack_key cmd) (acknowledged_update (dc_partition co) (dc_offset co) s) (states w)
    \<and> hist w' = SinkEmit ev # UtcNow # TimeNs #
        (if safe_start (dc_partition co) (dc_offset co) s < safe_target (dc_partition co) (dc_offset co) s
         then [Commit (gs_consumer s) [(ps_topic (ack_stream cmd), dc_partition co,
           safe_target (dc_partition co) (dc_offset co) s)]] else []) @ TimeNs # hist w"
proof -
  let ?v = "push TimeNs (w\<lparr>grp := s\<rparr>)"
  have v: "grp ?v = s" "hist ?v = TimeNs # hist w" by (simp_all add: push_def)
  from wp_settle [where w = ?v and cmd = cmd, OF assms(5,6) _ refl refl, unfolded v, OF assms(7)]
  obtain ar u ev where run: "settle g cmd False co ?v = (Inr ar, u)"
    and ar: "ar_committed ar = (safe_start (dc_partition co) (dc_offset co) s < safe_target (dc_partition co) (dc_offset co) s)"
    and u: "grp u = acknowledged_update (dc_partition co) (dc_offset co) s" "states u = states w"
      "hist u = SinkEmit ev # UtcNow # TimeNs #
        (if safe_start (dc_partition co) (dc_offset co) s < safe_target (dc_partition co) (dc_offset co) s
         then [Commit (gs_consumer s) [(ps_topic (ack_stream cmd), dc_partition co,
           safe_target (dc_partition co) (dc_offset co) s)]] else []) @ TimeNs # hist w"
    by (auto simp: wp_def push_def split: prod.splits sum.splits)
  have "ack_group g cmd False (w\<lparr>grp := s\<rparr>) = (Inr ar, u)"
    using run assms(2-4) v by (simp add: ack_group_def bindM_def decode_token_run getM_def)
  from existing_run [where m = "ack_group g cmd False", OF assms(1) this] show ?thesis
    using ar u by (simp add: acknowledge_def)
qed

subsection \<open>Witnesses\<close>

text \<open>
  A group that was assigned partition 0, received the event at offset 5 and holds it in flight
  under the token \<open>sample_issued\<close>.
\<close>

definition sample_consumer_env :: env where
  "sample_consumer_env = \<lparr>e_monotonic = (\<lambda>h. 0), e_time_ns = (\<lambda>h. 7000000), e_text = (\<lambda>h. ''x''),
     e_raises = (\<lambda>h. None), e_rebalances = (\<lambda>h. []), e_message = (\<lambda>h. None), e_committed = (\<lambda>h. []),
     e_watermarks = (\<lambda>h. (0, 9)), e_metadata = (\<lambda>h. None), e_reports = (\<lambda>h. []), e_queued = (\<lambda>h. 0),
     e_admin = (\<lambda>h. \<lparr>am_brokers = None, am_controller = None, am_cluster_id = None\<rparr>), e_config = (\<lambda>h. None),
     e_bytes = (\<lambda>h. [])\<rparr>"

definition sample_consumer_ctx :: ctx where
  "sample_consumer_ctx = sample_ctx\<lparr>g_env := sample_consumer_env\<rparr>"

definition sample_group_state :: group_state where
  "sample_group_state = (new_group_state sample_poll 0)\<lparr>gs_assignment_epoch := 1, gs_assigned := [0],
     gs_inflight := [((0, 5), \<lparr>if_event = sample_event ''1'', if_attempt = 1, if_assignment_epoch = 1,
       if_expires_at_ms = 1007\<rparr>)], gs_attempts := [((0, 5), 1)], gs_safe_next := [(0, 5)]\<rparr>"

definition sample_consumer_world :: consumer_world where
  "sample_consumer_world = \<lparr>hist = [], tel_events = [], tel_maximum = 4, idempotency = [], txn_active = False,
     txn_lease = False, txn_offsets = [], txn_group_metadata = None, txn_group_key = None,
     states = [((sample_ref ''sub'', sample_ref ''g''), sample_group_state)], engine_closed = False,
     grp = sample_group_state\<rparr>"

definition sample_issued :: string where
  "sample_issued = (case encode_delivery sample_core sample_digests sample_codec (sample_ref ''sub'')
     (sample_ref ''g'') ''t'' 0 5 1 1 1007 7 of Inr tok \<Rightarrow> dt_value tok | Inl _ \<Rightarrow> [])"

definition sample_nack :: negative_acknowledge_command where
  "sample_nack = \<lparr>ack_subscription = sample_subscription, ack_consumer_group = sample_group,
     ack_stream = sample_stream ''a'' ''t'', ack_delivery = JStr sample_issued, nack_retry_after_ms = 50,
     nack_classification = None\<rparr>"

definition sample_ack :: acknowledge_command where
  "sample_ack = acknowledge_command.truncate sample_nack"

definition sample_coordinates :: delivery_coordinates where
  "sample_coordinates = \<lparr>dc_subscription = sample_ref ''sub'', dc_consumer_group = sample_ref ''g'', dc_partition = 0,
     dc_offset = 5, dc_assignment_epoch = 1, dc_attempt = 1, dc_expires_at_ms = 1007\<rparr>"

lemma sample_ctx_fields [simp]:
  "g_core sample_consumer_ctx = sample_core" "g_digests sample_consumer_ctx = sample_digests"
  "g_codec sample_consumer_ctx = sample_codec" "g_settings sample_consumer_ctx = sample_settings"
  "g_env sample_consumer_ctx = sample_consumer_env" "e_raises sample_consumer_env = (\<lambda>h. None)"
  "e_time_ns sample_consumer_env = (\<lambda>h. 7000000)"
  by (simp_all add: sample_consumer_ctx_def sample_ctx_def sample_consumer_env_def)

lemma sample_ack_fields [simp]:
  "ack_key sample_ack = (sample_ref ''sub'', sample_ref ''g'')" "ack_key sample_nack = (sample_ref ''sub'', sample_ref ''g'')"
  "ack_stream sample_ack = sample_stream ''a'' ''t''" "ack_stream sample_nack = sample_stream ''a'' ''t''"
  "ack_delivery sample_ack = JStr sample_issued" "ack_delivery sample_nack = JStr sample_issued"
  "sub_ref (ack_subscription sample_ack) = sample_ref ''sub''" "cg_ref (ack_consumer_group sample_ack) = sample_ref ''g''"
  "sub_ref (ack_subscription sample_nack) = sample_ref ''sub''" "cg_ref (ack_consumer_group sample_nack) = sample_ref ''g''"
  "ps_topic (sample_stream n tp) = tp" "ps_ref (sample_stream n tp) = sample_ref n"
  by (simp_all add: sample_ack_def sample_nack_def ack_key_def sample_subscription_def sample_group_def sample_stream_def
      acknowledge_command.truncate_def)

lemma sample_decoded:
  "decode_delivery sample_core sample_digests sample_codec (JStr sample_issued) (sample_ref ''sub'') (sample_ref ''g'') ''t'' 7
   = Inr sample_coordinates"
proof -
  have "\<not> isl (encode_delivery sample_core sample_digests sample_codec (sample_ref ''sub'') (sample_ref ''g'') ''t'' 0 5 1 1 1007 7)"
    by code_simp
  then obtain tok where tok: "encode_delivery sample_core sample_digests sample_codec (sample_ref ''sub'')
      (sample_ref ''g'') ''t'' 0 5 1 1 1007 7 = Inr tok" by (metis isl_def sum.exhaust_sel)
  show ?thesis
    using decode_encode_delivery [OF sample_codec_ok sample_digests_good sample_ref_utf8(2,3) tok, of 7]
    by (simp add: sample_issued_def tok sample_coordinates_def)
qed

lemma sample_state: "map_of (states sample_consumer_world) (sample_ref ''sub'', sample_ref ''g'') = Some sample_group_state"
  by (simp add: sample_consumer_world_def)

lemma sample_quiet: "quiet_sink sample_consumer_env"
  by (simp add: quiet_sink_def)

lemma sample_settles:
  "acknowledgeable sample_group_state sample_coordinates" "dc_assignment_epoch sample_coordinates = gs_assignment_epoch sample_group_state"
  "safe_target 0 5 sample_group_state = 6" "safe_start 0 5 sample_group_state = 5" "gs_consumer sample_group_state = 0"
  by code_simp+

lemma sample_position: "\<not> isl (encode_position sample_core sample_digests sample_codec (sample_ref ''a'') ''t'' 0 6 None 7)"
  by code_simp

lemma sample_acknowledged:
  fixes cmd :: "'c acknowledge_command_scheme"
  assumes "ack_key cmd = (sample_ref ''sub'', sample_ref ''g'')" and "ack_stream cmd = sample_stream ''a'' ''t''"
    and "ack_delivery cmd = JStr sample_issued" and "sub_ref (ack_subscription cmd) = sample_ref ''sub''"
    and "cg_ref (ack_consumer_group cmd) = sample_ref ''g''"
  shows "\<exists>ar w' ev. acknowledge sample_consumer_ctx cmd False sample_consumer_world = (Inr ar, w') \<and> ar_committed ar
    \<and> states w' = [((sample_ref ''sub'', sample_ref ''g''), acknowledged_update 0 5 sample_group_state)]
    \<and> hist w' = [SinkEmit ev, UtcNow, TimeNs, Commit 0 [(''t'', 0, 6)], TimeNs]"
proof -
  have co: "dc_partition sample_coordinates = 0" "dc_offset sample_coordinates = 5"
    by (simp_all add: sample_coordinates_def)
  have w: "states sample_consumer_world = [((sample_ref ''sub'', sample_ref ''g''), sample_group_state)]"
    "hist sample_consumer_world = []" by (simp_all add: sample_consumer_world_def)
  show ?thesis
    using acknowledge_run [of sample_consumer_world cmd sample_group_state sample_consumer_ctx sample_coordinates] sample_position
    by (simp add: assms sample_decoded sample_settles sample_quiet co w)
qed


theorem stale_tokens_refused_witness:
  "\<exists>x (w :: consumer_world) s. acknowledge sample_consumer_ctx sample_nack False w = (Inl x, w\<lparr>hist := TimeNs # hist w, grp := s\<rparr>)
    \<and> has_kind RebalanceConflict x"
proof -
  let ?s = "sample_group_state\<lparr>gs_assignment_epoch := 2\<rparr>"
  let ?w = "sample_consumer_world\<lparr>states := [((sample_ref ''sub'', sample_ref ''g''), ?s)]\<rparr>"
  have "map_of (states ?w) (ack_key sample_nack) = Some ?s" by simp
  moreover have "decoded sample_consumer_ctx sample_nack ?w = Inr sample_coordinates" by (simp add: sample_decoded)
  moreover have "dc_assignment_epoch sample_coordinates \<noteq> gs_assignment_epoch ?s" by (simp add: sample_coordinates_def)
  ultimately have "\<exists>x. acknowledge sample_consumer_ctx sample_nack False ?w = (Inl x, ?w\<lparr>hist := TimeNs # hist ?w, grp := ?s\<rparr>)
    \<and> has_kind RebalanceConflict x" using stale_tokens_refused [of ?w sample_nack ?s sample_consumer_ctx sample_coordinates False] by auto
  then show ?thesis by blast
qed

theorem acknowledged_once_witness:
  "\<exists>ar w'. acknowledge sample_consumer_ctx sample_nack False sample_consumer_world = (Inr ar, w')
    \<and> isl (fst (negative_acknowledge sample_consumer_ctx sample_nack w'))"
proof -
  obtain ar w' where "acknowledge sample_consumer_ctx sample_nack False sample_consumer_world = (Inr ar, w')"
    using sample_acknowledged [of sample_nack] by auto
  then show ?thesis using acknowledged_once by blast
qed

end
