(* ===== verification/Consumer_Progress.thy ===== *)
theory Consumer_Progress
  imports Consumer_Safety
begin

text \<open>
  The bookkeeping of a partition refines an abstract tracker of unsettled offsets, whatever the
  group consumer does.
\<close>

section \<open>The tracker of a partition\<close>

text \<open>
  What a group promises about one partition, abstractly: the position below which everything is
  resolved, and what has been acknowledged above it.
\<close>

record tracker =
  tr_next :: "int option"
  tr_pending :: "int set"

definition next_or :: "int \<Rightarrow> tracker \<Rightarrow> int" where
  "next_or off t = (case tr_next t of None \<Rightarrow> off | Some n \<Rightarrow> n)"

definition open_at :: "int \<Rightarrow> tracker \<Rightarrow> tracker" where
  "open_at off t = t\<lparr>tr_next := Some (next_or off t)\<rparr>"

definition settle_at :: "int \<Rightarrow> tracker \<Rightarrow> tracker" where
  "settle_at off t = (let pending = insert off (tr_pending t); n = (LEAST m. next_or off t \<le> m \<and> m \<notin> pending)
     in \<lparr>tr_next = Some n, tr_pending = {a \<in> pending. a < next_or off t \<or> n \<le> a}\<rparr>)"

definition forget_from :: "int option \<Rightarrow> tracker \<Rightarrow> tracker" where
  "forget_from bound t = t\<lparr>tr_pending := (case bound of None \<Rightarrow> {} | Some off \<Rightarrow> {a \<in> tr_pending t. a < off})\<rparr>"

text \<open>
  What happens to the partitions, and what it does to the tracker of one of them. A revocation
  names the partitions it takes away in its own way, read by \<open>gone\<close>.
\<close>

datatype ('k, 'r) tracker_event =
  Deliver 'k int | Settle 'k int | Rewind 'k int | Revoke 'r | Jump "('k, int) dict"

fun track :: "('r \<Rightarrow> 'k set) \<Rightarrow> 'k \<Rightarrow> ('k, 'r) tracker_event \<Rightarrow> tracker \<Rightarrow> tracker" where
  "track gone k (Deliver k' off) t = (if k' = k then open_at off t else t)"
| "track gone k (Settle k' off) t = (if k' = k then settle_at off t else t)"
| "track gone k (Rewind k' off) t = (if k' = k then forget_from (Some off) t else t)"
| "track gone k (Revoke rs) t = (if k \<in> gone rs then forget_from None t else t)"
| "track gone k (Jump target) t = \<lparr>tr_next = map_of target k, tr_pending = {}\<rparr>"

text \<open>
  A tracker is \<open>eager\<close> when it holds nothing it could have advanced over. From there on every
  settlement moves the position only over what was settled.
\<close>

definition eager :: "tracker \<Rightarrow> bool" where
  "eager t = (case tr_next t of None \<Rightarrow> tr_pending t = {} | Some n \<Rightarrow> n \<notin> tr_pending t)"

lemma least_gap:
  assumes "finite A" shows "(LEAST m. n \<le> m \<and> m \<notin> A) \<notin> A" "n \<le> (LEAST m :: int. n \<le> m \<and> m \<notin> A)"
    "{n..<(LEAST m. n \<le> m \<and> m \<notin> A)} \<subseteq> A"
proof -
  obtain xs where xs: "set xs = A" using assms finite_list by blast
  have l: "(LEAST m. n \<le> m \<and> m \<notin> A) = snd (advance xs n)" unfolding xs [symmetric] by (rule advance_is_least [symmetric])
  show "(LEAST m. n \<le> m \<and> m \<notin> A) \<notin> A" "n \<le> (LEAST m :: int. n \<le> m \<and> m \<notin> A)"
    "{n..<(LEAST m. n \<le> m \<and> m \<notin> A)} \<subseteq> A"
    unfolding l using advance_spec [of n xs] xs by auto
qed

lemma settle_at_eager: "finite (tr_pending t) \<Longrightarrow> eager (settle_at off t)"
  using least_gap(1) [of "insert off (tr_pending t)" "next_or off t"] by (simp add: eager_def settle_at_def Let_def)

lemma track_eager: "eager t \<Longrightarrow> finite (tr_pending t) \<Longrightarrow> eager (track gone k e t)"
proof (cases e)
  case (Deliver k' off)
  assume "eager t"
  then show ?thesis by (auto simp: Deliver eager_def open_at_def next_or_def split: option.splits)
next
  case (Settle k' off)
  assume "eager t" "finite (tr_pending t)"
  then show ?thesis by (simp add: Settle settle_at_eager)
qed (auto simp: eager_def forget_from_def split: option.splits)

lemma track_finite: "finite (tr_pending t) \<Longrightarrow> finite (tr_pending (track gone k e t))"
  by (cases e) (auto simp: open_at_def settle_at_def forget_from_def Let_def)

lemma tracks_eager:
  "eager t \<Longrightarrow> finite (tr_pending t) \<Longrightarrow> eager (fold (track gone k) es t) \<and> finite (tr_pending (fold (track gone k) es t))"
  by (induction es arbitrary: t) (simp_all add: track_eager track_finite)

text \<open>
  A component that keeps such trackers, by key. The laws say how each of its operations moves
  the tracker of its key and that it leaves the others alone.
\<close>

locale tracking =
  fixes look :: "'s \<Rightarrow> 'k \<Rightarrow> tracker" and gone :: "'r \<Rightarrow> 'k set"
    and deliver :: "'k \<Rightarrow> int \<Rightarrow> 's \<Rightarrow> 's" and settled :: "'k \<Rightarrow> int \<Rightarrow> 's \<Rightarrow> 's"
    and rewind :: "'k \<Rightarrow> int \<Rightarrow> 's \<Rightarrow> 's" and revoke :: "'r \<Rightarrow> 's \<Rightarrow> 's" and jump :: "('k, int) dict \<Rightarrow> 's \<Rightarrow> 's"
  assumes look_deliver: "look (deliver k off s) k' = (if k' = k then open_at off (look s k) else look s k')"
    and look_settled: "look (settled k off s) k' = (if k' = k then settle_at off (look s k) else look s k')"
    and look_rewind: "look (rewind k off s) k' = (if k' = k then forget_from (Some off) (look s k) else look s k')"
    and look_revoke: "look (revoke rs s) k' = (if k' \<in> gone rs then forget_from None (look s k') else look s k')"
    and look_jump: "look (jump target s) k' = \<lparr>tr_next = map_of target k', tr_pending = {}\<rparr>"
begin

primrec perform :: "('k, 'r) tracker_event \<Rightarrow> 's \<Rightarrow> 's" where
  "perform (Deliver k off) s = deliver k off s"
| "perform (Settle k off) s = settled k off s"
| "perform (Rewind k off) s = rewind k off s"
| "perform (Revoke rs) s = revoke rs s"
| "perform (Jump target) s = jump target s"

lemma look_perform: "look (perform e s) k = track gone k e (look s k)"
  by (cases e) (simp_all add: look_deliver look_settled look_rewind look_revoke look_jump)

lemma look_performs: "look (fold perform es s) k = fold (track gone k) es (look s k)"
  by (induction es arbitrary: s) (simp_all add: look_perform)

lemma performs_eager:
  "eager (look s k) \<Longrightarrow> finite (tr_pending (look s k)) \<Longrightarrow> eager (look (fold perform es s) k)"
  by (simp add: look_performs tracks_eager)

end

section \<open>The group state keeps trackers\<close>

definition group_look :: "group_state \<Rightarrow> int \<Rightarrow> tracker" where
  "group_look s part = \<lparr>tr_next = map_of (gs_safe_next s) part, tr_pending = acks s part\<rparr>"

definition partitions_of :: "topic_partition list \<Rightarrow> int set" where
  "partitions_of ps = set (map (\<lambda>(_, p, _). p) ps)"

definition group_delivered :: "int \<Rightarrow> int \<Rightarrow> group_state \<Rightarrow> group_state" where
  "group_delivered part off s = delivered_update (part, off) (dget (gs_attempts s) (part, off) 0 + 1) s"

lemma acks_rewound: "acks (rewound_update k off s) part = (if part = k then {a \<in> acks s k. a < off} else acks s part)"
  by (auto simp: rewound_update_def dget_def)

lemma acks_revoked: "acks (revoked_update ps s) part = (if part \<in> partitions_of ps then {} else acks s part)"
  by (simp add: revoked_update_def dget_def Let_def partitions_of_def)

lemma acks_acknowledged: "acks (acknowledged_update k off s) part = (if part = k
    then {a \<in> insert off (acks s k). a < safe_start k off s \<or> safe_target k off s \<le> a} else acks s part)"
proof -
  have "set (fst (advance A n)) = {x \<in> set A. x < n \<or> snd (advance A n) \<le> x}" for A n
    using advance_spec [of n A] by auto
  then show ?thesis
    by (auto simp: acknowledged_update_def resolved_update_def safe_update_def drained_update_def safe_target_def dget_def)
qed

lemma next_revoked: "map_of (gs_safe_next (revoked_update ps s)) = map_of (gs_safe_next s)"
  by (simp add: revoked_update_def Let_def)

interpretation group: tracking group_look partitions_of group_delivered acknowledged_update rewound_update
  revoked_update position_update
proof unfold_locales
  show "group_look (group_delivered k off s) k' = (if k' = k then open_at off (group_look s k) else group_look s k')"
    for k off s k'
    by (auto simp: group_look_def group_delivered_def delivered_update_def open_at_def next_or_def map_of_dsetdefault
        split: option.splits)
  show "group_look (acknowledged_update k off s) k' = (if k' = k then settle_at off (group_look s k) else group_look s k')"
    for k off s k'
  proof -
    have n: "next_or off (group_look s k) = safe_start k off s"
      by (simp add: next_or_def group_look_def safe_start_def dget_def split: option.split)
    have t: "safe_target k off s = (LEAST m. safe_start k off s \<le> m \<and> m \<notin> insert off (acks s k))"
      by (simp only: safe_target_def advance_is_least set_insert)
    have "map_of (gs_safe_next (acknowledged_update k off s)) k' = (if k' = k then Some (safe_target k off s) else map_of (gs_safe_next s) k')"
      by (auto simp: acknowledged_update_def resolved_update_def safe_update_def drained_update_def map_of_dsetdefault split: option.split)
    then show ?thesis
      using acks_acknowledged [of k off s k'] n t by (simp add: group_look_def settle_at_def Let_def)
  qed
  show "group_look (rewound_update k off s) k' = (if k' = k then forget_from (Some off) (group_look s k) else group_look s k')"
    for k off s k'
    using acks_rewound [of k off s k'] by (auto simp: group_look_def forget_from_def rewound_update_def)
  show "group_look (revoked_update rs s) k' = (if k' \<in> partitions_of rs then forget_from None (group_look s k') else group_look s k')"
    for rs s k'
    using acks_revoked [of rs s k'] next_revoked [of rs s] by (simp add: group_look_def forget_from_def)
  show "group_look (position_update target s) k' = \<lparr>tr_next = map_of target k', tr_pending = {}\<rparr>" for target s k'
    by (simp add: group_look_def position_update_def dget_def)
qed

section \<open>The operations refine the tracker\<close>

text \<open>
  \<open>tracks E\<close>: the engine's map of groups is untouched, and the trackers of the group at hand
  have moved by a sequence of events of \<open>E\<close>.
\<close>

type_synonym group_event = "(int, topic_partition list) tracker_event"

abbreviation group_track :: "int \<Rightarrow> group_event \<Rightarrow> tracker \<Rightarrow> tracker" where
  "group_track \<equiv> track partitions_of"

definition moved :: "group_event list \<Rightarrow> group_state \<Rightarrow> group_state \<Rightarrow> bool" where
  "moved es s s' \<longleftrightarrow> (\<forall>part. group_look s' part = fold (group_track part) es (group_look s part))"

definition tracks :: "group_event set \<Rightarrow> 'w consumer_world_scheme \<Rightarrow> 'w consumer_world_scheme \<Rightarrow> bool" where
  "tracks E w w' \<longleftrightarrow> (\<exists>es. set es \<subseteq> E \<and> moved es (grp w) (grp w'))"

interpretation tracked: op_preorder "tracks E" for E :: "group_event set"
proof unfold_locales
  show "tracks E w w" for w :: "'a consumer_world_scheme"
    unfolding tracks_def moved_def by (intro exI [of _ "[]"]) simp
  show "tracks E w w''" if "tracks E w w'" "tracks E w' w''" for w w' w'' :: "'a consumer_world_scheme"
  proof -
    from that obtain es fs where "set es \<subseteq> E" "moved es (grp w) (grp w')" "set fs \<subseteq> E" "moved fs (grp w') (grp w'')"
      by (auto simp: tracks_def)
    then have "set (es @ fs) \<subseteq> E" "moved (es @ fs) (grp w) (grp w'')" by (simp_all add: moved_def)
    then show ?thesis unfolding tracks_def by blast
  qed
qed

declare tracked.keeps_rules [keeps_intros]

lemma moved_Nil: "moved [] s s' \<longleftrightarrow> (\<forall>part. group_look s' part = group_look s part)"
  by (simp add: moved_def)

lemma tracks_same: "keeps (unchanged (\<lambda>w. group_look (grp w))) m \<Longrightarrow> keeps (tracks E) m"
  unfolding keeps_def unchanged_def tracks_def by (metis empty_set empty_subsetI moved_Nil)

lemma tracks_calls [keeps_intros]:
  "keeps (tracks E) (ask c answer)" "keeps (tracks E) (request e c answer')"
  "keeps (tracks E) (monotonic e)" "keeps (tracks E) (now_ms e)" "keeps (tracks E) (emit e name as)"
  "keeps (tracks E) (grpM f)" "keeps (tracks E) (getM h)"
  by (rule tracks_same, intro keeps_intros ignores_grp)+

lemma tracks_upd:
  "(\<And>s. \<exists>es. set es \<subseteq> E \<and> moved es s (h s)) \<Longrightarrow> keeps (tracks E) (updM h)"
  by (simp add: keeps_def updM_def modM_def tracks_def)

lemma tracks_upd_same: "(\<And>s part. group_look (h s) part = group_look s part) \<Longrightarrow> keeps (tracks E) (updM h)"
  by (rule tracks_upd) (metis empty_set empty_subsetI moved_Nil)

lemma tracks_perform: "e \<in> E \<Longrightarrow> (\<And>s part. group_look (h s) part = group_track part e (group_look s part)) \<Longrightarrow>
    keeps (tracks E) (updM h)"
  by (rule tracks_upd) (auto simp: moved_def intro!: exI [of _ "[e]"])

text \<open>The events of a poll: nothing is settled and no position is set.\<close>

definition passive_events :: "group_event set" where
  "passive_events = {e. (\<exists>k off. e = Deliver k off \<or> e = Rewind k off) \<or> (\<exists>ps. e = Revoke ps)}"

lemma passive_simps [simp]:
  "Deliver k off \<in> passive_events" "Rewind k off \<in> passive_events" "Revoke ps \<in> passive_events"
  "Settle k off \<notin> passive_events" "Jump target \<notin> passive_events"
  by (auto simp: passive_events_def)

lemma rebalance_tracks [keeps_intros]: "keeps (tracks passive_events) (on_rebalance g rb)"
proof (cases rb)
  case (OnAssign ps)
  have "keeps (tracks passive_events) (updM (assigned_update ps))"
    by (rule tracks_upd_same) (simp add: group_look_def assigned_update_def)
  then show ?thesis
    unfolding OnAssign on_rebalance.simps on_assigned_def rebalance_evidence_def by (intro keeps_intros)
next
  case (OnRevoke ps)
  have "keeps (tracks passive_events) (updM (revoked_update ps))"
    by (rule tracks_perform [of "Revoke ps"]) (simp_all add: group.look_revoke)
  then show ?thesis
    unfolding OnRevoke on_rebalance.simps on_revoked_def rebalance_evidence_def by (intro keeps_intros)
qed

lemma serving_tracks [keeps_intros]: "keeps (tracks passive_events) (serving g c answer)"
  unfolding serving_def split_def by (intro keeps_intros)

lemma deliver_tracks [keeps_intros]: "keeps (tracks passive_events) (deliver_event g m)"
proof -
  have "keeps (tracks passive_events) (updM (delivered_update (part, off) n))" for part off n
    using group.look_deliver [of part off]
    by (intro tracks_perform [of "Deliver part off"])
      (simp_all add: group_delivered_def group_look_def delivered_update_def)
  moreover have "keeps (tracks passive_events) (updM (\<lambda>s. s\<lparr>gs_inflight := h s\<rparr>))" for h
    by (rule tracks_upd_same) (simp add: group_look_def)
  ultimately show ?thesis unfolding deliver_event_def Let_def by (intro keeps_intros)
qed

lemma paused_tracks [keeps_intros]: "keeps (tracks E) (updM (\<lambda>s. s\<lparr>gs_paused := h s\<rparr>))"
  by (rule tracks_upd_same) (simp add: group_look_def)

lemma rewound_tracks [keeps_intros]: "keeps (tracks passive_events) (updM (rewound_update part off))"
  by (rule tracks_perform [of "Rewind part off"]) (simp_all add: group.look_rewind)

lemma poll_parts_track [keeps_intros]:
  "keeps (tracks passive_events) (group_deliver g m)" "keeps (tracks passive_events) (resume_due g)"
  "keeps (tracks passive_events) (expire_inflight g)"
  unfolding group_deliver_def resume_due_def expire_inflight_def Let_def split_def by (intro keeps_intros)+

lemma poll_loop_tracks [keeps_intros]: "keeps (tracks passive_events) (poll_loop n g cmd dl ds)"
  by (induction n arbitrary: ds) (auto simp: poll_timeout_def Let_def intro!: keeps_intros)

lemma lag_tracks [keeps_intros]: "keeps (tracks E) (lag_of g s parts n)"
  by (induction parts arbitrary: n) (auto intro!: keeps_intros)

lemma poll_tracks: "keeps (tracks passive_events) (poll_group g cmd)"
  unfolding poll_group_def group_lag_def by (intro keeps_intros)

lemma wp_seq:
  "wp m (\<lambda>_. R) (\<lambda>_ _. True) s \<Longrightarrow> (\<And>x t. R t \<Longrightarrow> wp (f x) Q (\<lambda>_ _. True) t) \<Longrightarrow> wp (bindM m f) Q (\<lambda>_ _. True) s"
  unfolding wp_bind by (erule wp_mono) simp_all

lemma commit_safe_grp:
  "wp (commit_safe g cmd tx c part safe) (\<lambda>_ w'. grp w' = safe_update part safe (grp w)) (\<lambda>_ _. True) w"
proof -
  have "keeps (unchanged grp) (stage_offset g key co tp pt n)" for key co tp pt n
    unfolding stage_offset_def by (intro keeps_intros ignores_grp) (simp_all add: staged_def)
  then have "keeps (unchanged grp) (if \<not> tx
       then normalizedM (g_attrs g) ''meridian.streaming.acknowledge''
         (command (g_env g) (Commit c [(ps_topic (ack_stream cmd), part, safe)]))
       else stage_offset g (ref_str (g_core g) (cg_ref (ack_consumer_group cmd))) c (ps_topic (ack_stream cmd)) part safe)"
    by (intro keeps_intros ignores_grp)
  from wp_mono [OF keeps_wp [OF this, of w]]
  show ?thesis unfolding commit_safe_def by (intro wp_seq [where R = "unchanged grp w"]) (auto simp: wp_grp unchanged_def)
qed

lemma settle_acknowledges:
  "wp (settle g cmd tx co) (\<lambda>_ w'. grp w' = acknowledged_update (dc_partition co) (dc_offset co) (grp w)) (\<lambda>_ _. True) w"
proof -
  let ?p = "dc_partition co" and ?o = "dc_offset co"
  let ?s = "safe_update ?p (safe_target ?p ?o (grp w)) (drained_update ?p ?o (grp w))"
  have le: "safe_start ?p ?o (grp w) \<le> safe_target ?p ?o (grp w)" using advance_spec by (simp add: safe_target_def)
  have idle: "?s = drained_update ?p ?o (grp w)" if "\<not> safe_start ?p ?o (grp w) < safe_target ?p ?o (grp w)"
    using safe_update_idle [of ?p ?o "grp w"] that le by simp
  have c: "wp (whenM (safe_start ?p ?o (grp w) < safe_target ?p ?o (grp w))
      (commit_safe g cmd tx (gs_consumer (grp w)) ?p (safe_target ?p ?o (grp w))))
      (\<lambda>_ w'. grp w' = ?s) (\<lambda>_ _. True) (w\<lparr>grp := drained_update ?p ?o (grp w)\<rparr>)"
    unfolding wp_when
    using commit_safe_grp [of g cmd tx _ ?p "safe_target ?p ?o (grp w)" "w\<lparr>grp := drained_update ?p ?o (grp w)\<rparr>"] idle
    by simp
  show ?thesis
    unfolding settle_def settle_from_def Let_def
    apply (simp only: wp_bind [of "getM _"] wp_get wp_bind [of "updM _"] wp_grp(2))
    apply (rule wp_seq [OF c])
    apply (simp only: wp_bind [of "updM _"] wp_grp(2))
    apply (rule wp_mono [OF keeps_wp [where R = "unchanged grp"]])
      apply (intro keeps_intros ignores_grp)
     apply (simp_all add: unchanged_def acknowledged_update_def)
    done
qed

lemma acknowledge_tracks:
  assumes "acknowledge g cmd tx w = (Inr ar, w')"
  shows "\<exists>s s' part off. map_of (states w) (ack_key cmd) = Some s \<and> map_of (states w') (ack_key cmd) = Some s'
    \<and> (part, off) \<in> resolves g cmd \<and> moved [Settle part off] s s'"
proof -
  obtain s where s: "map_of (states w) (ack_key cmd) = Some s"
    using assms by (cases "map_of (states w) (ack_key cmd)") (auto simp: acknowledge_def existing_state_def op_defs)
  let ?w = "push TimeNs (w\<lparr>grp := s\<rparr>)"
  obtain v where run: "ack_group g cmd tx (w\<lparr>grp := s\<rparr>) = (Inr ar, v)"
    and w': "w' = v\<lparr>states := dset (ack_key cmd) (grp v) (states v)\<rparr>"
    using assms s by (auto simp: acknowledge_def existing_state_def op_defs stored_def split: prod.splits)
  obtain co where co: "token_key_of co \<in> resolves g cmd" "settle g cmd tx co ?w = (Inr ar, v)"
    using ack_group_cases [OF run] by auto
  have "grp v = acknowledged_update (dc_partition co) (dc_offset co) (grp ?w)"
    by (rule wp_Inr [OF settle_acknowledges co(2)])
  then have "moved [Settle (dc_partition co) (dc_offset co)] s (grp v)"
    by (simp add: moved_def group.look_settled push_def)
  then show ?thesis using s co(1) by (auto simp: w' token_key_of_def)
qed

section \<open>Properties\<close>

text \<open>
  C4. Refinement: for every partition, a poll, whatever it returns or raises, moves the group's
  bookkeeping as a sequence of deliveries, rewinds and revocations moves the abstract tracker,
  and an acknowledgement that returns moves it exactly as settling the token's offset does:
  the position becomes the least unsettled offset.
\<close>

theorem group_refines_tracker:
  assumes "poll_group g pc v = (q, v')" and "acknowledge g cmd tx w = (Inr ar, w')"
  shows "(\<exists>es. set es \<subseteq> passive_events \<and> (\<forall>part. group_look (grp v') part = fold (group_track part) es (group_look (grp v) part)))
    \<and> (\<exists>s s' part off. map_of (states w) (ack_key cmd) = Some s \<and> map_of (states w') (ack_key cmd) = Some s'
      \<and> (part, off) \<in> resolves g cmd \<and> group_look s' part = settle_at off (group_look s part)
      \<and> (\<forall>part'. part' \<noteq> part \<longrightarrow> group_look s' part' = group_look s part'))"
  using keepsD [OF poll_tracks assms(1)] acknowledge_tracks [OF assms(2)]
  unfolding tracks_def moved_def by fastforce

theorem group_refines_tracker_witness:
  "\<exists>ar w' es s s'. acknowledge sample_consumer_ctx sample_ack False sample_consumer_world = (Inr ar, w')
    \<and> group_look (grp (snd (poll_group sample_consumer_ctx sample_poll sample_consumer_world))) 0
      = fold (group_track 0) es (group_look (grp sample_consumer_world) 0)
    \<and> map_of (states w') (ack_key sample_ack) = Some s' \<and> group_look s' 0 = settle_at 5 (group_look sample_group_state 0)"
proof -
  obtain q v where p: "poll_group sample_consumer_ctx sample_poll sample_consumer_world = (q, v)" by force
  obtain ar w' where a: "acknowledge sample_consumer_ctx sample_ack False sample_consumer_world = (Inr ar, w')"
    using sample_acknowledged [of sample_ack] by auto
  note both = group_refines_tracker [OF p a]
  obtain es where es: "group_look (grp v) 0 = fold (group_track 0) es (group_look (grp sample_consumer_world) 0)"
    using both by blast
  from both obtain s s' part off where s: "map_of (states sample_consumer_world) (ack_key sample_ack) = Some s"
    "map_of (states w') (ack_key sample_ack) = Some s'" "(part, off) \<in> resolves sample_consumer_ctx sample_ack"
    "group_look s' part = settle_at off (group_look s part)" by blast
  from s(3) obtain co now where co: "(part, off) = token_key_of co" and d: "decode_delivery sample_core sample_digests
      sample_codec (JStr sample_issued) (sample_ref ''sub'') (sample_ref ''g'') ''t'' now = Inr co"
    unfolding resolves_def by auto
  have "co = sample_coordinates" by (rule decode_delivery_same [OF d sample_decoded])
  then have "part = 0" "off = 5" using co by (simp_all add: token_key_of_def sample_coordinates_def)
  moreover have "s = sample_group_state" using s(1) sample_state by simp
  ultimately show ?thesis using p a es s(2,4) by auto
qed

end
