(* ===== verification/Consumer_Delivery.thy ===== *)
theory Consumer_Delivery
  imports Consumer_Progress
begin

text \<open>
  Polling: what a poll may call, how much it returns, and that it ends.
\<close>

section \<open>The calls of a poll\<close>

fun poll_call :: "call \<Rightarrow> bool" where
  "poll_call (Commit _ _) = False"
| "poll_call (Produce _ _) = False"
| "poll_call (SendOffsets _ _ _ _) = False"
| "poll_call _ = True"

lemma rebalance_calls [keeps_intros]: "keeps (calls_only poll_call) (on_rebalance g rb)"
  by (cases rb) (auto simp: on_assigned_def on_revoked_def rebalance_evidence_def intro!: keeps_intros)

lemma serving_calls [keeps_intros]: "poll_call c \<Longrightarrow> keeps (calls_only poll_call) (serving g c answer)"
  unfolding serving_def split_def by (intro keeps_intros)

lemma poll_part_calls [keeps_intros]:
  "keeps (calls_only poll_call) (group_deliver g m)" "keeps (calls_only poll_call) (resume_due g)"
  "keeps (calls_only poll_call) (expire_inflight g)"
  unfolding group_deliver_def deliver_event_def resume_due_def expire_inflight_def Let_def split_def
  by (intro keeps_intros poll_call.simps TrueI; simp)+

lemma poll_loop_calls [keeps_intros]: "keeps (calls_only poll_call) (poll_loop n g cmd dl ds)"
  by (induction n arbitrary: ds) (auto simp: poll_timeout_def Let_def intro!: keeps_intros)

lemma lag_calls [keeps_intros]: "keeps (calls_only poll_call) (lag_of g s parts n)"
  by (induction parts arbitrary: n) (auto intro!: keeps_intros)

lemma stored_calls [keeps_intros]: "keeps (calls_only P) m \<Longrightarrow> keeps (calls_only P) (stored key m)"
  by (auto simp: keeps_def stored_def calls_only_def split: prod.split) (metis snd_conv)

lemma poll_calls: "keeps (calls_only poll_call) (poll g cmd)"
  unfolding poll_def ensure_state_def poll_group_def group_lag_def by (intro keeps_intros; simp)

lemma wp_True: "wp m (\<lambda>_ _. True) (\<lambda>_ _. True) s"
  by (simp add: wp_def split: prod.split sum.split)

lemma poll_loop_limit:
  "int (length ds) \<le> poll_limit cmd \<Longrightarrow>
   wp (poll_loop n g cmd dl ds) (\<lambda>ds' _. int (length ds') \<le> poll_limit cmd) (\<lambda>_ _. True) w"
proof (induction n arbitrary: ds w)
  case (Suc n)
  have IH: "wp (poll_loop n g cmd dl ds') (\<lambda>ds' _. int (length ds') \<le> poll_limit cmd) (\<lambda>_ _. True) w'"
    if "int (length ds') \<le> poll_limit cmd" for ds' and w' :: "'a consumer_world_scheme" using Suc.IH that .
  show ?case
    unfolding poll_loop.simps wp_if
    apply (intro if_bool_eq_conj [THEN iffD2] conjI impI)
     apply (simp add: wp_ret Suc.prems)
    apply (rule wp_bind_any, rule wp_bind_any, rule wp_bind_any)
    apply (simp only: wp_if if_bool_eq_conj)
    apply (intro conjI impI)
     apply (simp add: wp_ret Suc.prems)
    apply (rule wp_bind_any, rule wp_bind_any, rule wp_bind_any)
    apply (auto simp: wp_simps Suc.prems split: option.split intro!: IH wp_mono [OF wp_True])
    done
qed (simp add: wp_throw)

text \<open>
  A poll, whatever it meets, makes no commit, produces nothing and stages no offset, and
  when it returns it returns at most as many deliveries as asked for.
\<close>

theorem poll_bounded:
  assumes "poll g cmd w = (r, w')" and "0 \<le> poll_limit cmd"
  shows "calls_only poll_call w w' \<and> (case r of Inr ds \<Rightarrow> int (length ds) \<le> poll_limit cmd | Inl _ \<Rightarrow> True)"
proof -
  have "wp (poll_group g cmd) (\<lambda>ds _. int (length ds) \<le> poll_limit cmd) (\<lambda>_ _. True) v"
    for v :: "'a consumer_world_scheme"
    unfolding poll_group_def
    apply (rule wp_bind_any)
    apply (simp only: wp_bind [of "poll_loop _ _ _ _ _"])
    apply (rule wp_mono [OF poll_loop_limit], simp add: assms(2))
     apply (rule wp_bind_any, rule wp_bind_any)
     apply (simp_all add: wp_ret)
    done
  then have "wp (stored key (poll_group g cmd)) (\<lambda>ds _. int (length ds) \<le> poll_limit cmd) (\<lambda>_ _. True) v"
    for key and v :: "'a consumer_world_scheme"
    unfolding wp_def stored_def by (cases "poll_group g cmd v") (metis (mono_tags, lifting) case_prod_conv)
  then have "wp (poll g cmd) (\<lambda>ds _. int (length ds) \<le> poll_limit cmd) (\<lambda>_ _. True) w"
    unfolding poll_def by (intro wp_bind_any)
  then show ?thesis using keepsD [OF poll_calls assms(1)] assms(1) by (auto simp: wp_def split: sum.split)
qed

section \<open>Termination\<close>

lemma ends_grp [ends_intros]: "terminates (grpM f)" "terminates (updM h)"
  by (simp_all add: grpM_def updM_def ends_ret)

lemma ends_rebalance [ends_intros]: "env_returns (g_env g) \<Longrightarrow> terminates (on_rebalance g rb)"
  by (cases rb) (auto simp: on_assigned_def on_revoked_def rebalance_evidence_def intro!: ends_intros)

lemma ends_serving [ends_intros]:
  assumes "env_returns (g_env g)" shows "terminates (serving g c answer)"
proof (rule terminatesI)
  fix w :: "'a consumer_world_scheme"
  have "e_raises (g_env g) (c # hist w) \<noteq> Some Diverged" using assms by (simp add: env_returns_def)
  moreover have "terminates (forM rbs (on_rebalance g) :: ('a, unit) group_op)" for rbs
    using assms by (intro ends_intros)
  ultimately show "wp (serving g c answer) (\<lambda>_ _. True) (\<lambda>x _. x \<noteq> Diverged) w"
    unfolding serving_def split_def wp_bind wp_ask
    by (auto simp: wp_simps split: option.split intro!: wp_mono [OF terminates_wp] ends_ret ends_throw)
qed

definition core_returns :: "core \<Rightarrow> bool" where
  "core_returns c \<longleftrightarrow> (\<forall>v. finite_failure (event_parse c v))"

lemma finite_loads [fails_intros]: "finite_failure (json_loads raw)"
  by (rule fails_mono [OF fails_primitives(1)]) (auto simp: data_error_def)

lemma finite_except [fails_intros]: "finite_failure m \<Longrightarrow> e \<noteq> Diverged \<Longrightarrow> finite_failure (exceptE c ks e m)"
  unfolding exceptE_def by (auto simp: failsE_def mapExcE_Inl_iff)

lemma finite_decode_event [fails_intros]:
  "core_returns c \<Longrightarrow> finite_failure (decode_event c m strm)"
  unfolding decode_event_def core_returns_def
  by (intro fails_intros) (auto split: json.split intro!: fails_intros)

lemma finite_encode_delivery [fails_intros]:
  "finite_failure (encode_delivery c d co sub cgr tp p off ep att ex now)"
  unfolding encode_delivery_def by (intro fails_intros)

lemma ends_deliver [ends_intros]:
  "env_returns (g_env g) \<Longrightarrow> core_returns (g_core g) \<Longrightarrow> terminates (group_deliver g m)"
  unfolding group_deliver_def deliver_event_def Let_def by (intro ends_intros fails_intros) simp_all

lemma ends_upkeep [ends_intros]:
  "env_returns (g_env g) \<Longrightarrow> terminates (resume_due g)" "env_returns (g_env g) \<Longrightarrow> terminates (expire_inflight g)"
  unfolding resume_due_def expire_inflight_def Let_def split_def by (intro ends_intros; assumption)+

lemma ends_lag [ends_intros]: "env_returns (g_env g) \<Longrightarrow> terminates (lag_of g s parts n)"
  by (induction parts arbitrary: n) (auto intro!: ends_intros)

text \<open>An operation that ends and only adds to the history.\<close>

lemma ends_since:
  assumes "terminates m" and "keeps (calls_only P) m" and "since h s"
    and "\<And>x t. since h t \<Longrightarrow> wp (f x) (\<lambda>_ _. True) (\<lambda>x _. x \<noteq> Diverged) t"
  shows "wp (bindM m f) (\<lambda>_ _. True) (\<lambda>x _. x \<noteq> Diverged) s"
  unfolding wp_bind
  by (rule wp_mono [OF wp_conj [OF terminates_wp [OF assms(1)] keeps_wp [OF assms(2)]]])
    (use assms(3,4) since_calls in blast)+

text \<open>A round of the loop, from its clock reading on, starts later than the round before.\<close>

lemma later_reading:
  assumes "clock_advances e d" and "since (Monotonic # h) t"
  shows "e_monotonic e (Monotonic # h) + d \<le> e_monotonic e (Monotonic # hist t)"
  using assms by (auto simp: clock_advances_def since_def)

lemma ends_timeout [ends_intros]: "terminates (poll_timeout g cmd rest)"
  unfolding poll_timeout_def Let_def by (intro ends_intros)

lemma timeout_calls [keeps_intros]: "keeps (calls_only poll_call) (poll_timeout g cmd rest)"
  unfolding poll_timeout_def Let_def by (intro keeps_intros; simp)

lemma grp_calls [keeps_intros]: "keeps (calls_only P) (grpM f)" "keeps (calls_only P) (updM u)"
  by (simp_all add: grpM_def updM_def keeps_intros)

lemma poll_loop_ends:
  fixes w :: "'w consumer_world_scheme"
  assumes adv: "clock_advances (g_env g) d" and er: "env_returns (g_env g)" and cr: "core_returns (g_core g)"
    and wait: "0 < poll_wait_timeout_ms cmd"
  shows "since (Monotonic # h) w \<Longrightarrow> deadline \<le> e_monotonic (g_env g) (Monotonic # h) + of_nat n * d \<Longrightarrow>
    n < fuel \<Longrightarrow> wp (poll_loop fuel g cmd deadline ds) (\<lambda>_ _. True) (\<lambda>x _. x \<noteq> Diverged) w"
proof (induction fuel arbitrary: n h ds w)
  case (Suc fuel)
  let ?time = "\<lambda>h. e_monotonic (g_env g) (Monotonic # h)" and ?serve = "\<lambda>c timeout. normalizedM (g_attrs g) ''meridian.streaming.poll''
    (serving g (ConsumerPoll c timeout) (e_message (g_env g)))"
  have IH: "wp (poll_loop fuel g cmd deadline ds') (\<lambda>_ _. True) (\<lambda>x _. x \<noteq> Diverged) u"
    if t: "since (Monotonic # h) t" and u: "since (Monotonic # hist t) u" and late: "\<not> deadline - ?time (hist t) \<le> 0"
    for ds' and t u :: "'w consumer_world_scheme"
  proof (rule Suc.IH [OF u, of "n - 1"])
    note later = later_reading [OF adv t]
    then have "n \<noteq> 0" using late Suc.prems(2) adv by (intro notI) (simp add: clock_advances_def)
    then show "deadline \<le> ?time (hist t) + of_nat (n - 1) * d" "n - 1 < fuel"
      using later Suc.prems by (cases n; simp add: algebra_simps)+
  qed
  have round: "wp (bindM (poll_timeout g cmd (deadline - ?time (hist t))) (\<lambda>timeout.
        bindM (grpM gs_consumer) (\<lambda>consumer.
        bindM (?serve consumer timeout) (\<lambda>received.
        case received of
          None \<Rightarrow> if poll_wait_timeout_ms cmd = 0 then retM ds else poll_loop fuel g cmd deadline ds
        | Some m \<Rightarrow> (case m_error m of
            Some err \<Rightarrow>
              if partition_eof g err then poll_loop fuel g cmd deadline ds
              else throwM (normalize_kafka_error (g_attrs g) (KafkaErrorValue err) (Some ''meridian.streaming.poll''))
          | None \<Rightarrow> bindM (group_deliver g m) (\<lambda>d.
              poll_loop fuel g cmd deadline (case d of None \<Rightarrow> ds | Some x \<Rightarrow> ds @ [x]))))))) (\<lambda>_ _. True)
      (\<lambda>x _. x \<noteq> Diverged) (push Monotonic t)"
    if t: "since (Monotonic # h) t" and late: "\<not> deadline - ?time (hist t) \<le> 0" for t :: "'w consumer_world_scheme"
  proof -
    have start: "since (Monotonic # hist t) (push Monotonic t)" by (simp add: since_def)
    have sc: "keeps (calls_only poll_call) (?serve c timeout)" "terminates (?serve c timeout)" for c timeout
      by (intro keeps_intros; simp) (intro ends_intros er)
    have dl: "wp (bindM (group_deliver g m) (\<lambda>d. poll_loop fuel g cmd deadline (case d of None \<Rightarrow> ds | Some x \<Rightarrow> ds @ [x])))
        (\<lambda>_ _. True) (\<lambda>x _. x \<noteq> Diverged) u" if "since (Monotonic # hist t) u" for m and u :: "'w consumer_world_scheme"
      by (rule ends_since [OF ends_deliver [OF er cr] poll_part_calls(1) that]) (rule IH [OF t _ late])
    show ?thesis
      apply (rule ends_since [OF ends_timeout timeout_calls start])
      apply (rule ends_since [OF ends_grp(1) grp_calls(1) [of poll_call]], assumption)
      apply (rule ends_since [OF sc(2) sc(1)], assumption)
      using wait by (auto simp: wp_ret wp_throw wp_if intro!: IH [OF t _ late] dl split: option.split)
  qed
  show ?case
    unfolding poll_loop.simps wp_if
    apply (intro if_bool_eq_conj [THEN iffD2] conjI impI)
     apply (simp add: wp_ret)
    apply (rule ends_since [OF ends_upkeep(2) [OF er] poll_part_calls(3) Suc.prems(1)])
    apply (rule ends_since [OF ends_upkeep(1) [OF er] poll_part_calls(2)], assumption)
    apply (simp only: wp_bind [of "monotonic _"] wp_monotonic wp_if if_bool_eq_conj)
    apply (intro conjI impI)
     apply (simp add: wp_ret)
    apply (rule round)
     using wait apply (simp_all only: simp_thms)
    done
qed simp

text \<open>
  C34. A poll that may wait always ends: when the clock advances by at least \<open>d\<close> seconds between
  two readings, \<open>n\<close> steps of \<open>d\<close> cover the wait and the loop has fuel for more than \<open>n\<close> rounds, it
  returns deliveries or raises an exception of the program, whatever arrives and however often
  partitions are exhausted, expire or are rebalanced.
\<close>

theorem poll_terminates:
  assumes "clock_advances (g_env g) d" and "env_returns (g_env g)" and "core_returns (g_core g)"
    and "0 < poll_wait_timeout_ms cmd" and "of_int (poll_wait_timeout_ms cmd) / 1000 \<le> of_nat n * d" and "n < g_fuel g"
  shows "fst (poll_group g cmd w) \<noteq> Inl Diverged"
proof -
  let ?s = "since (Monotonic # hist w) :: 'a consumer_world_scheme \<Rightarrow> bool"
  let ?dl = "e_monotonic (g_env g) (Monotonic # hist w) + of_int (poll_wait_timeout_ms cmd) / 1000"
  have "wp (poll_loop (g_fuel g) g cmd ?dl []) (\<lambda>_ _. True) (\<lambda>x _. x \<noteq> Diverged) (push Monotonic w)"
    by (rule poll_loop_ends [OF assms(1-4) _ _ assms(6), of "hist w"]) (use assms(5) in \<open>simp_all add: since_def\<close>)
  moreover have "terminates (group_lag g)" unfolding group_lag_def by (intro ends_intros assms(2))
  ultimately have "wp (poll_group g cmd) (\<lambda>_ _. True) (\<lambda>x _. x \<noteq> Diverged) w"
    unfolding poll_group_def wp_bind [of "monotonic _"] wp_monotonic wp_bind [of "poll_loop _ _ _ _ _"]
    by (elim wp_mono) (intro terminates_wp ends_intros assms(2), assumption)
  then show ?thesis by (auto simp: wp_def split: prod.splits)
qed

section \<open>Witnesses\<close>

lemma sample_core_returns: "core_returns sample_core"
  by (auto simp: core_returns_def sample_core_def sample_parse_def failsE_def split: json.splits list.splits prod.splits)

theorem poll_bounded_witness:
  "calls_only poll_call sample_consumer_world (snd (poll sample_consumer_ctx sample_poll sample_consumer_world))"
proof -
  have "0 \<le> poll_limit sample_poll" by code_simp
  then show ?thesis using poll_bounded [of sample_consumer_ctx sample_poll sample_consumer_world] by (metis prod.collapse)
qed

theorem poll_terminates_witness:
  "fst (poll_group sample_ctx (sample_poll\<lparr>poll_wait_timeout_ms := 1500\<rparr>) sample_consumer_world) \<noteq> Inl Diverged"
proof (rule poll_terminates [OF sample_ctx_env(3,2), of _ 2])
  show "core_returns (g_core sample_ctx)" using sample_core_returns by (simp add: sample_ctx_def)
  show "2 < g_fuel sample_ctx" by (simp add: sample_ctx_def)
qed simp_all

end
