(* ===== verification/Consumer_Fencing.thy ===== *)
theory Consumer_Fencing
  imports Consumer_Delivery
begin

text \<open>
  The state of a group over its whole life: an invariant that every operation keeps, assignment
  epochs that only grow and fence tokens at a rebalance, a fresh delivery that can be
  acknowledged, a dead letter that is published before its source is committed, and the group
  position as a compare-and-set.
\<close>

section \<open>The invariant of a group\<close>

text \<open>
  What is in flight was attempted, at most as often as counted, in an epoch not after the
  current one, and its partition has a safe position.
\<close>

definition inflight_ok :: "group_state \<Rightarrow> int \<times> int \<Rightarrow> inflight \<Rightarrow> bool" where
  "inflight_ok s key item \<longleftrightarrow> 1 \<le> if_attempt item \<and> if_attempt item \<le> dget (gs_attempts s) key 0
     \<and> if_assignment_epoch item \<le> gs_assignment_epoch s \<and> map_of (gs_safe_next s) (fst key) \<noteq> None"

definition group_ok :: "group_state \<Rightarrow> bool" where
  "group_ok s \<longleftrightarrow> 0 \<le> gs_assignment_epoch s \<and> distinct (gs_assigned s)
     \<and> (\<forall>key n. map_of (gs_attempts s) key = Some n \<longrightarrow> 1 \<le> n)
     \<and> (\<forall>key item. map_of (gs_inflight s) key = Some item \<longrightarrow> inflight_ok s key item)"

lemma group_okI:
  assumes "0 \<le> gs_assignment_epoch s" and "distinct (gs_assigned s)"
    and "\<And>key n. map_of (gs_attempts s) key = Some n \<Longrightarrow> 1 \<le> n"
    and "\<And>key item. map_of (gs_inflight s) key = Some item \<Longrightarrow> inflight_ok s key item"
  shows "group_ok s"
  unfolding group_ok_def using assms by blast

lemma group_okD:
  assumes "group_ok s"
  shows "0 \<le> gs_assignment_epoch s" and "distinct (gs_assigned s)"
    and "map_of (gs_attempts s) key = Some n \<Longrightarrow> 1 \<le> n"
    and "map_of (gs_inflight s) key = Some item \<Longrightarrow> inflight_ok s key item"
    and "0 \<le> dget (gs_attempts s) key 0"
proof -
  have a: "map_of (gs_attempts s) key = Some n \<Longrightarrow> 1 \<le> n" for key n using assms unfolding group_ok_def by blast
  show "0 \<le> gs_assignment_epoch s" "distinct (gs_assigned s)" "map_of (gs_attempts s) key = Some n \<Longrightarrow> 1 \<le> n"
    "map_of (gs_inflight s) key = Some item \<Longrightarrow> inflight_ok s key item"
    using assms unfolding group_ok_def by blast+
  show "0 \<le> dget (gs_attempts s) key 0" using a [of key] by (force simp: dget_def split: option.split)
qed

lemma new_group_ok: "group_ok (new_group_state cmd c)"
  by (simp add: group_ok_def new_group_state_def)

lemma rebalanced_ok:
  assumes "group_ok s"
  shows "group_ok (assigned_update ps s)" and "group_ok (revoked_update ps s)"
proof -
  note d = group_okD [OF assms]
  have f: "inflight_ok s key item" if "map_of (gs_inflight s) key = Some item" for key item by (rule d(4) [OF that])
  show "group_ok (assigned_update ps s)"
    by (rule group_okI) (use d f in \<open>auto simp: assigned_update_def inflight_ok_def\<close>, force+)
  show "group_ok (revoked_update ps s)"
    by (rule group_okI) (use d f in \<open>auto simp: revoked_update_def inflight_ok_def Let_def dget_def split: if_splits option.splits\<close>, force+)
qed

lemma bookkeeping_ok:
  assumes "group_ok s"
  shows "group_ok (s\<lparr>gs_paused := ps\<rparr>)" and "group_ok (safe_update part safe s)" and "group_ok (drained_update part off s)"
    and "group_ok (resolved_update key s)" and "group_ok (rewound_update part off s)" and "group_ok (position_update target s)"
    and "group_ok (s\<lparr>gs_inflight := dpop key (gs_inflight s)\<rparr>)"
proof -
  note d = group_okD [OF assms]
  have f: "inflight_ok s key item" if "map_of (gs_inflight s) key = Some item" for key item by (rule d(4) [OF that])
  show "group_ok (s\<lparr>gs_paused := ps\<rparr>)" "group_ok (safe_update part safe s)" "group_ok (position_update target s)"
    "group_ok (rewound_update part off s)" "group_ok (s\<lparr>gs_inflight := dpop key (gs_inflight s)\<rparr>)"
    by (rule group_okI; use d f in \<open>force simp: safe_update_def position_update_def rewound_update_def inflight_ok_def split: if_splits\<close>)+
  show "group_ok (drained_update part off s)"
    by (rule group_okI; use d f in \<open>force simp: drained_update_def inflight_ok_def map_of_dsetdefault split: option.split\<close>)
  show "group_ok (resolved_update key s)"
    by (rule group_okI; use d f in \<open>force simp: resolved_update_def inflight_ok_def dget_def split: if_splits\<close>)
qed

lemma delivered_ok:
  assumes "group_ok s" and "n = dget (gs_attempts s) key 0 + 1"
  shows "group_ok (delivered_update key n s)"
    and "group_ok ((delivered_update key n s)\<lparr>gs_inflight := dset key \<lparr>if_event = ev, if_attempt = n,
      if_assignment_epoch = gs_assignment_epoch s, if_expires_at_ms = e\<rparr> (gs_inflight s)\<rparr>)"
proof -
  note d = group_okD [OF assms(1)]
  have f: "inflight_ok s key item" if "map_of (gs_inflight s) key = Some item" for key item by (rule d(4) [OF that])
  have mono: "dget (gs_attempts s) k 0 \<le> dget (dset key n (gs_attempts s)) k 0" for k
    using assms(2) by (simp add: dget_def)
  have pos: "1 \<le> n" using d(5) [of key] assms(2) by simp
  have keep: "inflight_ok (delivered_update key n s) k item" if "inflight_ok s k item" for k item
    using that mono [of k] by (auto simp: delivered_update_def inflight_ok_def map_of_dsetdefault split: option.splits)
  show "group_ok (delivered_update key n s)"
    by (rule group_okI) (use d pos keep [OF f] in \<open>auto simp: delivered_update_def split: if_splits\<close>)
  show "group_ok ((delivered_update key n s)\<lparr>gs_inflight := dset key \<lparr>if_event = ev, if_attempt = n,
      if_assignment_epoch = gs_assignment_epoch s, if_expires_at_ms = e\<rparr> (gs_inflight s)\<rparr>)"
    by (rule group_okI) (use d pos keep [OF f] in \<open>auto simp: delivered_update_def inflight_ok_def dget_def
        dsetdefault_dom [unfolded not_None_eq] split: if_splits\<close>)
qed

section \<open>Every operation keeps it\<close>

text \<open>
  \<open>sound_step\<close>: the engine's map of groups is untouched, the epoch of the group at hand has not
  gone back, and the group is in order if it was.
\<close>

definition sound_step :: "'w consumer_world_scheme \<Rightarrow> 'w consumer_world_scheme \<Rightarrow> bool" where
  "sound_step w w' \<longleftrightarrow> states w' = states w \<and> gs_assignment_epoch (grp w) \<le> gs_assignment_epoch (grp w')
     \<and> (group_ok (grp w) \<longrightarrow> group_ok (grp w'))"

interpretation sound: op_preorder sound_step
  by unfold_locales (auto simp: sound_step_def)

declare sound.keeps_rules [keeps_intros]

lemma sound_unchanged: "keeps (unchanged (\<lambda>w. (states w, grp w))) m \<Longrightarrow> keeps sound_step m"
  by (auto simp: keeps_def unchanged_def sound_step_def)

lemma sound_calls [keeps_intros]:
  "keeps sound_step (ask c answer)" "keeps sound_step (request e c answer')"
  "keeps sound_step (monotonic e)" "keeps sound_step (now_ms e)" "keeps sound_step (emit e name as)"
  "keeps sound_step (grpM f)" "keeps sound_step (getM h)"
  by (rule sound_unchanged, intro keeps_intros ignores_groups)+

lemma sound_publish [keeps_intros]: "keeps sound_step (publish g cmd override)"
  by (rule sound_unchanged, rule publish_unchanged) simp_all

lemma sound_stage [keeps_intros]: "keeps sound_step (stage_offset g key co tp pt n)"
  by (rule sound_unchanged, unfold stage_offset_def, intro keeps_intros ignores_groups) (simp_all add: staged_def)

lemma sound_upd:
  "(\<And>s. gs_assignment_epoch s \<le> gs_assignment_epoch (h s)) \<Longrightarrow> (\<And>s. group_ok s \<Longrightarrow> group_ok (h s)) \<Longrightarrow>
   keeps sound_step (updM h)"
  by (simp add: keeps_def updM_def modM_def sound_step_def)

lemma sound_updates [keeps_intros]:
  "keeps sound_step (updM (assigned_update ps))" "keeps sound_step (updM (revoked_update ps))"
  "keeps sound_step (updM (\<lambda>s. s\<lparr>gs_paused := f s\<rparr>))" "keeps sound_step (updM (safe_update part safe))"
  "keeps sound_step (updM (drained_update part off))" "keeps sound_step (updM (resolved_update key))"
  "keeps sound_step (updM (rewound_update part off))" "keeps sound_step (updM (position_update target))"
  "keeps sound_step (updM (\<lambda>s. s\<lparr>gs_inflight := dpop key (gs_inflight s)\<rparr>))"
  by (rule sound_upd; (rule bookkeeping_ok rebalanced_ok, assumption)?; simp add: assigned_update_def revoked_update_def
      safe_update_def drained_update_def resolved_update_def rewound_update_def position_update_def Let_def)+

abbreviation held :: "group_state \<Rightarrow> int \<times> int \<Rightarrow> event \<Rightarrow> int \<Rightarrow> group_state" where
  "held s key ev e \<equiv> (delivered_update key (dget (gs_attempts s) key 0 + 1) s)\<lparr>gs_inflight := dset key \<lparr>if_event = ev,
     if_attempt = dget (gs_attempts s) key 0 + 1, if_assignment_epoch = gs_assignment_epoch s, if_expires_at_ms = e\<rparr> (gs_inflight s)\<rparr>"

text \<open>What a delivery leaves behind, and the token it hands out.\<close>

definition issued :: "ctx \<Rightarrow> message \<Rightarrow> group_state \<Rightarrow> group_delivery \<Rightarrow> bool" where
  "issued g m s d \<longleftrightarrow> (\<exists>now. encode_delivery (g_core g) (g_digests g) (g_codec g) (sub_ref (poll_subscription (gs_command s)))
     (cg_ref (poll_consumer_group (gs_command s))) (gs_topic s) (m_partition m) (m_offset m) (gs_assignment_epoch s)
     (gd_attempt d) (gd_expires_at d) now = Inr (gd_token d))
     \<and> gd_attempt d = dget (gs_attempts s) (m_partition m, m_offset m) 0 + 1"

lemma delivered_same [simp]:
  "gs_assignment_epoch (delivered_update key n s) = gs_assignment_epoch s"
  "gs_inflight (delivered_update key n s) = gs_inflight s"
  by (simp_all add: delivered_update_def)

lemma encode_delivery_expiry: "encode_delivery c d co sub cgr tp p off ep att e now = Inr tok \<Longrightarrow> dt_expires_at tok = e"
  by (auto simp: encode_delivery_def)

lemma deliver_event_spec:
  "wp (deliver_event g m) (\<lambda>r w'. states w' = states w \<and> (\<exists>d. r = Some d \<and> issued g m (grp w) d
      \<and> grp w' = held (grp w) (m_partition m, m_offset m) (gd_event d) (gd_expires_at d)))
    (\<lambda>_ w'. sound_step w w') w"
  unfolding deliver_event_def Let_def
  by (auto simp: wp_simps push_def sound_step_def issued_def gs_topic_def encode_delivery_expiry delivered_ok(1) split: sum.split)

lemma deliver_event_sound [keeps_intros]: "keeps sound_step (deliver_event g m)"
  unfolding keeps_def
proof
  fix w :: "'a consumer_world_scheme"
  have "sound_step w w'" if "states w' = states w" "grp w' = held (grp w) key ev e" for w' key ev e
    using that delivered_ok(2) [OF _ refl] by (simp add: sound_step_def)
  then show "sound_step w (snd (deliver_event g m w))"
    using deliver_event_spec [of g m w] by (auto simp: wp_def split: prod.splits sum.splits)
qed

lemma rebalance_sound [keeps_intros]: "keeps sound_step (on_rebalance g rb)"
  by (cases rb) (auto simp: on_assigned_def on_revoked_def rebalance_evidence_def intro!: keeps_intros)

lemma serving_sound [keeps_intros]: "keeps sound_step (serving g c answer)"
  unfolding serving_def split_def by (intro keeps_intros)

lemma poll_parts_sound [keeps_intros]:
  "keeps sound_step (group_deliver g m)" "keeps sound_step (resume_due g)" "keeps sound_step (expire_inflight g)"
  unfolding group_deliver_def resume_due_def expire_inflight_def Let_def split_def by (intro keeps_intros)+

lemma poll_loop_sound [keeps_intros]: "keeps sound_step (poll_loop n g cmd dl ds)"
  by (induction n arbitrary: ds) (auto simp: poll_timeout_def Let_def intro!: keeps_intros)

lemma lag_sound [keeps_intros]: "keeps sound_step (lag_of g s parts n)"
  by (induction parts arbitrary: n) (auto intro!: keeps_intros)

lemma fill_sound [keeps_intros]: "keeps sound_step (fill_committed g c tp items d)"
  by (induction items arbitrary: d) (auto intro!: keeps_intros)

lemma poll_group_sound: "keeps sound_step (poll_group g cmd)"
  unfolding poll_group_def group_lag_def by (intro keeps_intros)

lemma ack_group_sound [keeps_intros]: "keeps sound_step (ack_group g cmd tx)"
  unfolding ack_group_def decode_token_def settle_def settle_from_def commit_safe_def Let_def by (intro keeps_intros)

lemma nack_group_sound: "keeps sound_step (nack_group g cmd)"
  unfolding nack_group_def decode_token_def dead_letter_def dead_letter_event_def schedule_redelivery_def Let_def
  by (intro keeps_intros)

lemma position_group_sound:
  "keeps sound_step (position_group g cmd)" "keeps sound_step (bindM (read_positions g tp) (\<lambda>(parts, pos). liftE (f pos)))"
  unfolding position_group_def read_positions_def committed_positions_def decode_positions_def validate_bounds_def Let_def split_def
  by (intro keeps_intros)+

subsection \<open>Over runs of the engine\<close>

text \<open>
  An invariant of every group, whatever its key, that a fresh group has: the engine's own
  bookkeeping, the creation, storing and removal of groups, keeps it.
\<close>

locale group_invariant =
  fixes I :: "group_state \<Rightarrow> bool"
  assumes fresh: "I (new_group_state cmd c)"
begin

definition everywhere :: "'w consumer_world_scheme \<Rightarrow> bool" where
  "everywhere w \<longleftrightarrow> (\<forall>key s. map_of (states w) key = Some s \<longrightarrow> I s)"

lemma everywhereD: "everywhere w \<Longrightarrow> map_of (states w) key = Some s \<Longrightarrow> I s"
  unfolding everywhere_def by blast

lemma everywhere_same: "everywhere w \<Longrightarrow> states w' = states w \<Longrightarrow> everywhere w'"
  unfolding everywhere_def by metis

lemma everywhere_stored:
  assumes "everywhere w" and "states v = states w" and "I (grp v)" and "stored key m w = (r, w')" and "m w = (q, v)"
  shows "everywhere w'"
  using assms by (auto simp: stored_def everywhere_def split: if_splits)

lemma everywhere_ensured:
  assumes "ensure_state g cmd w = (r, w')" and "everywhere w"
  shows "everywhere w' \<and> (r = Inr () \<longrightarrow> I (grp w'))"
proof -
  have "everywhere (v\<lparr>states := dset (state_key cmd) (new_group_state cmd c) (states w)\<rparr>)"
    for v :: "'a consumer_world_scheme" and c using assms(2) fresh by (auto simp: everywhere_def)
  then show ?thesis
    using assms(1) everywhere_same [OF assms(2)] everywhereD [OF assms(2), of "state_key cmd"] fresh
    by (auto simp: ensure_state_def op_defs request_def push_def Let_def split: if_splits option.splits sum.splits)
qed

end

interpretation order: group_invariant group_ok
  by unfold_locales (rule new_group_ok)

lemma stored_sound:
  assumes "keeps sound_step m" and "order.everywhere w" and "group_ok (grp w)" and "stored key m w = (r, w')"
  shows "order.everywhere w'"
proof -
  obtain q v where m: "m w = (q, v)" by force
  then show ?thesis
    using keepsD [OF assms(1) m] assms(2,3) by (intro order.everywhere_stored [OF assms(2) _ _ assms(4) m]) (auto simp: sound_step_def)
qed

lemma in_group_sound:
  assumes "keeps sound_step m" and "order.everywhere w"
    and "bindM (ensure_state g cmd) (\<lambda>_. stored (state_key cmd) m) w = (r, w')"
  shows "order.everywhere w'"
proof -
  obtain q v where e: "ensure_state g cmd w = (q, v)" by force
  note ok = order.everywhere_ensured [OF e assms(2)]
  show ?thesis
  proof (cases q)
    case (Inl x)
    then show ?thesis using assms(3) e ok by (simp add: bindM_def)
  next
    case (Inr u)
    then have "stored (state_key cmd) m v = (r, w')" using assms(3) e by (simp add: bindM_def)
    moreover have "order.everywhere v" "group_ok (grp v)" using ok Inr by simp_all
    ultimately show ?thesis using stored_sound [OF assms(1)] by blast
  qed
qed

lemma in_existing_sound:
  assumes "keeps sound_step m" and "order.everywhere w" and "bindM (existing_state key) (\<lambda>_. stored key m) w = (r, w')"
  shows "order.everywhere w'"
proof (cases "map_of (states w) key")
  case None
  then show ?thesis using assms by (simp add: existing_state_def op_defs)
next
  case (Some s)
  then have "stored key m (w\<lparr>grp := s\<rparr>) = (r, w')" using assms(3) by (simp add: existing_state_def op_defs)
  moreover have "order.everywhere (w\<lparr>grp := s\<rparr>)" by (rule order.everywhere_same [OF assms(2)]) simp
  moreover have "group_ok (grp (w\<lparr>grp := s\<rparr>))" using order.everywhereD [OF assms(2) Some] by simp
  ultimately show ?thesis using stored_sound [OF assms(1)] by blast
qed

lemma fingerprint_sound:
  assumes "current_position_fingerprint g sub cgr w = (r, w')" and "order.everywhere w" shows "order.everywhere w'"
proof (cases "group_stream (g_settings g) sub cgr")
  case (Inl x)
  then show ?thesis using assms by (simp add: current_position_fingerprint_def op_defs)
next
  case (Inr y)
  obtain a b c where y: "y = (a, b, c)" by (metis prod_cases3)
  have "bindM (ensure_state g (position_poll a b c)) (\<lambda>_. stored (state_key (position_poll a b c))
     (bindM (read_positions g (ps_topic c)) (\<lambda>(parts, pos).
      liftE (group_position_fingerprint (g_digests g) (ps_topic c) pos)))) w = (r, w')"
    using assms(1) Inr y by (simp add: current_position_fingerprint_def liftE_def bindM_def [of "\<lambda>s. (Inr _, s)"] Let_def)
  then show ?thesis by (rule in_group_sound [OF position_group_sound(2) assms(2)])
qed

lemma recover_states: "recover g sub cgr w = (r, w') \<Longrightarrow> states w' = dpop (sub, cgr) (states w) \<or> states w' = states w"
proof -
  assume run: "recover g sub cgr w = (r, w')"
  let ?v = "w\<lparr>states := dpop (sub, cgr) (states w)\<rparr>"
  show ?thesis
  proof (cases "map_of (states w) (sub, cgr)")
    case None
    then show ?thesis using run by (simp add: recover_def op_defs)
  next
    case (Some s)
    obtain q u where c: "close_consumer g s ?v = (q, u)" by force
    have "states w' = states u"
      using run Some c
      by (cases q) (auto simp: recover_def op_defs dest!: unchangedD [OF unchanged_emit [OF ignores_groups]])
    then show ?thesis using close_consumer_states [OF c] by simp
  qed
qed

lemma consumer_step_sound:
  assumes "consumer_step g w S w'" and "order.everywhere w" shows "order.everywhere w'"
  using assms(1)
proof cases
  case (polled cmd r)
  then show ?thesis by (intro in_group_sound [OF poll_group_sound assms(2)]) (simp add: poll_def)
next
  case (acknowledged cmd tx r)
  then show ?thesis by (intro in_existing_sound [OF ack_group_sound assms(2)]) (simp add: acknowledge_def)
next
  case (nacked cmd r)
  then show ?thesis by (intro in_existing_sound [OF nack_group_sound assms(2)]) (simp add: negative_acknowledge_def)
next
  case (positioned cmd r)
  then show ?thesis by (intro in_group_sound [OF position_group_sound(1) assms(2)]) (simp add: group_position_def Let_def)
next
  case (fingerprinted sub cgr r)
  then show ?thesis using fingerprint_sound [OF _ assms(2)] by blast
next
  case (recovered sub cgr r)
  then show ?thesis using recover_states [of g sub cgr w] assms(2) unfolding order.everywhere_def
    by (auto split: if_splits)
next
  case (closed r)
  then have "states w' = []"
    using close_all_states [where ss = "states w" and w = "w\<lparr>engine_closed := True, states := []\<rparr>"]
    by (simp add: consumer_close_def op_defs)
  then show ?thesis by (simp add: order.everywhere_def)
next
  case other
  then show ?thesis using order.everywhere_same [OF assms(2)] by blast
qed

text \<open>
  C11. Invariant of every group the engine holds, over any sequence of polls, acknowledgements,
  negative acknowledgements, position changes, recoveries and closes, each returning or
  raising: the epoch is not negative, the assigned partitions are distinct, every counted
  attempt is at least the first, and what is in flight was attempted at most as often as
  counted, in an epoch not after the current one, in a partition with a safe position.
\<close>

theorem group_invariant_holds:
  assumes "consumer_run g w R w'" and "states w = []"
  shows "map_of (states w') key = Some s \<Longrightarrow> group_ok s"
proof -
  from assms(1) have "order.everywhere w'"
  proof induction
    case start
    then show ?case using assms(2) by (simp add: order.everywhere_def)
  next
    case (more R w' S w'')
    then show ?case by (blast intro: consumer_step_sound)
  qed
  then show "map_of (states w') key = Some s \<Longrightarrow> group_ok s" by (rule order.everywhereD)
qed

section \<open>Rebalances fence tokens\<close>

lemma rebalance_epoch:
  "wp (on_rebalance g rb) (\<lambda>_ w'. gs_assignment_epoch (grp w) < gs_assignment_epoch (grp w'))
     (\<lambda>_ w'. gs_assignment_epoch (grp w) < gs_assignment_epoch (grp w')) w"
proof -
  have step: "wp (bindM (updM h) f) (\<lambda>_ w'. gs_assignment_epoch (grp w) < gs_assignment_epoch (grp w'))
      (\<lambda>_ w'. gs_assignment_epoch (grp w) < gs_assignment_epoch (grp w')) w"
    if "gs_assignment_epoch (h (grp w)) = gs_assignment_epoch (grp w) + 1" "\<And>x. keeps sound_step (f x)"
    for h and f :: "unit \<Rightarrow> ('a, unit) group_op"
    using that(1) wp_mono [OF keeps_wp [OF that(2), of "()" "w\<lparr>grp := h (grp w)\<rparr>"]]
    by (simp add: wp_bind wp_grp sound_step_def)
  show ?thesis
    by (cases rb) (auto simp: on_assigned_def on_revoked_def rebalance_evidence_def assigned_update_def revoked_update_def Let_def
        intro!: step keeps_intros)
qed

lemma serving_epoch:
  assumes "serving g c answer w = (r, w')" and "e_rebalances (g_env g) (c # hist w) \<noteq> []"
  shows "gs_assignment_epoch (grp w) < gs_assignment_epoch (grp w')"
proof -
  let ?lt = "\<lambda>w'. gs_assignment_epoch (grp w) < gs_assignment_epoch (grp w')"
  obtain rb rbs where rbs: "e_rebalances (g_env g) (c # hist w) = rb # rbs" using assms(2) by (metis neq_Nil_conv)
  let ?rest = "\<lambda>_. bindM (forM rbs (on_rebalance g)) (\<lambda>_. case e_raises (g_env g) (c # hist w) of
    Some x \<Rightarrow> throwM x | None \<Rightarrow> retM (answer (c # hist w)))"
  have k: "keeps sound_step (?rest x)" for x :: unit by (intro keeps_intros)
  have run: "serving g c answer w = bindM (on_rebalance g rb) ?rest (push c w)"
    by (simp add: serving_def bindM_def ask_def Let_def rbs split: prod.split sum.split)
  have "wp (bindM (on_rebalance g rb) ?rest) (\<lambda>_. ?lt) (\<lambda>_. ?lt) (push c w)"
    unfolding wp_bind [of "on_rebalance g rb"]
    by (rule wp_mono [OF rebalance_epoch], rule wp_mono [OF keeps_wp [OF k]]) (auto simp: sound_step_def push_def)
  then have "wp (serving g c answer) (\<lambda>_. ?lt) (\<lambda>_. ?lt) w" by (simp add: wp_def run)
  then show ?thesis using assms(1) by (simp add: wp_def split: sum.splits)
qed

text \<open>
  C10. A rebalance served inside a client call, assigning or revoking, and even when its callback
  raises, makes every token issued before it worthless: its acknowledgement is refused with
  \<open>RebalanceConflict\<close> and calls nothing but the clock.
\<close>

theorem rebalance_fences:
  assumes "serving g c answer w = (r, w')" and "e_rebalances (g_env g) (c # hist w) \<noteq> []"
    and "decoded g cmd w' = Inr co" and "dc_assignment_epoch co \<le> gs_assignment_epoch (grp w)"
  shows "\<exists>x. ack_group g cmd tx w' = (Inl x, push TimeNs w') \<and> has_kind RebalanceConflict x"
proof -
  have "dc_assignment_epoch co \<noteq> gs_assignment_epoch (grp w')" using serving_epoch [OF assms(1,2)] assms(4) by simp
  then show ?thesis
    using assms(3) by (simp add: ack_group_def bindM_def decode_token_run getM_def throwM_def push_def merror_def)
qed

section \<open>A fresh delivery can be acknowledged\<close>

lemma issued_paused [simp]: "issued g m (s\<lparr>gs_paused := ps\<rparr>) d = issued g m s d"
  by (simp add: issued_def gs_topic_def)

lemma group_deliver_spec:
  "wp (group_deliver g m) (\<lambda>r w'. \<forall>d. r = Some d \<longrightarrow> m_topic m = gs_topic (grp w) \<and> issued g m (grp w) d
      \<and> gs_assignment_epoch (grp w') = gs_assignment_epoch (grp w) \<and> gs_command (grp w') = gs_command (grp w)
      \<and> (\<exists>item. map_of (gs_inflight (grp w')) (m_partition m, m_offset m) = Some item
           \<and> if_attempt item = gd_attempt d \<and> if_assignment_epoch item = gs_assignment_epoch (grp w)))
    (\<lambda>_ _. True) w"
proof -
  let ?Q = "\<lambda>s r w'. \<forall>d. r = Some d \<longrightarrow> issued g m s d
      \<and> gs_assignment_epoch (grp w') = gs_assignment_epoch s \<and> gs_command (grp w') = gs_command s
      \<and> (\<exists>item. map_of (gs_inflight (grp w')) (m_partition m, m_offset m) = Some item
           \<and> if_attempt item = gd_attempt d \<and> if_assignment_epoch item = gs_assignment_epoch s)"
  have one: "wp (deliver_event g m) (?Q (grp v)) (\<lambda>_ _. True) v" for v :: "'a consumer_world_scheme"
    by (rule wp_mono [OF deliver_event_spec]) (auto simp: issued_def delivered_update_def)
  have two: "wp (deliver_event g m) (?Q (grp w)) (\<lambda>_ _. True) v"
    if "grp v = (grp w)\<lparr>gs_paused := ps\<rparr>" for ps and v :: "'a consumer_world_scheme"
    using one [of v] unfolding that by (simp add: issued_def gs_topic_def)
  show ?thesis
    unfolding group_deliver_def
    by (auto simp: wp_simps push_def split: option.split intro!: wp_mono [OF one] wp_mono [OF two])
qed

text \<open>
  C35. What a poll delivers can be acknowledged: the token of a fresh delivery decodes, until its
  acknowledgement timeout, to the delivered partition and offset under the group's current
  epoch and the attempt in flight, so that \<open>acknowledge\<close>, called in the state the delivery left,
  gets as far as settling it.
\<close>

theorem fresh_delivery_acknowledgeable:
  assumes "group_deliver g m w = (Inr (Some d), w')"
    and "codec_ok (g_codec g)" and "good_digests (g_digests g)"
    and "utf8_valid (ref_str (g_core g) (sub_ref (poll_subscription (gs_command (grp w)))))"
    and "utf8_valid (ref_str (g_core g) (cg_ref (poll_consumer_group (gs_command (grp w)))))"
    and "group_ok (grp w)" and "0 \<le> m_partition m" and "0 \<le> m_offset m" and "1 \<le> gd_expires_at d"
    and "ack_delivery cmd = JStr (dt_value (gd_token d))" and "ack_stream cmd = poll_stream (gs_command (grp w))"
    and "ack_subscription cmd = poll_subscription (gs_command (grp w))"
    and "ack_consumer_group cmd = poll_consumer_group (gs_command (grp w))"
    and "e_time_ns (g_env g) (TimeNs # hist w') div 1000000 < gd_expires_at d"
  shows "\<exists>co. token_key_of co = (m_partition m, m_offset m) \<and> dc_attempt co = gd_attempt d
    \<and> ack_group g cmd tx w' = settle g cmd tx co (push TimeNs w')"
proof -
  note spec = wp_Inr [OF group_deliver_spec assms(1), THEN spec, THEN mp, OF refl]
  then obtain now where enc: "encode_delivery (g_core g) (g_digests g) (g_codec g)
      (sub_ref (poll_subscription (gs_command (grp w)))) (cg_ref (poll_consumer_group (gs_command (grp w))))
      (gs_topic (grp w)) (m_partition m) (m_offset m) (gs_assignment_epoch (grp w)) (gd_attempt d) (gd_expires_at d) now
      = Inr (gd_token d)" and att: "gd_attempt d = dget (gs_attempts (grp w)) (m_partition m, m_offset m) 0 + 1"
    by (auto simp: issued_def)
  have "1 \<le> gd_attempt d" using att group_okD(5) [OF assms(6)] by simp
  then have dec: "decoded g cmd w' = Inr \<lparr>dc_subscription = sub_ref (poll_subscription (gs_command (grp w))),
      dc_consumer_group = cg_ref (poll_consumer_group (gs_command (grp w))), dc_partition = m_partition m,
      dc_offset = m_offset m, dc_assignment_epoch = gs_assignment_epoch (grp w), dc_attempt = gd_attempt d,
      dc_expires_at_ms = gd_expires_at d\<rparr>" (is "_ = Inr ?co")
    using decode_encode_delivery [OF assms(2,3,4,5) enc assms(7,8) group_okD(1) [OF assms(6)] _ assms(9)] assms(10-)
    by (simp add: gs_topic_def)
  have "acknowledgeable (grp w') ?co" using spec by (auto simp: acknowledgeable_def token_key_of_def)
  then have "ack_group g cmd tx w' = settle g cmd tx ?co (push TimeNs w')"
    using dec spec by (simp add: ack_group_def bindM_def decode_token_run getM_def push_def)
  then show ?thesis by (intro exI [of _ ?co]) (simp add: token_key_of_def)
qed

section \<open>Dead letters\<close>

text \<open>A call in the history that an operation cannot have made was there before it.\<close>

lemma earlier_call:
  assumes "calls_only P s t" and "hist t = after @ c # before" and "\<not> P c"
  shows "\<exists>after'. hist s = after' @ c # before"
proof -
  obtain cs where cs: "hist t = cs @ hist s" "list_all P cs" using assms(1) by (auto simp: calls_only_def)
  have "c \<notin> set cs" using cs(2) assms(3) by (auto simp: list_all_iff)
  then show ?thesis using cs(1) assms(2) by (auto simp: append_eq_append_conv2 append_eq_Cons_conv Cons_eq_append_conv) metis
qed

lemma quiet_bind:
  assumes "bindM m f w = (r, w')" and "keeps (calls_only P) m" and "calls_only P h w"
  obtains (stopped) "calls_only P h w'" | (went_on) x v where "m w = (Inr x, v)" "f x v = (r, w')" "calls_only P h v"
proof -
  obtain q v where q: "m w = (q, v)" by force
  have "calls_only P h v" using assms(3) keepsD [OF assms(2) q] by (rule calls.rel_trans)
  then show ?thesis using assms(1) q stopped went_on by (cases q) (auto simp: bindM_def)
qed

abbreviation no_commit :: "call \<Rightarrow> bool" where
  "no_commit c \<equiv> (\<forall>co tps. c \<noteq> Commit co tps)"

lemma publish_no_commit: "keeps (calls_only no_commit) (publish g cmd override)"
  by (rule keeps_calls_mono [OF publish_calls]) (auto simp: telemetry_call_def)

lemma grows [keeps_intros]:
  "keeps (calls_only (\<lambda>_. True)) (emit e name as)" "keeps (calls_only (\<lambda>_. True)) (ack_group g cmd tx)"
proof -
  show emit: "keeps (calls_only (\<lambda>_. True)) (emit e name as)" for e name as by (intro keeps_intros) simp_all
  show "keeps (calls_only (\<lambda>_. True)) (ack_group g cmd tx)"
    unfolding ack_group_def decode_token_def settle_def settle_from_def commit_safe_def stage_offset_def Let_def
    by (intro keeps_intros emit; simp add: staged_def)
qed

text \<open>
  The dead letter of a delivery: the original event, wrapped for the dead-letter stream, was
  published, and its publication returned receipts, between \<open>w0\<close> and \<open>w1\<close>.
\<close>

definition dead_letter_published :: "ctx \<Rightarrow> physical_stream \<Rightarrow> event \<Rightarrow> int \<Rightarrow> 'w consumer_world_scheme \<Rightarrow>
    'w consumer_world_scheme \<Rightarrow> bool" where
  "dead_letter_published g target original attempt w0 w1 \<longleftrightarrow>
     (\<exists>ev receipts. publish g (dead_letter_command target original ev attempt) None w0 = (Inr receipts, w1) \<and> receipts \<noteq> [])"

lemma dead_letter_order:
  fixes w :: "'w consumer_world_scheme"
  assumes "dead_letter g cmd dls original attempt w = (r, w')" and "hist w' = after @ Commit c tps # before"
    and "length (hist w) \<le> length before"
  shows "\<exists>target (w0 :: 'w consumer_world_scheme) w1. stream (g_settings g) dls = Inr target \<and> dead_letter_published g target original attempt w0 w1
    \<and> since (hist w) w0 \<and> (\<exists>cs. before = cs @ hist w1)"
proof -
  have none: False if "calls_only no_commit w w'"
    using earlier_call [OF that assms(2)] assms(3) by auto
  let ?ack = "\<lambda>rc. bindM (ack_group g cmd False) (\<lambda>ack.
     bindM (emit (g_env g) ''meridian.kafka.dead-letter.completed''
       [(''attempt'', TInt attempt), (''committed'', TBool (ar_committed ack))]) (\<lambda>_.
     retM (DeadLettered (rc_event_id rc) (ar_committed ack))))"
  let ?first = "\<lambda>rcs. bindM (liftE (case rcs of [] \<Rightarrow> Inl (PyExc (OtherError ''IndexError'')) | rc # _ \<Rightarrow> Inr rc)) ?ack"
  let ?publish = "\<lambda>target ev. bindM (publish g (dead_letter_command target original ev attempt) None) ?first"
  have kv: "keeps (calls_only no_commit) (dead_letter_event g cmd original target attempt)" for target
    unfolding dead_letter_event_def by (intro keeps_intros) simp
  obtain target where target: "stream (g_settings g) dls = Inr target"
    and r1: "bindM (dead_letter_event g cmd original target attempt) (?publish target) w = (r, w')"
    using assms(1) none by (cases "stream (g_settings g) dls") (auto simp: dead_letter_def op_defs calls.rel_refl)
  obtain ev v where r2: "?publish target ev v = (r, w')" and v: "calls_only no_commit w v"
    by (rule quiet_bind [OF r1 kv calls.rel_refl]) (use none in blast)+
  obtain rcs u where p: "publish g (dead_letter_command target original ev attempt) None v = (Inr rcs, u)"
    and r3: "?first rcs u = (r, w')" and u: "calls_only no_commit w u"
    by (rule quiet_bind [OF r2 publish_no_commit v]) (use none in blast)+
  have "rcs \<noteq> []" using r3 u none by (auto simp: op_defs)
  moreover have "\<exists>ds. before = ds @ hist u"
  proof -
    have k: "keeps (calls_only (\<lambda>_. True)) (?first rcs)" by (intro keeps_intros)
    then obtain cs where "hist w' = cs @ hist u" using keepsD [OF k r3] by (auto simp: calls_only_def)
    then have "(\<exists>ds. before = ds @ hist u) \<or> (\<exists>after'. hist u = after' @ Commit c tps # before)"
      using assms(2) by (auto simp: append_eq_append_conv2 append_eq_Cons_conv Cons_eq_append_conv) metis
    then show ?thesis using earlier_call [OF u] assms(3) by fastforce
  qed
  moreover have "since (hist w) v" using v by (auto simp: since_def calls_only_def)
  ultimately show ?thesis using p target unfolding dead_letter_published_def by blast
qed

lemma redelivery_no_commit: "keeps (calls_only no_commit) (schedule_redelivery g cmd co)"
  unfolding schedule_redelivery_def Let_def by (intro keeps_intros; simp)

lemma nack_grows:
  "keeps (calls_only (\<lambda>_. True)) (case dls of Some d \<Rightarrow> dead_letter g cmd d ev att | None \<Rightarrow> schedule_redelivery g cmd co)"
proof -
  have "keeps (calls_only (\<lambda>_. True)) (publish g c None)" for c by (rule keeps_calls_mono [OF publish_calls]) simp
  then have "keeps (calls_only (\<lambda>_. True)) (dead_letter g cmd d ev att)" for d
    unfolding dead_letter_def dead_letter_event_def by (intro keeps_intros TrueI)
  then show ?thesis by (intro calls.keeps_option keeps_calls_mono [OF redelivery_no_commit] TrueI)
qed

text \<open>
  C36. A negative acknowledgement commits the source offset only after the dead letter is safe: a
  commit it makes is preceded, within the same operation, by a publication of the delivered
  event to the subscription's dead-letter stream that returned receipts, and the delivery had
  reached the maximum of attempts.
\<close>

theorem dead_letter_before_commit:
  fixes w :: "'w consumer_world_scheme"
  assumes "negative_acknowledge g cmd w = (r, w')" and "hist w' = after @ Commit c tps # before"
    and "length (hist w) \<le> length before"
  shows "\<exists>s co item dls target (w0 :: 'w consumer_world_scheme) w1. map_of (states w) (ack_key cmd) = Some s \<and> decoded g cmd w = Inr co
    \<and> map_of (gs_inflight s) (token_key_of co) = Some item \<and> sub_dead_letter_stream (ack_subscription cmd) = Some dls
    \<and> stream (g_settings g) dls = Inr target \<and> sub_max_delivery_attempts (ack_subscription cmd) \<le> dc_attempt co
    \<and> dead_letter_published g target (if_event item) (dc_attempt co) w0 w1 \<and> since (hist w) w0
    \<and> (\<exists>cs. before = cs @ hist w1)"
proof -
  obtain s where s: "map_of (states w) (ack_key cmd) = Some s"
    using assms by (cases "map_of (states w) (ack_key cmd)") (auto simp: negative_acknowledge_def existing_state_def op_defs)
  let ?w = "w\<lparr>grp := s\<rparr>" and ?v = "push TimeNs (w\<lparr>grp := s\<rparr>)"
  obtain u where u: "nack_group g cmd ?w = (r, u)" "hist u = hist w'"
    using assms(1) s by (auto simp: negative_acknowledge_def existing_state_def op_defs stored_def split: prod.splits)
  have v: "hist ?v = TimeNs # hist w" by simp
  have quiet: False if "calls_only no_commit ?v u"
    using earlier_call [OF that, of after "Commit c tps" before] u(2) assms(2,3) by (auto simp: Cons_eq_append_conv)
  have refused: "False" if "u = ?v" using that quiet calls.rel_refl by blast
  obtain co where co: "decoded g cmd w = Inr co"
    using u(1) refused by (cases "decoded g cmd w") (auto simp: nack_group_def bindM_def decode_token_run)
  obtain item where item: "map_of (gs_inflight s) (token_key_of co) = Some item" "if_attempt item = dc_attempt co"
    using u(1) refused co
    by (cases "map_of (gs_inflight s) (token_key_of co)")
      (auto simp: nack_group_def bindM_def decode_token_run getM_def throwM_def push_def split: if_splits)
  let ?dls = "if dc_attempt co \<ge> sub_max_delivery_attempts (ack_subscription cmd)
    then sub_dead_letter_stream (ack_subscription cmd) else None"
  have run: "(case ?dls of Some dls \<Rightarrow> dead_letter g cmd dls (if_event item) (dc_attempt co)
      | None \<Rightarrow> schedule_redelivery g cmd co) ?v = (r, u)"
    using u(1) refused co item
    by (simp add: nack_group_def bindM_def decode_token_run getM_def throwM_def push_def split: if_splits)
  obtain dls where dls: "?dls = Some dls"
    using run quiet keepsD [OF redelivery_no_commit, of g cmd co ?v r u] by (cases ?dls) auto
  have d: "dead_letter g cmd dls (if_event item) (dc_attempt co) ?v = (r, u)" using run unfolding dls by simp
  have h: "hist u = after @ Commit c tps # before" using u(2) assms(2) by simp
  have "length (hist ?v) \<le> length before"
  proof (rule ccontr)
    assume "\<not> ?thesis"
    then have "length before = length (hist w)" using assms(3) by simp
    moreover obtain cs where "hist u = cs @ TimeNs # hist w" using keepsD [OF nack_grows run] by (auto simp: calls_only_def)
    ultimately have "(cs @ [TimeNs]) @ hist w = (after @ [Commit c tps]) @ before" using u(2) assms(2) by simp
    then have "cs @ [TimeNs] = after @ [Commit c tps]"
      using \<open>length before = length (hist w)\<close> append_eq_append_conv [of _ _ "hist w" before] by auto
    then show False by simp
  qed
  from dead_letter_order [OF d h this] obtain target and w0 w1 :: "'w consumer_world_scheme" where "stream (g_settings g) dls = Inr target"
    "dead_letter_published g target (if_event item) (dc_attempt co) w0 w1" "since (hist ?v) w0" "\<exists>cs. before = cs @ hist w1"
    by blast
  moreover have "since (hist w) w0" using \<open>since (hist ?v) w0\<close> unfolding since_def v by (metis append.assoc append_Cons append_Nil)
  moreover have "sub_dead_letter_stream (ack_subscription cmd) = Some dls"
    "sub_max_delivery_attempts (ack_subscription cmd) \<le> dc_attempt co" using dls by (auto split: if_splits)
  ultimately show ?thesis using s co item by blast
qed

section \<open>The group position is a compare-and-set\<close>

lemma read_positions_quiet [keeps_intros]: "keeps (calls_only no_commit) (read_positions g tp)"
proof -
  have "keeps (calls_only no_commit) (fill_committed g c tp' items d)" for c tp' items d
    by (induction items arbitrary: d) (auto intro!: keeps_intros)
  then show ?thesis unfolding read_positions_def committed_positions_def by (intro keeps_intros; simp)
qed

lemma position_parts_quiet:
  shows decode_positions_quiet: "keeps (calls_only no_commit) (decode_positions g p strm)"
    and validate_bounds_quiet: "keeps (calls_only no_commit) (validate_bounds g c tp target)"
proof -
  show "keeps (calls_only no_commit) (decode_positions g p strm)"
    unfolding decode_positions_def by (intro keeps_intros; simp)
  show "keeps (calls_only no_commit) (validate_bounds g c tp target)"
    unfolding validate_bounds_def split_def by (intro keeps_intros; simp)
qed

text \<open>The stages of \<open>position_group\<close>, from its end.\<close>

abbreviation position_offsets :: "group_position_command \<Rightarrow> (int, int) dict \<Rightarrow> topic_partition list" where
  "position_offsets cmd target \<equiv> map (\<lambda>(part, off). (ps_topic (gp_stream cmd), part, off)) (sorted_items target)"

abbreviation position_done :: "ctx \<Rightarrow> group_position_command \<Rightarrow> (int, int) dict \<Rightarrow> ('w, string \<times> string) group_op" where
  "position_done g cmd target \<equiv> bindM (updM (position_update target)) (\<lambda>_.
     bindM (liftE (group_position_fingerprint (g_digests g) (ps_topic (gp_stream cmd)) target)) (\<lambda>after_fp.
     bindM (emit (g_env g) ''meridian.kafka.group-position.completed''
       [(''partitionCount'', TInt (int (length target)))]) (\<lambda>_.
     retM (gp_expected_fingerprint cmd, after_fp))))"

abbreviation position_commit :: "ctx \<Rightarrow> group_position_command \<Rightarrow> (int, int) dict \<Rightarrow> client \<Rightarrow> ('w, string \<times> string) group_op" where
  "position_commit g cmd target c \<equiv> bindM (normalizedM (g_attrs g) ''meridian.streaming.group-position''
     (command (g_env g) (Commit c (position_offsets cmd target)))) (\<lambda>_. position_done g cmd target)"

abbreviation position_to :: "ctx \<Rightarrow> group_position_command \<Rightarrow> int list \<Rightarrow> (int, int) dict \<Rightarrow> ('w, string \<times> string) group_op" where
  "position_to g cmd parts target \<equiv>
     if set (dkeys target) \<noteq> set parts then throwM (raised InvalidCursor)
     else bindM (grpM gs_consumer) (\<lambda>c.
       bindM (validate_bounds g c (ps_topic (gp_stream cmd)) target) (\<lambda>_. position_commit g cmd target c))"

abbreviation position_checked :: "ctx \<Rightarrow> group_position_command \<Rightarrow> int list \<Rightarrow> (int, int) dict \<Rightarrow> ('w, string \<times> string) group_op" where
  "position_checked g cmd parts current \<equiv>
     bindM (liftE (group_position_fingerprint (g_digests g) (ps_topic (gp_stream cmd)) current)) (\<lambda>fp.
     if fp \<noteq> gp_expected_fingerprint cmd then throwM (raised GroupPositionConflict)
     else bindM (decode_positions g (gp_position cmd) (gp_stream cmd)) (position_to g cmd parts))"

lemma bind_grp: "(if b then throwM x else bindM (grpM f) k) w = (if b then throwM x else k (f (grp w))) w"
  by (simp add: bindM_def grpM_def getM_def)

lemma position_stages: "position_group g cmd = bindM (read_positions g (ps_topic (gp_stream cmd)))
    (\<lambda>(parts, current). position_checked g cmd parts current)"
  unfolding position_group_def Let_def bind_lift by (intro arg_cong2 [where f = bindM] ext refl) (auto simp: bind_lift split: sum.split)

lemma commit_then:
  fixes m :: "(exc, 'w world_scheme, 'b) op"
  assumes "bindM (normalizedM a n (command e c)) (\<lambda>_. m) u = (r, w')" and "keeps (calls_only P) m"
  shows "calls_only P (push c u) w'"
  using assms(1) keepsD [OF assms(2), of "push c u"]
  by (auto simp: bindM_def normalizedM_def exceptM_def catchM_def request_def throwM_def Let_def calls.rel_refl
      split: option.splits if_splits sum.splits)

text \<open>
  C16. The group position is a compare-and-set: \<open>group_position\<close> commits only if the positions it
  has just read of every partition of the topic have the fingerprint the caller expected, and it
  then commits, in one call, exactly the decoded target, which names every partition of the
  topic, each within its retained range, and makes no other commit.
\<close>

theorem position_compare_and_set:
  fixes w :: "'w consumer_world_scheme"
  assumes "position_group g cmd w = (r, w')" and "\<not> calls_only no_commit w w'"
  shows "\<exists>parts current target c cs (v :: 'w consumer_world_scheme) v' u.
    read_positions g (ps_topic (gp_stream cmd)) w = (Inr (parts, current), v)
    \<and> group_position_fingerprint (g_digests g) (ps_topic (gp_stream cmd)) current = Inr (gp_expected_fingerprint cmd)
    \<and> decode_positions g (gp_position cmd) (gp_stream cmd) v = (Inr target, v') \<and> set (dkeys target) = set parts
    \<and> validate_bounds g c (ps_topic (gp_stream cmd)) target v' = (Inr (), u) \<and> calls_only no_commit w u
    \<and> hist w' = cs @ Commit c (map (\<lambda>(part, off). (ps_topic (gp_stream cmd), part, off)) (sorted_items target)) # hist u
    \<and> list_all no_commit cs"
proof -
  note quiet = notE [OF assms(2)]
  obtain parts current v where rd: "read_positions g (ps_topic (gp_stream cmd)) w = (Inr (parts, current), v)"
    and v: "calls_only no_commit w v" and r1: "position_checked g cmd parts current v = (r, w')"
    by (rule quiet_bind [OF assms(1) [unfolded position_stages] read_positions_quiet calls.rel_refl])
      (use quiet in \<open>auto split: prod.splits\<close>)
  have fp: "group_position_fingerprint (g_digests g) (ps_topic (gp_stream cmd)) current = Inr (gp_expected_fingerprint cmd)"
    using r1 v quiet by (auto simp: bindM_def liftE_def throwM_def split: sum.splits if_splits)
  then have r2: "bindM (decode_positions g (gp_position cmd) (gp_stream cmd)) (position_to g cmd parts) v = (r, w')"
    using r1 by (simp add: bind_lift)
  obtain target v' where dp: "decode_positions g (gp_position cmd) (gp_stream cmd) v = (Inr target, v')"
    and v': "calls_only no_commit w v'" and r3: "position_to g cmd parts target v' = (r, w')"
    by (rule quiet_bind [OF r2 decode_positions_quiet v]) (use quiet in blast)+
  have ks: "set (dkeys target) = set parts" using r3 v' quiet by (auto simp: throwM_def split: if_splits)
  let ?c = "gs_consumer (grp v')"
  have r4: "bindM (validate_bounds g ?c (ps_topic (gp_stream cmd)) target) (\<lambda>_. position_commit g cmd target ?c) v' = (r, w')"
    using r3 ks unfolding bind_grp by simp
  obtain u where vb: "validate_bounds g ?c (ps_topic (gp_stream cmd)) target v' = (Inr (), u)" and u: "calls_only no_commit w u"
    and r5: "position_commit g cmd target ?c u = (r, w')"
    by (rule quiet_bind [OF r4 validate_bounds_quiet v']) (use quiet in auto)
  have "keeps (calls_only no_commit) (position_done g cmd target)" by (intro keeps_intros; simp)
  from commit_then [OF r5 this] obtain cs where
    "hist w' = cs @ Commit ?c (position_offsets cmd target) # hist u" "list_all no_commit cs" by (auto simp: calls_only_def)
  then show ?thesis using rd fp dp ks vb u by blast
qed

section \<open>Witnesses\<close>

lemma sample_delivery_five:
  "\<not> isl (encode_delivery sample_core sample_digests sample_codec (sample_ref ''sub'') (sample_ref ''g'') ''t'' 0 5 1 1 1007 7)"
  by code_simp

theorem group_invariant_holds_witness:
  "\<exists>w' s. consumer_run sample_consumer_ctx (sample_consumer_world\<lparr>states := []\<rparr>) {} w'
    \<and> map_of (states w') (state_key sample_poll) = Some s \<and> group_ok s"
proof -
  let ?w = "sample_consumer_world\<lparr>states := []\<rparr>"
  have "\<not> isl (consumer_config sample_settings ''grp'' False)" by code_simp
  then obtain cfg where cfg: "consumer_config sample_settings ''grp'' False = Inr cfg" by (metis isl_def sum.exhaust_sel)
  have id: "cg_group_id (poll_consumer_group sample_poll) = ''grp''" by (simp add: sample_poll_def sample_group_def)
  obtain v where v: "ensure_state sample_consumer_ctx sample_poll ?w = (Inr (), v)"
    using cfg id
    by (auto simp: ensure_state_def op_defs request_def push_def Let_def sample_consumer_world_def split: option.splits)
  obtain r w' where p: "poll sample_consumer_ctx sample_poll ?w = (r, w')" by force
  have "\<exists>s. map_of (states w') (state_key sample_poll) = Some s"
    using p v by (auto simp: poll_def bindM_def stored_def split: prod.splits)
  then obtain s where s: "map_of (states w') (state_key sample_poll) = Some s" by blast
  have run: "consumer_run sample_consumer_ctx ?w {} w'"
    using consumer_run.more [OF consumer_run.start consumer_step.polled [OF p]] by simp
  show ?thesis using group_invariant_holds [OF run _ s] run s by auto
qed

theorem rebalance_fences_witness:
  "\<exists>g w' r x. serving g (ConsumerPoll 0 1) (\<lambda>_. ()) sample_consumer_world = (r, w')
    \<and> ack_group g sample_nack False w' = (Inl x, push TimeNs w') \<and> has_kind RebalanceConflict x"
proof -
  let ?g = "sample_consumer_ctx\<lparr>g_env := sample_consumer_env\<lparr>e_rebalances := (\<lambda>h. [OnRevoke [(''t'', 0, 0)]])\<rparr>\<rparr>"
  obtain r w' where run: "serving ?g (ConsumerPoll 0 1) (\<lambda>_. ()) sample_consumer_world = (r, w')" by force
  have "decoded ?g sample_nack w' = Inr sample_coordinates" by (simp add: sample_decoded)
  moreover have "dc_assignment_epoch sample_coordinates \<le> gs_assignment_epoch (grp sample_consumer_world)" by code_simp
  ultimately show ?thesis using rebalance_fences [OF run, of sample_nack sample_coordinates False] run by fastforce
qed

text \<open>The event at offset 6, fetched by the group of the samples.\<close>

definition fresh_message :: message where
  "fresh_message = \<lparr>m_error = None, m_topic = ''t'', m_partition = 0, m_offset = 6,
     m_value = Some (json_dumps (JObj [(''eventId'', JStr ''1'')])),
     m_headers = Some [(''meridian.schema-fingerprint'', Some sample_fingerprint)]\<rparr>"

lemma sample_fresh:
  "decode_event sample_core fresh_message (sample_stream ''a'' ''t'') = Inr (sample_event ''1'')"
  "\<not> isl (encode_delivery sample_core sample_digests sample_codec (sample_ref ''sub'') (sample_ref ''g'') ''t'' 0 6 1 1 1007 7)"
  "\<not> isl (encode_position sample_core sample_digests sample_codec (sample_ref ''a'') ''t'' 0 6 None 7)"
  by code_simp+

lemma sample_group_ok: "group_ok sample_group_state"
  by (simp add: group_ok_def inflight_ok_def sample_group_state_def new_group_state_def dget_def)

lemma sample_delivered:
  "\<exists>d w'. group_deliver sample_consumer_ctx fresh_message sample_consumer_world = (Inr (Some d), w') \<and> gd_expires_at d = 1007"
proof -
  obtain tok pos where tok: "encode_delivery sample_core sample_digests sample_codec (sample_ref ''sub'') (sample_ref ''g'')
      ''t'' 0 6 1 1 1007 7 = Inr tok" and pos: "encode_position sample_core sample_digests sample_codec (sample_ref ''a'') ''t''
      0 6 None 7 = Inr pos" using sample_fresh(2,3) by (metis isl_def sum.exhaust_sel)
  have m: "m_partition fresh_message = 0" "m_offset fresh_message = 6" "m_topic fresh_message = ''t''"
    by (simp_all add: fresh_message_def)
  have s: "grp sample_consumer_world = sample_group_state" "gs_command sample_group_state = sample_poll"
    "gs_topic sample_group_state = ''t''" "gs_paused sample_group_state = []" "gs_attempts sample_group_state = [((0, 5), 1)]"
    "gs_assignment_epoch sample_group_state = 1" "poll_stream sample_poll = sample_stream ''a'' ''t''"
    "sub_ref (poll_subscription sample_poll) = sample_ref ''sub''" "cg_ref (poll_consumer_group sample_poll) = sample_ref ''g''"
    "sub_acknowledgement_timeout_ms (poll_subscription sample_poll) = 1000"
    by (simp_all add: sample_consumer_world_def sample_group_state_def new_group_state_def gs_topic_def sample_poll_def
        sample_stream_def sample_subscription_def sample_group_def)
  have "ev_logical_partition_key (sample_event ''1'') = None" by (simp add: sample_event_def)
  then have "wp (group_deliver sample_consumer_ctx fresh_message) (\<lambda>r w'. \<exists>d. r = Some d \<and> gd_expires_at d = 1007) (\<lambda>_ _. False)
      sample_consumer_world"
    using tok pos sample_fresh(1) encode_delivery_expiry [OF tok]
    by (simp add: group_deliver_def deliver_event_def wp_simps Let_def push_def m s dget_def)
  then show ?thesis by (auto simp: wp_def split: prod.splits sum.splits)
qed

theorem fresh_delivery_acknowledgeable_witness:
  "\<exists>d w' co (cmd :: acknowledge_command). group_deliver sample_consumer_ctx fresh_message sample_consumer_world = (Inr (Some d), w')
    \<and> token_key_of co = (0, 6)
    \<and> ack_group sample_consumer_ctx cmd False w' = settle sample_consumer_ctx cmd False co (push TimeNs w')"
proof -
  obtain d w' where run: "group_deliver sample_consumer_ctx fresh_message sample_consumer_world = (Inr (Some d), w')"
    and e: "gd_expires_at d = 1007" using sample_delivered by blast
  let ?cmd = "sample_ack\<lparr>ack_delivery := JStr (dt_value (gd_token d))\<rparr>"
  have s: "grp sample_consumer_world = sample_group_state" "gs_command sample_group_state = sample_poll"
    by (simp_all add: sample_consumer_world_def sample_group_state_def new_group_state_def)
  have refs: "sub_ref (poll_subscription sample_poll) = sample_ref ''sub''" "cg_ref (poll_consumer_group sample_poll) = sample_ref ''g''"
    by (simp_all add: sample_poll_def sample_subscription_def sample_group_def)
  have "ack_stream ?cmd = poll_stream sample_poll" "ack_subscription ?cmd = poll_subscription sample_poll"
    "ack_consumer_group ?cmd = poll_consumer_group sample_poll"
    by (simp_all add: sample_ack_def sample_nack_def sample_poll_def acknowledge_command.truncate_def)
  then have "\<exists>co. token_key_of co = (m_partition fresh_message, m_offset fresh_message) \<and> dc_attempt co = gd_attempt d
      \<and> ack_group sample_consumer_ctx ?cmd False w' = settle sample_consumer_ctx ?cmd False co (push TimeNs w')"
    by (intro fresh_delivery_acknowledgeable [OF run])
      (simp_all add: sample_codec_ok sample_digests_good sample_ref_utf8 s refs sample_group_ok e fresh_message_def)
  then obtain co where co: "token_key_of co = (m_partition fresh_message, m_offset fresh_message)"
    "ack_group sample_consumer_ctx ?cmd False w' = settle sample_consumer_ctx ?cmd False co (push TimeNs w')" by (elim exE conjE) (rule that)
  have "token_key_of co = (0, 6)" unfolding co(1) by (simp add: fresh_message_def)
  then show ?thesis by (intro exI conjI) (rule run, assumption, rule co(2))
qed

text \<open>A group whose delivery has reached its last attempt, with a producer that delivers on flush.\<close>

definition dead_core :: core where
  "dead_core = sample_core\<lparr>event_parse := (\<lambda>_. Inr (sample_event ''d''))\<rparr>"

definition dead_env :: env where
  "dead_env = sample_consumer_env\<lparr>e_reports := (\<lambda>h. case h of Flush _ _ # h' \<Rightarrow> delivery_reports h' | _ \<Rightarrow> [])\<rparr>"

definition dead_ctx :: ctx where
  "dead_ctx = sample_consumer_ctx\<lparr>g_core := dead_core, g_env := dead_env\<rparr>"

definition dead_nack :: negative_acknowledge_command where
  "dead_nack = sample_nack\<lparr>ack_subscription := sample_subscription\<lparr>sub_max_delivery_attempts := 1\<rparr>\<rparr>"

definition dead_world :: consumer_world where
  "dead_world = sample_consumer_world\<lparr>hist := [UtcNow, TimeNs]\<rparr>"

lemma dead_published:
  "\<exists>rc rcs u. publish dead_ctx (dead_letter_command (sample_stream ''dl'' ''t.dlq'') (sample_event ''1'') (sample_event ''d'') 1) None
     dead_world = (Inr (rc # rcs), u)"
proof -
  have "(case publish dead_ctx (dead_letter_command (sample_stream ''dl'' ''t.dlq'') (sample_event ''1'') (sample_event ''d'') 1) None
     dead_world of (Inr (rc # rcs), u) \<Rightarrow> True | _ \<Rightarrow> False)" by code_simp
  then show ?thesis by (auto split: prod.splits sum.splits list.splits)
qed

lemma dead_decoded: "decoded dead_ctx dead_nack w = Inr sample_coordinates"
proof -
  have enc: "encode_delivery dead_core = encode_delivery sample_core"
    by (simp add: fun_eq_iff encode_delivery_def delivery_payload_def payload_def dead_core_def)
  obtain tok where tok: "encode_delivery sample_core sample_digests sample_codec (sample_ref ''sub'')
      (sample_ref ''g'') ''t'' 0 5 1 1 1007 7 = Inr tok" using sample_delivery_five by (metis isl_def sum.exhaust_sel)
  have refs: "utf8_valid (ref_str dead_core (sample_ref ''sub''))" "utf8_valid (ref_str dead_core (sample_ref ''g''))"
    using sample_ref_utf8 by (simp_all add: dead_core_def)
  have "dt_value tok = sample_issued" by (simp add: sample_issued_def tok)
  moreover note decode_encode_delivery [OF sample_codec_ok sample_digests_good refs tok [folded enc], of 7]
  ultimately show ?thesis
    by (simp add: dead_ctx_def dead_env_def dead_nack_def sample_nack_def sample_subscription_def sample_group_def sample_stream_def
        sample_coordinates_def)
qed

lemma dead_simps [simp]:
  "g_env dead_ctx = dead_env" "quiet_sink dead_env" "e_raises dead_env = (\<lambda>h. None)" "e_time_ns dead_env = (\<lambda>h. 7000000)"
  "g_core dead_ctx = dead_core" "g_digests dead_ctx = sample_digests" "g_codec dead_ctx = sample_codec"
  "ps_ref (ack_stream dead_nack) = sample_ref ''a''" "ps_topic (ack_stream dead_nack) = ''t''"
  by (simp_all add: dead_ctx_def dead_env_def quiet_sink_def dead_nack_def sample_nack_def sample_stream_def)

lemma dead_acknowledged:
  fixes u :: consumer_world
  assumes "grp u = sample_group_state"
  shows "\<exists>ar u' ev. ack_group dead_ctx dead_nack False u = (Inr ar, u')
    \<and> hist u' = [SinkEmit ev, UtcNow, TimeNs] @ Commit 0 [(''t'', 0, 6)] # TimeNs # hist u"
proof -
  have co: "dc_partition sample_coordinates = 0" "dc_offset sample_coordinates = 5" by (simp_all add: sample_coordinates_def)
  have "encode_position dead_core = encode_position sample_core"
    by (simp add: fun_eq_iff encode_position_def payload_def dead_core_def)
  then have pos: "\<not> isl (encode_position dead_core sample_digests sample_codec (sample_ref ''a'') ''t'' 0 6 None 7)"
    using sample_position by simp
  have v: "grp (push TimeNs u) = sample_group_state" "hist (push TimeNs u) = TimeNs # hist u" using assms by (simp_all add: push_def)
  have "wp (settle dead_ctx dead_nack False sample_coordinates) (\<lambda>ar w'. \<exists>ev. hist w' = [SinkEmit ev, UtcNow, TimeNs] @
      Commit 0 [(''t'', 0, 6)] # TimeNs # hist u) (\<lambda>_ _. False) (push TimeNs u)"
    by (rule wp_mono [OF wp_settle [where part = 0 and off = 5]]) (use pos in \<open>auto simp: v co sample_settles\<close>)
  then obtain ar u' ev where "settle dead_ctx dead_nack False sample_coordinates (push TimeNs u) = (Inr ar, u')"
    "hist u' = [SinkEmit ev, UtcNow, TimeNs] @ Commit 0 [(''t'', 0, 6)] # TimeNs # hist u"
    by (auto simp: wp_def split: prod.splits sum.splits)
  then show ?thesis
    using v dead_decoded [of u] sample_settles by (simp add: ack_group_def bindM_def decode_token_run getM_def)
qed

theorem dead_letter_before_commit_witness:
  "\<exists>r w' target w0 (w1 :: consumer_world). negative_acknowledge dead_ctx dead_nack sample_consumer_world = (r, w')
    \<and> Commit 0 [(''t'', 0, 6)] \<in> set (hist w')
    \<and> dead_letter_published dead_ctx target (sample_event ''1'') 1 w0 w1"
proof -
  let ?w = "sample_consumer_world" and ?s = sample_group_state
  obtain rc rcs u where p: "publish dead_ctx (dead_letter_command (sample_stream ''dl'' ''t.dlq'') (sample_event ''1'')
      (sample_event ''d'') 1) None dead_world = (Inr (rc # rcs), u)" using dead_published by blast
  have "(\<lambda>w. (states w, grp w)) u = (\<lambda>w. (states w, grp w)) dead_world"
    by (rule unchangedD [OF publish_unchanged p]) simp_all
  then have u: "grp u = ?s" by (simp add: dead_world_def sample_consumer_world_def)
  obtain ar u' ev where ack: "ack_group dead_ctx dead_nack False u = (Inr ar, u')"
    and h: "hist u' = [SinkEmit ev, UtcNow, TimeNs] @ Commit 0 [(''t'', 0, 6)] # TimeNs # hist u" using dead_acknowledged [OF u] by blast
  obtain r v where em: "bindM (emit dead_env ''meridian.kafka.dead-letter.completed''
      [(''attempt'', TInt 1), (''committed'', TBool (ar_committed ar))]) (\<lambda>_. retM (DeadLettered (rc_event_id rc) (ar_committed ar))) u' = (r, v)"
    by force
  have "keeps (calls_only (\<lambda>_. True)) (bindM (emit dead_env ''meridian.kafka.dead-letter.completed''
      [(''attempt'', TInt 1), (''committed'', TBool (ar_committed ar))]) (\<lambda>_. retM (DeadLettered (rc_event_id rc) (ar_committed ar))))"
    by (intro keeps_intros)
  from keepsD [OF this em] obtain cs where cs: "hist v = cs @ hist u'" by (auto simp: calls_only_def)
  have strm: "stream (g_settings dead_ctx) (sample_ref ''dl'') = Inr (sample_stream ''dl'' ''t.dlq'')" by code_simp
  have w: "?w\<lparr>grp := ?s\<rparr> = ?w" "push UtcNow (push TimeNs ?w) = dead_world"
    by (simp_all add: sample_consumer_world_def push_def dead_world_def)
  have parse: "event_parse dead_core = (\<lambda>_. Inr (sample_event ''d''))" by (simp add: dead_core_def)
  have event: "bindM (dead_letter_event dead_ctx dead_nack (sample_event ''1'') (sample_stream ''dl'' ''t.dlq'') 1) f (push TimeNs ?w)
      = f (sample_event ''d'') dead_world" for f :: "event \<Rightarrow> (exc, consumer_world, nack_result) op"
    unfolding dead_letter_event_def bindM_def ask_def liftE_def dead_simps parse Let_def by (simp add: w)
  have "dead_letter dead_ctx dead_nack (sample_ref ''dl'') (sample_event ''1'') 1 (push TimeNs ?w) = (r, v)"
    unfolding dead_letter_def strm bind_lift sum.case event
    by (subst (1 2) bindM_def) (simp add: p ack em)
  moreover have n: "ack_key dead_nack = (sample_ref ''sub'', sample_ref ''g'')" "sub_max_delivery_attempts (ack_subscription dead_nack) = 1"
    "sub_dead_letter_stream (ack_subscription dead_nack) = Some (sample_ref ''dl'')"
    by (simp_all add: dead_nack_def ack_key_def sample_subscription_def sample_nack_def sample_group_def)
  moreover have co: "dc_assignment_epoch sample_coordinates = gs_assignment_epoch ?s" "dc_attempt sample_coordinates = 1"
    "map_of (gs_inflight ?s) (token_key_of sample_coordinates) = Some \<lparr>if_event = sample_event ''1'', if_attempt = 1,
      if_assignment_epoch = 1, if_expires_at_ms = 1007\<rparr>" "grp ?w = ?s"
    by (simp_all add: sample_coordinates_def sample_group_state_def token_key_of_def sample_consumer_world_def)
  ultimately have "nack_group dead_ctx dead_nack ?w = (r, v)"
    using dead_decoded [of ?w] by (simp add: nack_group_def bindM_def decode_token_run getM_def push_def)
  then have run: "negative_acknowledge dead_ctx dead_nack ?w = (r, v\<lparr>states := dset (ack_key dead_nack) (grp v) (states v)\<rparr>)"
    using sample_state n(1) w(1) by (simp add: negative_acknowledge_def existing_state_def op_defs stored_def)
  have "hist (v\<lparr>states := dset (ack_key dead_nack) (grp v) (states v)\<rparr>) = (cs @ [SinkEmit ev, UtcNow, TimeNs]) @
      Commit 0 [(''t'', 0, 6)] # TimeNs # hist u" using cs h by simp
  from dead_letter_before_commit [OF run this] obtain co item target w0 and w1 :: consumer_world
    where *: "decoded dead_ctx dead_nack ?w = Inr co" "map_of (gs_inflight ?s) (token_key_of co) = Some item"
      "dead_letter_published dead_ctx target (if_event item) (dc_attempt co) w0 w1"
    using sample_state n(1) by (auto simp: sample_consumer_world_def)
  then have "if_event item = sample_event ''1''" "dc_attempt co = 1" using dead_decoded [of ?w] co by auto
  then show ?thesis using run cs h *(3) by auto
qed

text \<open>A topic of one partition whose group position is moved from 3 to 4.\<close>

definition position_env :: env where
  "position_env = sample_consumer_env\<lparr>e_metadata := (\<lambda>h. Some [(''t'', \<lparr>tm_error = None, tm_partitions = Some [0]\<rparr>)]),
     e_committed := (\<lambda>h. [(0, 3)])\<rparr>"

definition position_ctx :: ctx where
  "position_ctx = sample_consumer_ctx\<lparr>g_env := position_env\<rparr>"

definition position_command :: "string \<Rightarrow> string \<Rightarrow> group_position_command" where
  "position_command token fp = \<lparr>gp_subscription = sample_subscription, gp_consumer_group = sample_group,
     gp_stream = sample_stream ''a'' ''t'', gp_position = JStr token, gp_expected_fingerprint = fp\<rparr>"

lemma position_computed:
  "\<not> isl (encode_cursor sample_core sample_digests sample_codec (sample_ref ''a'') ''t'' [(0, 4)] None 7)"
  "\<not> isl (group_position_fingerprint sample_digests ''t'' [(0, 3)])"
  "\<not> isl (group_position_fingerprint sample_digests ''t'' [(0, 4)])"
  "partition_ids (g_attrs position_ctx) (Some [(''t'', \<lparr>tm_error = None, tm_partitions = Some [0]\<rparr>)]) ''t'' = Inr [0]"
  "valid_attribute (''partitionCount'', TInt 1)" "valid_key ''meridian.kafka.group-position.completed''"
  by code_simp+

lemma position_simps [simp]:
  "g_env position_ctx = position_env" "quiet_sink position_env" "e_raises position_env = (\<lambda>h. None)"
  "e_time_ns position_env = (\<lambda>h. 7000000)" "e_watermarks position_env = (\<lambda>h. (0, 9))"
  "e_metadata position_env = (\<lambda>h. Some [(''t'', \<lparr>tm_error = None, tm_partitions = Some [0]\<rparr>)])"
  "e_committed position_env = (\<lambda>h. [(0, 3)])" "g_core position_ctx = sample_core"
  "g_digests position_ctx = sample_digests" "g_codec position_ctx = sample_codec"
  "gp_stream (position_command token fp) = sample_stream ''a'' ''t''" "gp_position (position_command token fp) = JStr token"
  "gp_expected_fingerprint (position_command token fp) = fp"
  by (simp_all add: position_ctx_def position_env_def sample_consumer_ctx_def sample_ctx_def sample_consumer_env_def
      quiet_sink_def position_command_def)

lemma position_decoded:
  "\<exists>token. decode_cursor sample_core sample_digests sample_codec (JStr token) (sample_ref ''a'') ''t'' 7 =
    Inr \<lparr>cc_resource = sample_ref ''a'', cc_positions = [(0, 4)], cc_expires_at_ms = 1007\<rparr>"
proof -
  obtain cu where cu: "encode_cursor sample_core sample_digests sample_codec (sample_ref ''a'') ''t'' [(0, 4)] None 7 = Inr cu"
    using position_computed(1) by (metis isl_def sum.exhaust_sel)
  then have ex: "cu_expires_at cu = 1007" by (auto simp: encode_cursor_def bindE_Inr_iff Let_def sample_codec_def)
  have "sorted_items [(0 :: int, 4 :: int)] = [(0, 4)]" by code_simp
  then show ?thesis
    using decode_encode_cursor [OF sample_codec_ok sample_digests_good sample_ref_utf8(1) _ cu, of 7] ex by auto
qed

theorem position_compare_and_set_witness:
  "\<exists>cmd r (w' :: consumer_world) current v. position_group position_ctx cmd sample_consumer_world = (r, w')
    \<and> read_positions position_ctx ''t'' sample_consumer_world = (Inr ([0], current), v)
    \<and> group_position_fingerprint sample_digests ''t'' current = Inr (gp_expected_fingerprint cmd)"
proof -
  obtain token where dec: "decode_cursor sample_core sample_digests sample_codec (JStr token) (sample_ref ''a'') ''t'' 7 =
    Inr \<lparr>cc_resource = sample_ref ''a'', cc_positions = [(0, 4)], cc_expires_at_ms = 1007\<rparr>" using position_decoded by blast
  obtain fp fp' where fp: "group_position_fingerprint sample_digests ''t'' [(0, 3)] = Inr fp"
    "group_position_fingerprint sample_digests ''t'' [(0, 4)] = Inr fp'" using position_computed(2,3) by (metis isl_def sum.exhaust_sel)
  let ?cmd = "position_command token fp" and ?w = sample_consumer_world
  have items: "sorted_items [(0 :: int, 4 :: int)] = [(0, 4)]" by code_simp
  have rd: "wp (read_positions position_ctx ''t'') (\<lambda>r v. r = ([0], [(0, 3)])) (\<lambda>_ _. False) ?w"
    unfolding read_positions_def committed_positions_def
    by (simp add: wp_simps position_computed(4))
  have "wp (position_group position_ctx ?cmd) (\<lambda>_ v. \<exists>c tps. Commit c tps \<in> set (hist v)) (\<lambda>_ _. False) ?w"
    unfolding position_group_def read_positions_def committed_positions_def decode_positions_def validate_bounds_def
    by (simp add: wp_simps Let_def position_computed(4) fp dec items) (rule wp_emit_quiet; use position_computed(5,6) in \<open>simp add: wp_ret push_def; blast?\<close>)
  then obtain r w' c tps where run: "position_group position_ctx ?cmd ?w = (r, w')" and "Commit c tps \<in> set (hist w')"
    by (auto simp: wp_def split: prod.splits sum.splits)
  then have "\<not> calls_only no_commit ?w w'" by (auto simp: calls_only_def sample_consumer_world_def list_all_iff)
  from position_compare_and_set [OF run this] obtain parts current and v :: consumer_world where
    v: "read_positions position_ctx ''t'' ?w = (Inr (parts, current), v)"
    and f: "group_position_fingerprint sample_digests ''t'' current = Inr (gp_expected_fingerprint ?cmd)" by auto
  have "parts = [0]" using rd v by (simp add: wp_def)
  then show ?thesis using run v f by blast
qed

end
