(* ===== verification/Descriptor.thy ===== *)
theory Descriptor
  imports Compiler
begin

text \<open>
  \<^verbatim>\<open>descriptor/__init__.py\<close> and the constants of \<^verbatim>\<open>_constants.py\<close> it uses: the immutable
  descriptor the adapter advertises. \<open>streaming_requirements()\<close> belongs to the Streaming
  distribution and is a parameter, a list of the attributes the adapter reads; the classes
  \<open>OperationCapability\<close> and \<open>AdapterDescriptor\<close> belong to Core and appear as records of the
  keyword arguments given to them, \<open>None\<close> where the constructor's default is left in place.
\<close>

section \<open>Constants\<close>

definition DRIVER :: string where
  "DRIVER = ''confluent-kafka''"

definition SUPPORTED_ENGINE_VERSIONS :: "string list" where
  "SUPPORTED_ENGINE_VERSIONS = [''4.1.2'', ''4.2.1'', ''4.3.1'']"

definition CORE_TRANSACTION_CONTRACT :: string where
  "CORE_TRANSACTION_CONTRACT = ''meridian.transaction''"

definition CORE_TRANSACTION_VERSION :: string where
  "CORE_TRANSACTION_VERSION = ''1.0.0''"

definition LIMITS :: "core \<Rightarrow> (string, (string, int) dict) dict" where
  "LIMITS c =
    [(''meridian.streaming.publish-batch'', [(''maxBatchSize'', max_batch_size c)]),
     (''meridian.streaming.poll'', [(''maxPollSize'', max_poll_size c), (''maxWaitTimeoutMs'', max_wait_timeout_ms c)]),
     (''meridian.streaming.read-range'', [(''maxRangeSize'', max_range_size c),
       (''maxRangePartitions'', int MAX_CURSOR_PARTITIONS)]),
     (''meridian.streaming.replay'', [(''maxRangeSize'', max_range_size c),
       (''maxRangePartitions'', int MAX_CURSOR_PARTITIONS)])]"

definition EXTRA_GUARANTEES :: "(string, string list) dict" where
  "EXTRA_GUARANTEES =
    [(''meridian.streaming.publish'', [''idempotent-producer'', ''schema-fingerprint'']),
     (''meridian.streaming.publish-batch'', [''idempotent-producer'', ''schema-fingerprint'']),
     (''meridian.streaming.negative-acknowledge'', [''dead-letter'']),
     (''meridian.streaming.read-range'', [''retention-boundary-validation'']),
     (''meridian.streaming.replay'', [''retention-boundary-validation'']),
     (''meridian.streaming.group-position'', [''compare-and-set''])]"

definition CURSOR_CONTRACTS :: "string list" where
  "CURSOR_CONTRACTS =
    [''meridian.streaming.acknowledge'', ''meridian.streaming.negative-acknowledge'', ''meridian.streaming.poll'',
     ''meridian.streaming.publish'', ''meridian.streaming.publish-batch'', ''meridian.streaming.read-range'',
     ''meridian.streaming.replay'', ''meridian.streaming.group-position'']"

section \<open>Descriptor\<close>

record requirement =
  rq_operation_contract :: string
  rq_operation_version :: string
  rq_guarantees :: "string list"

record operation_capability =
  oc_operation_contract :: string
  oc_operation_versions :: "string list"
  oc_guarantees :: "string list"
  oc_limits :: "(string, int) dict option"
  oc_cursor_behavior :: string
  oc_migration_behavior :: string
  oc_health_probes :: "string list"
  oc_extensions :: "(string, json) dict"

record adapter_descriptor =
  ad_adapter_id :: string
  ad_contract_version :: string
  ad_driver :: string
  ad_supported_engine_versions :: "(string, string list) dict"
  ad_capabilities :: "operation_capability list"

definition streaming_capability :: "core \<Rightarrow> requirement \<Rightarrow> operation_capability" where
  "streaming_capability c req = (let contract = rq_operation_contract req in
     \<lparr>oc_operation_contract = contract,
      oc_operation_versions = [rq_operation_version req],
      oc_guarantees = sort (remdups (rq_guarantees req @ dget EXTRA_GUARANTEES contract [])),
      oc_limits = Some (dget (LIMITS c) contract []),
      oc_cursor_behavior = (if contract \<in> set CURSOR_CONTRACTS then ''opaque-hmac-sha256'' else ''none''),
      oc_migration_behavior = ''iac-external'',
      oc_health_probes = [''authenticated-metadata'', ''physical-mapping'', ''transaction-coordinator''],
      oc_extensions = [(''catalog'', JStr ''streaming''), (''consumerSurface'', JStr ''mapping-first''),
        (''lifecycleAuthority'', JStr ''iac'')]\<rparr>)"

definition core_transaction_capability :: operation_capability where
  "core_transaction_capability =
     \<lparr>oc_operation_contract = CORE_TRANSACTION_CONTRACT,
      oc_operation_versions = [CORE_TRANSACTION_VERSION],
      oc_guarantees = [''atomic'', ''no-dirty-reads'', ''single-binding''],
      oc_limits = None,
      oc_cursor_behavior = ''opaque-hmac-sha256'',
      oc_migration_behavior = ''iac-external'',
      oc_health_probes = [''authenticated-metadata'', ''transaction-coordinator''],
      oc_extensions = [(''scope'', JStr ''single-compatible-kafka-binding'')]\<rparr>"

definition transaction_capability :: "core \<Rightarrow> operation_capability" where
  "transaction_capability c =
     \<lparr>oc_operation_contract = TRANSACTION_OPERATION_CONTRACT,
      oc_operation_versions = [TRANSACTION_OPERATION_VERSION],
      oc_guarantees = [''atomic-consumed-offset'', ''atomic-publish'', ''committed-reads'', ''idempotent-producer'',
        ''single-binding''],
      oc_limits = Some [(''maxBatchSize'', max_batch_size c)],
      oc_cursor_behavior = ''opaque-hmac-sha256'',
      oc_migration_behavior = ''iac-external'',
      oc_health_probes = [''authenticated-metadata'', ''transaction-coordinator''],
      oc_extensions = [(''externalSideEffects'', JBool False)]\<rparr>"

definition mk_adapter_descriptor :: "core \<Rightarrow> requirement list \<Rightarrow> adapter_descriptor" where
  "mk_adapter_descriptor c requirements =
     \<lparr>ad_adapter_id = ADAPTER_ID, ad_contract_version = ADAPTER_CONTRACT_VERSION, ad_driver = DRIVER,
      ad_supported_engine_versions = [(PRODUCTION_ENGINE_PROFILE, SUPPORTED_ENGINE_VERSIONS),
        (TEST_ENGINE_PROFILE, SUPPORTED_ENGINE_VERSIONS)],
      ad_capabilities = map (streaming_capability c) requirements @
        [core_transaction_capability, transaction_capability c]\<rparr>"

section \<open>What is advertised is what is enforced\<close>

text \<open>The number of a compiled command that an advertised limit is about.\<close>

fun limited :: "compiled_command \<Rightarrow> (string \<times> int) list" where
  "limited (PublishCommand p) = [(''maxBatchSize'', int (length (pub_events p)))]"
| "limited (PollCommand p) = [(''maxPollSize'', poll_limit p), (''maxWaitTimeoutMs'', poll_wait_timeout_ms p)]"
| "limited (ReadRangeCommand r) = [(''maxRangeSize'', rr_limit r)]"
| "limited (TransactionalConsumePublishCommand t) = [(''maxBatchSize'', int (length (tx_outputs t)))]"
| "limited _ = []"

lemma streaming_capability_simps [simp]:
  "oc_operation_contract (streaming_capability c req) = rq_operation_contract req"
  "oc_limits (streaming_capability c req) = Some (dget (LIMITS c) (rq_operation_contract req) [])"
  by (simp_all add: streaming_capability_def Let_def)

lemma transaction_capability_simps [simp]:
  "oc_operation_contract core_transaction_capability = CORE_TRANSACTION_CONTRACT" "oc_limits core_transaction_capability = None"
  "oc_operation_contract (transaction_capability c) = TRANSACTION_OPERATION_CONTRACT"
  "oc_limits (transaction_capability c) = Some [(''maxBatchSize'', max_batch_size c)]"
  by (simp_all add: core_transaction_capability_def transaction_capability_def)

text \<open>The capabilities that state a limit, by contract.\<close>

lemma capability_limits:
  assumes "cap \<in> set (ad_capabilities (mk_adapter_descriptor c reqs))" and "oc_limits cap = Some ls" and "(k, bound) \<in> set ls"
  shows "(oc_operation_contract cap, k, bound) \<in>
    {(''meridian.streaming.publish-batch'', ''maxBatchSize'', max_batch_size c),
     (''meridian.streaming.poll'', ''maxPollSize'', max_poll_size c),
     (''meridian.streaming.poll'', ''maxWaitTimeoutMs'', max_wait_timeout_ms c),
     (''meridian.streaming.read-range'', ''maxRangeSize'', max_range_size c),
     (''meridian.streaming.read-range'', ''maxRangePartitions'', int MAX_CURSOR_PARTITIONS),
     (''meridian.streaming.replay'', ''maxRangeSize'', max_range_size c),
     (''meridian.streaming.replay'', ''maxRangePartitions'', int MAX_CURSOR_PARTITIONS),
     (TRANSACTION_OPERATION_CONTRACT, ''maxBatchSize'', max_batch_size c)}"
proof -
  have "(oc_operation_contract cap, ls) \<in> set (LIMITS c) \<or> ls = []
      \<or> oc_operation_contract cap = TRANSACTION_OPERATION_CONTRACT \<and> ls = [(''maxBatchSize'', max_batch_size c)]"
    using assms(1,2) by (auto simp: mk_adapter_descriptor_def dget_def split: option.splits dest: map_of_SomeD)
  then show ?thesis
  proof (elim disjE)
    assume "(oc_operation_contract cap, ls) \<in> set (LIMITS c)"
    then show ?thesis
      unfolding LIMITS_def list.set insert_iff empty_iff prod.inject using assms(3) by (elim disjE conjE; simp) (elim disjE; simp)+
  qed (use assms(3) in simp_all)
qed

text \<open>What each contract compiles to.\<close>

lemma compile_publish_batch: "compile_publish c s v b = Inr x \<Longrightarrow> pub_batch x = b"
  by (auto simp: compile_publish_def Let_def split: if_split_asm)

lemma compile_by_contract:
  assumes "compile c s oper = Inr cmd"
  shows "op_contract oper = ''meridian.streaming.publish-batch'' \<Longrightarrow> \<exists>p. cmd = PublishCommand p \<and> publish_ok c s p \<and> pub_batch p"
    and "op_contract oper = ''meridian.streaming.poll'' \<Longrightarrow> \<exists>p. cmd = PollCommand p \<and> poll_ok c s p"
    and "op_contract oper \<in> {''meridian.streaming.read-range'', ''meridian.streaming.replay''} \<Longrightarrow>
      \<exists>r. cmd = ReadRangeCommand r \<and> command_ok c s cmd"
    and "op_contract oper = TRANSACTION_OPERATION_CONTRACT \<Longrightarrow>
      \<exists>t. cmd = TransactionalConsumePublishCommand t \<and> command_ok c s cmd"
proof -
  show "op_contract oper = ''meridian.streaming.publish-batch'' \<Longrightarrow> \<exists>p. cmd = PublishCommand p \<and> publish_ok c s p \<and> pub_batch p"
    using assms by (auto simp: compile_def Let_def split: if_split_asm dest: compile_publish_ok compile_publish_batch)
  show "op_contract oper = ''meridian.streaming.poll'' \<Longrightarrow> \<exists>p. cmd = PollCommand p \<and> poll_ok c s p"
    using assms by (auto simp: compile_def Let_def split: if_split_asm dest: compile_poll_ok)
  show "op_contract oper \<in> {''meridian.streaming.read-range'', ''meridian.streaming.replay''} \<Longrightarrow>
      \<exists>r. cmd = ReadRangeCommand r \<and> command_ok c s cmd"
    using assms by (auto simp: compile_def Let_def simp del: command_ok.simps split: if_split_asm dest: compile_other_ok)
  show "op_contract oper = TRANSACTION_OPERATION_CONTRACT \<Longrightarrow>
      \<exists>t. cmd = TransactionalConsumePublishCommand t \<and> command_ok c s cmd"
    using assms by (auto simp: compile_def Let_def TRANSACTION_OPERATION_CONTRACT_def simp del: command_ok.simps
        split: if_split_asm dest: compile_transactional_ok)
qed



end
