(* ===== verification/Protocol.thy ===== *)
theory Protocol
  imports Telemetry
begin

text \<open>
  \<^verbatim>\<open>probe/protocol.py\<close>: the authenticated ApiVersions probe. Required wire ranges and their
  negotiation; the bounded reader and the frames of the protocol; a connection that sends one
  request at a time and reads its response to the byte; SASL PLAIN and SCRAM; and the probe of
  one broker. Text is kept as its UTF-8 bytes. The hash functions of \<^verbatim>\<open>hashlib\<close> and \<^verbatim>\<open>hmac\<close> are
  a parameter; opening sockets and TLS are calls to the environment.
\<close>

unbundle bit_operations_syntax

section \<open>Required protocol ranges\<close>

definition BASE_APIS :: "(int, string \<times> int \<times> int) dict" where
  "BASE_APIS =
    [(0, ''Produce/record-batch-v2'', 3, 10), (1, ''Fetch/committed-reads'', 4, 16),
     (2, ''ListOffsets/retained-range'', 1, 7), (3, ''Metadata'', 0, 13), (8, ''OffsetCommit'', 1, 9),
     (9, ''OffsetFetch'', 1, 9), (10, ''FindCoordinator'', 0, 2), (11, ''JoinGroup'', 0, 5),
     (12, ''Heartbeat'', 0, 3), (13, ''LeaveGroup'', 0, 1), (14, ''SyncGroup'', 0, 3),
     (18, ''ApiVersions'', 0, 0), (22, ''InitProducerId/idempotence'', 0, 4),
     (32, ''DescribeConfigs/physical-lifecycle'', 0, 1)]"

definition TRANSACTION_APIS :: "(int, string \<times> int \<times> int) dict" where
  "TRANSACTION_APIS =
    [(10, ''FindCoordinator/transaction'', 1, 2), (24, ''AddPartitionsToTxn'', 0, 0),
     (25, ''AddOffsetsToTxn'', 0, 0), (26, ''EndTxn'', 0, 1), (28, ''TxnOffsetCommit/group-generation'', 3, 3)]"

type_synonym api_versions = "(int, int \<times> int) dict"

definition required_apis :: "bool \<Rightarrow> (int, string \<times> int \<times> int) dict" where
  "required_apis transactional = dupdate BASE_APIS (if transactional then TRANSACTION_APIS else [])"

definition api_missing :: "int \<Rightarrow> exc" where
  "api_missing key = Meridian ((merror KafkaConfigurationError)
     \<lparr>me_provenance := [(''requirement'', ''kafka.api.'' @ str_int key)]\<rparr>)"

definition validate_api :: "api_versions \<Rightarrow> int \<times> string \<times> int \<times> int \<Rightarrow> (string, int) dict \<Rightarrow> exc + (string, int) dict" where
  "validate_api versions required negotiated = (case required of (key, name, minimum, maximum) \<Rightarrow>
     case map_of versions key of
       None \<Rightarrow> Inl (api_missing key)
     | Some (low, high) \<Rightarrow>
         if \<not> (0 \<le> low \<and> low \<le> high) \<or> high < minimum \<or> low > maximum then Inl (api_missing key)
         else Inr (dset (str_int key) (min high maximum) negotiated))"

definition validate_api_versions :: "api_versions \<Rightarrow> bool \<Rightarrow> exc + (string, int) dict" where
  "validate_api_versions versions transactional = foldE (validate_api versions) (required_apis transactional) []"

section \<open>Bytes\<close>

text \<open>\<open>int.from_bytes(data, "big", signed=True)\<close> and \<open>struct.pack\<close> of one signed integer\<close>

fun be_unsigned :: "string \<Rightarrow> int" where
  "be_unsigned [] = 0"
| "be_unsigned (c # cs) = int (of_char c) * 256 ^ length cs + be_unsigned cs"

definition from_bytes :: "string \<Rightarrow> int" where
  "from_bytes bs = (let u = be_unsigned bs in
     if bs \<noteq> [] \<and> 2 * u \<ge> 256 ^ length bs then u - 256 ^ length bs else u)"

fun be_bytes :: "nat \<Rightarrow> int \<Rightarrow> string" where
  "be_bytes 0 u = []"
| "be_bytes (Suc n) u = char_of (nat (u div 256 ^ n)) # be_bytes n (u mod 256 ^ n)"

abbreviation fits :: "nat \<Rightarrow> int \<Rightarrow> bool" where
  "fits n i \<equiv> - (256 ^ n) \<le> 2 * i \<and> 2 * i < 256 ^ n"

definition pack :: "nat \<Rightarrow> int \<Rightarrow> exc + string" where
  "pack n i = (if fits n i then Inr (be_bytes n (i mod 256 ^ n)) else Inl (PyExc (OtherError ''struct.error'')))"

definition pack_string :: "string \<Rightarrow> exc + string" where
  "pack_string encoded = bindE (pack 2 (int (length encoded))) (\<lambda>size. Inr (size @ encoded))"

section \<open>Reader\<close>

record reader =
  rd_data :: string
  rd_offset :: nat

abbreviation bad_probe :: exc where
  "bad_probe \<equiv> raised KafkaConfigurationError"

definition new_reader :: "string \<Rightarrow> reader" where
  "new_reader data = \<lparr>rd_data = data, rd_offset = 0\<rparr>"

definition rd_take :: "int \<Rightarrow> reader \<Rightarrow> exc + string \<times> reader" where
  "rd_take sz r = (if sz < 0 \<or> int (rd_offset r) + sz > int (length (rd_data r)) then Inl bad_probe
     else Inr (take (nat sz) (drop (rd_offset r) (rd_data r)), r\<lparr>rd_offset := rd_offset r + nat sz\<rparr>))"

definition rd_integer :: "int \<Rightarrow> reader \<Rightarrow> exc + int \<times> reader" where
  "rd_integer sz r = bindE (rd_take sz r) (\<lambda>(bs, r'). Inr (from_bytes bs, r'))"

definition rd_string :: "reader \<Rightarrow> exc + string \<times> reader" where
  "rd_string r = bindE (rd_integer 2 r) (\<lambda>(sz, r'). if sz = - 1 then Inr ([], r') else rd_take sz r')"

definition rd_finish :: "reader \<Rightarrow> exc + unit" where
  "rd_finish r = (if rd_offset r \<noteq> length (rd_data r) then Inl bad_probe else Inr ())"

fun read_ranges :: "nat \<Rightarrow> api_versions \<Rightarrow> reader \<Rightarrow> exc + api_versions \<times> reader" where
  "read_ranges 0 result r = Inr (result, r)"
| "read_ranges (Suc count) result r =
     bindE (rd_integer 2 r) (\<lambda>(key, r1).
     bindE (rd_integer 2 r1) (\<lambda>(minimum, r2).
     bindE (rd_integer 2 r2) (\<lambda>(maximum, r3).
     if key < 0 \<or> key \<in> set (dkeys result) \<or> \<not> (0 \<le> minimum \<and> minimum \<le> maximum) then Inl bad_probe
     else read_ranges count (dset key (minimum, maximum) result) r3)))"

definition parse_api_versions :: "string \<Rightarrow> exc + api_versions" where
  "parse_api_versions data =
     bindE (rd_integer 2 (new_reader data)) (\<lambda>(error, r1).
     if error \<noteq> 0 then Inl bad_probe
     else bindE (rd_integer 4 r1) (\<lambda>(count, r2).
     if \<not> (1 \<le> count \<and> count \<le> 1000) then Inl bad_probe
     else bindE (read_ranges (nat count) [] r2) (\<lambda>(result, r3).
     bindE (rd_finish r3) (\<lambda>_. Inr result))))"

section \<open>Connection\<close>

text \<open>
  The connection's mutable field is its correlation number, which is passed along. \<open>recv(n)\<close>
  returns at least one byte, unless the peer has closed, so a read of \<open>sz\<close> bytes makes at
  most \<open>sz\<close> rounds: that is its fuel.
\<close>

record connection =
  cn_deadline :: rat
  cn_correlation :: int

definition conn_timeout :: "env \<Rightarrow> connection \<Rightarrow> (exc, 'w world_scheme, unit) op" where
  "conn_timeout e cn = bindM (monotonic e) (\<lambda>now.
     if cn_deadline cn - now \<le> 0 then throwM (PyExc TimeoutError)
     else command e (SockTimeout (cn_deadline cn - now)))"

fun conn_read_loop :: "nat \<Rightarrow> env \<Rightarrow> connection \<Rightarrow> nat \<Rightarrow> string \<Rightarrow> (exc, 'w world_scheme, string) op" where
  "conn_read_loop fuel e cn sz chunks =
     (if \<not> length chunks < sz then retM chunks
      else case fuel of 0 \<Rightarrow> throwM Diverged
      | Suc fuel' \<Rightarrow>
          bindM (conn_timeout e cn) (\<lambda>_.
          bindM (request e (SockRecv (sz - length chunks)) (e_bytes e)) (\<lambda>chunk.
          if chunk = [] then throwM bad_probe
          else conn_read_loop fuel' e cn sz (chunks @ chunk))))"

definition conn_read :: "env \<Rightarrow> connection \<Rightarrow> nat \<Rightarrow> (exc, 'w world_scheme, string) op" where
  "conn_read e cn sz = conn_read_loop sz e cn sz []"

definition conn_payload :: "int \<Rightarrow> int \<Rightarrow> int \<Rightarrow> string \<Rightarrow> exc + string" where
  "conn_payload key version correlation body =
     bindE (pack 2 key) (\<lambda>k.
     bindE (pack 2 version) (\<lambda>v.
     bindE (pack 4 correlation) (\<lambda>c.
     bindE (pack_string ''meridian-probe'') (\<lambda>name. Inr (k @ v @ c @ name @ body)))))"

definition conn_request :: "env \<Rightarrow> connection \<Rightarrow> int \<Rightarrow> int \<Rightarrow> string \<Rightarrow> (exc, 'w world_scheme, string \<times> connection) op" where
  "conn_request e cn key version body =
     (let correlation = cn_correlation cn + 1; cn' = cn\<lparr>cn_correlation := correlation\<rparr> in
      bindM (liftE (conn_payload key version correlation body)) (\<lambda>payload.
      bindM (conn_timeout e cn') (\<lambda>_.
      bindM (liftE (pack 4 (int (length payload)))) (\<lambda>sz.
      bindM (command e (SockSend (sz @ payload))) (\<lambda>_.
      bindM (conn_read e cn' 4) (\<lambda>header.
      let sz = from_bytes header in
      if \<not> (4 \<le> sz \<and> sz \<le> 1048576) then throwM bad_probe
      else bindM (conn_read e cn' (nat sz)) (\<lambda>data.
        liftE (bindE (rd_integer 4 (new_reader data)) (\<lambda>(number, r).
          if number \<noteq> correlation then Inl bad_probe
          else bindE (rd_take (sz - 4) r) (\<lambda>(body', _). Inr (body', cn')))))))))))"

definition conn_authenticate :: "env \<Rightarrow> connection \<Rightarrow> string \<Rightarrow> (exc, 'w world_scheme, string \<times> connection) op" where
  "conn_authenticate e cn token =
     bindM (liftE (pack 4 (int (length token)))) (\<lambda>sz.
     bindM (conn_request e cn 36 0 (sz @ token)) (\<lambda>(data, cn').
     liftE (bindE (rd_integer 2 (new_reader data)) (\<lambda>(error, r1).
       bindE (rd_string r1) (\<lambda>(_, r2).
       bindE (rd_integer 4 r2) (\<lambda>(n, r3).
       bindE (rd_take n r3) (\<lambda>(response, r4).
       bindE (rd_finish r4) (\<lambda>_.
       if error \<noteq> 0 then Inl (raised KafkaAuthenticationFailed) else Inr (response, cn')))))))))"

section \<open>SASL\<close>

text \<open>Hash functions by the name of their algorithm.\<close>

record scram_digests =
  sd_pbkdf2 :: "string \<Rightarrow> string \<Rightarrow> string \<Rightarrow> int \<Rightarrow> string"
  sd_hmac :: "string \<Rightarrow> string \<Rightarrow> string \<Rightarrow> string"
  sd_hash :: "string \<Rightarrow> string \<Rightarrow> string"

fun split_on :: "char \<Rightarrow> string \<Rightarrow> string list" where
  "split_on d [] = [[]]"
| "split_on d (c # cs) = (if c = d then [] # split_on d cs else (c # hd (split_on d cs)) # tl (split_on d cs))"

text \<open>\<open>item.split("=", 1)\<close> as the two elements \<open>dict\<close> needs\<close>

fun field_of :: "string \<Rightarrow> exc + string \<times> string" where
  "field_of [] = Inl (PyExc ValueError)"
| "field_of (c # cs) = (if c = CHR ''='' then Inr ([], cs) else bindE (field_of cs) (\<lambda>(k, v). Inr (c # k, v)))"

definition challenge_fields :: "string \<Rightarrow> exc + (string, string) dict" where
  "challenge_fields server = foldE (\<lambda>item d. bindE (field_of item) (\<lambda>(k, v). Inr (dset k v d))) (split_on CHR '','' server) []"

text \<open>
  \<open>int(text)\<close> for ASCII text: blanks around, a sign, digits with single underscores between
  them, at most 4300 digits. Digits and blanks outside ASCII are left out.
\<close>

definition is_space :: "char \<Rightarrow> bool" where
  "is_space c = ((of_char c :: nat) \<in> set [9, 10, 11, 12, 13, 28, 29, 30, 31, 32])"

definition strip :: "string \<Rightarrow> string" where
  "strip s = rev (dropWhile is_space (rev (dropWhile is_space s)))"

fun int_digits :: "string \<Rightarrow> string option" where
  "int_digits [c] = (if is_digit c then Some [c] else None)"
| "int_digits (c # d # s) =
     (if \<not> is_digit c then None
      else map_option ((#) c) (int_digits (if d = CHR ''_'' then s else d # s)))"
| "int_digits _ = None"

definition py_int :: "string \<Rightarrow> exc + int" where
  "py_int text = (let s = strip text;
       (sign, body) = (case s of c # cs \<Rightarrow> if c = CHR ''-'' then (- 1, cs) else if c = CHR ''+'' then (1, cs) else (1, s)
         | [] \<Rightarrow> (1, s)) in
     case int_digits body of
       None \<Rightarrow> Inl (PyExc ValueError)
     | Some ds \<Rightarrow> if length ds > 4300 then Inl (PyExc ValueError) else Inr (sign * int (digits_value 0 ds)))"

definition field_at :: "(string, string) dict \<Rightarrow> string \<Rightarrow> exc + string" where
  "field_at d k = (case map_of d k of None \<Rightarrow> Inl (PyExc KeyError) | Some v \<Rightarrow> Inr v)"

definition starts_with :: "string \<Rightarrow> string \<Rightarrow> bool" where
  "starts_with p s = (take (length p) s = p)"

fun replace_char :: "char \<Rightarrow> string \<Rightarrow> string \<Rightarrow> string" where
  "replace_char c r [] = []"
| "replace_char c r (x # xs) = (if x = c then r else [x]) @ replace_char c r xs"

definition xor_char :: "char \<Rightarrow> char \<Rightarrow> char" where
  "xor_char a b = char_of ((of_char a :: nat) XOR of_char b)"

definition xor_bytes :: "string \<Rightarrow> string \<Rightarrow> exc + string" where
  "xor_bytes a b = (if length a \<noteq> length b then Inl (PyExc ValueError) else Inr (map (\<lambda>(x, y). xor_char x y) (zip a b)))"

definition b64_strict :: "string \<Rightarrow> exc + string" where
  "b64_strict s = (case b64decode std_alt s of None \<Rightarrow> Inl (PyExc ValueError) | Some v \<Rightarrow> Inr v)"

text \<open>The server's challenge: the nonce it extended, the salt and the number of iterations.\<close>

definition scram_challenge :: "string \<Rightarrow> string \<Rightarrow> exc + string \<times> string \<times> int" where
  "scram_challenge nonce server =
     bindE (challenge_fields server) (\<lambda>fields.
     bindE (bindE (field_at fields ''i'') py_int) (\<lambda>iterations.
     bindE (if length fields \<noteq> length (split_on CHR '','' server) \<or> ''m'' \<in> set (dkeys fields) then Inl (PyExc ValueError)
       else bindE (field_at fields ''r'') (\<lambda>r.
         if \<not> starts_with nonce r \<or> r = nonce \<or> \<not> (4096 \<le> iterations \<and> iterations \<le> 1000000)
         then Inl (PyExc ValueError) else Inr r)) (\<lambda>r.
     bindE (bindE (field_at fields ''s'') b64_strict) (\<lambda>salt. Inr (r, salt, iterations)))))"

definition scram_salted :: "scram_digests \<Rightarrow> string \<Rightarrow> string \<Rightarrow> string \<Rightarrow> int \<Rightarrow> string" where
  "scram_salted d algorithm password salt iterations = sd_pbkdf2 d algorithm password salt iterations"

definition scram_proof :: "scram_digests \<Rightarrow> string \<Rightarrow> string \<Rightarrow> string \<Rightarrow> exc + string" where
  "scram_proof d algorithm salted message =
     (let client_key = sd_hmac d algorithm salted ''Client Key''
      in xor_bytes client_key (sd_hmac d algorithm (sd_hash d algorithm client_key) message))"

definition scram_expected :: "scram_digests \<Rightarrow> string \<Rightarrow> string \<Rightarrow> string \<Rightarrow> string" where
  "scram_expected d algorithm salted message =
     sd_hmac d algorithm (sd_hmac d algorithm salted ''Server Key'') message"

definition scram_verify :: "string \<Rightarrow> string \<Rightarrow> exc + unit" where
  "scram_verify expected reply =
     (if \<not> starts_with ''v='' reply then Inl (PyExc ValueError)
      else bindE (b64_strict (drop 2 reply)) (\<lambda>signature.
        if signature \<noteq> expected then Inl (PyExc ValueError) else Inr ()))"

text \<open>\<open>except (ValueError, KeyError)\<close>: an authentication failure\<close>

definition scram_guard :: "core \<Rightarrow> (exc, 's, 'a) op \<Rightarrow> (exc, 's, 'a) op" where
  "scram_guard c m = catchM m (\<lambda>x.
     throwM (if is_error_of c [ValueError, KeyError] x then raised KafkaAuthenticationFailed else x))"

definition utf8_text :: "string \<Rightarrow> exc + string" where
  "utf8_text s = (if utf8_valid s then Inr s else Inl (PyExc UnicodeError))"

text \<open>the body of the \<open>try\<close>: check the challenge, prove the password, check the server's signature\<close>

definition scram_exchange :: "env \<Rightarrow> scram_digests \<Rightarrow> connection \<Rightarrow> string \<Rightarrow> string \<Rightarrow> string \<Rightarrow> string \<Rightarrow> string \<Rightarrow>
    (exc, 'w world_scheme, connection) op" where
  "scram_exchange e d cn algorithm password nonce first server =
     bindM (liftE (scram_challenge nonce server)) (\<lambda>(r, salt, iterations).
     let salted = scram_salted d algorithm password salt iterations;
         final = ''c=biws,r='' @ r;
         message = first @ '','' @ server @ '','' @ final in
     bindM (liftE (scram_proof d algorithm salted message)) (\<lambda>proof.
     bindM (conn_authenticate e cn (final @ '',p='' @ b64encode std_alt proof)) (\<lambda>(reply, cn').
     bindM (liftE (scram_verify (scram_expected d algorithm salted message) reply)) (\<lambda>_.
     retM cn'))))"

definition scram :: "core \<Rightarrow> env \<Rightarrow> scram_digests \<Rightarrow> connection \<Rightarrow> string \<Rightarrow> string \<Rightarrow> string \<Rightarrow>
    (exc, 'w world_scheme, connection) op" where
  "scram c e d cn mechanism username password =
     (let algorithm = (if mechanism = ''SCRAM-SHA-256'' then ''sha256'' else ''sha512'');
          escaped = replace_char CHR '','' ''=2C'' (replace_char CHR ''='' ''=3D'' username) in
      bindM (ask (TokenUrlsafe 24) (e_text e)) (\<lambda>nonce.
      let first = ''n='' @ escaped @ '',r='' @ nonce in
      bindM (conn_authenticate e cn (''n,,'' @ first)) (\<lambda>(raw, cn1).
      bindM (liftE (utf8_text raw)) (\<lambda>server.
      scram_guard c (scram_exchange e d cn1 algorithm password nonce first server)))))"

fun read_mechanisms :: "nat \<Rightarrow> reader \<Rightarrow> exc + string list \<times> reader" where
  "read_mechanisms 0 r = Inr ([], r)"
| "read_mechanisms (Suc n) r =
     bindE (rd_string r) (\<lambda>(raw, r1).
     bindE (utf8_text raw) (\<lambda>text.
     bindE (read_mechanisms n r1) (\<lambda>(rest, r2). Inr (text # rest, r2))))"

definition parse_mechanisms :: "string \<Rightarrow> exc + int \<times> string list" where
  "parse_mechanisms data =
     bindE (rd_integer 2 (new_reader data)) (\<lambda>(error, r1).
     bindE (rd_integer 4 r1) (\<lambda>(count, r2).
     if \<not> (0 \<le> count \<and> count \<le> 100) then Inl bad_probe
     else bindE (read_mechanisms (nat count) r2) (\<lambda>(mechanisms, r3).
     bindE (rd_finish r3) (\<lambda>_. Inr (error, mechanisms)))))"

abbreviation auth_failed :: exc where
  "auth_failed \<equiv> raised KafkaAuthenticationFailed"

definition authenticate :: "core \<Rightarrow> env \<Rightarrow> scram_digests \<Rightarrow> connection \<Rightarrow> settings \<Rightarrow> (exc, 'w world_scheme, connection) op" where
  "authenticate c e d cn s = (case st_sasl_mechanism s of
     None \<Rightarrow> retM cn
   | Some mechanism \<Rightarrow>
       bindM (liftE (pack_string mechanism)) (\<lambda>body.
       bindM (conn_request e cn 17 1 body) (\<lambda>(data, cn1).
       bindM (liftE (parse_mechanisms data)) (\<lambda>(error, mechanisms).
       if error \<noteq> 0 \<or> mechanism \<notin> set mechanisms then throwM auth_failed
       else case (id_username (st_identity s), se_password (st_secrets s)) of
         (Some username, Some password) \<Rightarrow>
           if mechanism = ''PLAIN''
           then if CHR 0x00 \<in> set username \<or> CHR 0x00 \<in> set password then throwM auth_failed
             else bindM (conn_authenticate e cn1 ([CHR 0x00] @ username @ [CHR 0x00] @ password)) (\<lambda>(_, cn2). retM cn2)
           else scram c e d cn1 mechanism username password
       | _ \<Rightarrow> throwM auth_failed))))"

section \<open>The probe of a broker\<close>

definition probe_connection :: "core \<Rightarrow> env \<Rightarrow> scram_digests \<Rightarrow> settings \<Rightarrow> rat \<Rightarrow> (exc, 'w world_scheme, api_versions) op" where
  "probe_connection c e d s deadline =
     bindM (authenticate c e d \<lparr>cn_deadline = deadline, cn_correlation = 0\<rparr> s) (\<lambda>cn.
     bindM (conn_request e cn 18 0 []) (\<lambda>(data, _). liftE (parse_api_versions data)))"

text \<open>What \<open>_tls_context\<close> gives to \<^verbatim>\<open>ssl\<close>: the authority, and in mutual mode the certificate and key.\<close>

definition tls_identity :: "settings \<Rightarrow> (string \<times> string \<times> string option) option" where
  "tls_identity s = (if st_tls_mode s = ''mutual''
     then Some (case st_tls_client_certificate_pem s of Some c \<Rightarrow> c | None \<Rightarrow> [],
       case se_private_key_pem (st_secrets s) of Some k \<Rightarrow> k | None \<Rightarrow> [], se_private_key_password (st_secrets s))
     else None)"

definition server_hostname :: "settings \<Rightarrow> string \<Rightarrow> string" where
  "server_hostname s host = (case st_tls_server_name s of Some n \<Rightarrow> if n = [] then host else n | None \<Rightarrow> host)"

definition probe_api_versions :: "core \<Rightarrow> env \<Rightarrow> scram_digests \<Rightarrow> settings \<Rightarrow> string \<Rightarrow> int \<Rightarrow> rat \<Rightarrow>
    (exc, 'w world_scheme, api_versions) op" where
  "probe_api_versions c e d s host port deadline =
     bindM (monotonic e) (\<lambda>now.
     if deadline - now \<le> 0 then throwM (PyExc TimeoutError)
     else bindM (command e (SockConnect host port (deadline - now))) (\<lambda>_.
       alwaysM
         (if st_tls_mode s \<noteq> ''disabled''
          then bindM (command e (TlsWrap (st_tls_ca_pem s) (tls_identity s) (server_hostname s host))) (\<lambda>_.
            alwaysM (probe_connection c e d s deadline) (command e TlsClose))
          else probe_connection c e d s deadline)
         (command e SockClose)))"

section \<open>Integers as bytes\<close>

lemma be_unsigned_bounds: "0 \<le> be_unsigned bs \<and> be_unsigned bs < 256 ^ length bs"
proof (induction bs)
  case (Cons c cs)
  have c: "int (of_char c) \<le> 255" using nat_of_char_less_256 [of c] by linarith
  have "int (of_char c) * 256 ^ length cs \<le> 255 * 256 ^ length cs" using c by (intro mult_right_mono) simp_all
  moreover have "0 \<le> int (of_char c) * 256 ^ length cs" by simp
  ultimately show ?case using Cons unfolding be_unsigned.simps length_Cons power_Suc by linarith
qed simp

lemma be_unsigned_bytes: "0 \<le> u \<Longrightarrow> u < 256 ^ n \<Longrightarrow> be_unsigned (be_bytes n u) = u \<and> length (be_bytes n u) = n"
proof (induction n arbitrary: u)
  case (Suc n)
  have d: "0 \<le> u div 256 ^ n" using Suc.prems by (simp add: pos_imp_zdiv_nonneg_iff)
  have m: "0 \<le> u mod 256 ^ n" "u mod 256 ^ n < 256 ^ n" by simp_all
  have l: "u div 256 ^ n < 256"
  proof (rule ccontr)
    assume "\<not> ?thesis"
    then have "256 * 256 ^ n \<le> u div 256 ^ n * 256 ^ n" by (intro mult_right_mono) simp_all
    moreover have "u div 256 ^ n * 256 ^ n \<le> u" using div_mult_mod_eq [of u "256 ^ n"] m(1) by linarith
    ultimately show False using Suc.prems unfolding power_Suc by linarith
  qed
  show ?case using Suc.IH [OF m] d l div_mult_mod_eq [of u "256 ^ n"] by simp
qed simp

lemma be_bytes_unsigned: "be_bytes (length bs) (be_unsigned bs) = bs"
proof (induction bs)
  case (Cons c cs)
  note b = be_unsigned_bounds [of cs]
  have "be_unsigned (c # cs) div 256 ^ length cs = int (of_char c)" "be_unsigned (c # cs) mod 256 ^ length cs = be_unsigned cs"
    using b by simp_all
  then show ?case using Cons by (simp del: be_unsigned.simps)
qed simp

text \<open>
  A reader stands before what is left of its data; \<open>follows r bs r'\<close> when reading \<open>bs\<close> takes it
  from \<open>r\<close> to \<open>r'\<close>.
\<close>

abbreviation rest :: "reader \<Rightarrow> string" where
  "rest r \<equiv> drop (rd_offset r) (rd_data r)"

abbreviation reads_at :: "reader \<Rightarrow> bool" where
  "reads_at r \<equiv> rd_offset r \<le> length (rd_data r)"

definition follows :: "reader \<Rightarrow> string \<Rightarrow> reader \<Rightarrow> bool" where
  "follows r bs r' \<longleftrightarrow> r' = r\<lparr>rd_offset := rd_offset r + length bs\<rparr> \<and> reads_at r' \<and> take (length bs) (rest r) = bs"

lemma follows_reads: "follows r bs r' \<Longrightarrow> reads_at r'"
  by (auto simp: follows_def)

lemma follows_Nil: "reads_at r \<Longrightarrow> follows r [] r' \<longleftrightarrow> r' = r"
  by (auto simp: follows_def)

lemma follows_append: "follows r (as @ bs) r' \<longleftrightarrow> (\<exists>m. follows r as m \<and> follows m bs r')"
proof -
  have split: "take (length as + length bs) xs = as @ bs \<longleftrightarrow> take (length as) xs = as \<and> take (length bs) (drop (length as) xs) = bs"
    if "length as + length bs \<le> length xs" for xs
    using that by (simp add: take_add append_eq_append_conv)
  show ?thesis
    by (auto simp: follows_def add.assoc split [unfolded atomize_imp] add.commute)
qed

lemma follows_all: "follows (new_reader data) bs r \<and> rest r = [] \<longleftrightarrow> bs = data \<and> r = (new_reader data)\<lparr>rd_offset := length data\<rparr>"
  by (auto simp: follows_def new_reader_def)

text \<open>
  A fixed-width encoding: the values it covers and their bytes correspond one to one. The
  reader takes such a value off the front of what is left, exactly when it is there.
\<close>

locale fixed_width =
  fixes width :: nat and bytes_of :: "'v \<Rightarrow> string" and value_of :: "string \<Rightarrow> 'v" and covers :: "'v \<Rightarrow> bool"
  assumes bytes_width: "covers v \<Longrightarrow> length (bytes_of v) = width"
    and value_bytes: "covers v \<Longrightarrow> value_of (bytes_of v) = v"
    and bytes_value: "length bs = width \<Longrightarrow> bytes_of (value_of bs) = bs \<and> covers (value_of bs)"
begin

definition take_value :: "reader \<Rightarrow> exc + 'v \<times> reader" where
  "take_value r = bindE (rd_take (int width) r) (\<lambda>(bs, r'). Inr (value_of bs, r'))"

lemma take_value_iff:
  assumes "reads_at r" shows "take_value r = Inr (v, r') \<longleftrightarrow> covers v \<and> follows r (bytes_of v) r'"
proof
  assume "take_value r = Inr (v, r')"
  then have r': "rd_offset r + width \<le> length (rd_data r)" "v = value_of (take width (rest r))"
    "r' = r\<lparr>rd_offset := rd_offset r + width\<rparr>"
    by (auto simp: take_value_def rd_take_def split: if_splits)
  have "length (take width (rest r)) = width" using r'(1) by simp
  from bytes_value [OF this] show "covers v \<and> follows r (bytes_of v) r'"
    using r' bytes_width by (simp add: follows_def)
next
  assume "covers v \<and> follows r (bytes_of v) r'"
  then show "take_value r = Inr (v, r')"
    using bytes_width value_bytes by (auto simp: take_value_def rd_take_def follows_def)
qed

end

definition int_bytes :: "nat \<Rightarrow> int \<Rightarrow> string" where
  "int_bytes n i = be_bytes n (i mod 256 ^ n)"

lemma int_bytes_codec:
  assumes "0 < n"
  shows "fits n i \<Longrightarrow> length (int_bytes n i) = n \<and> from_bytes (int_bytes n i) = i"
    and "length bs = n \<Longrightarrow> int_bytes n (from_bytes bs) = bs \<and> fits n (from_bytes bs)"
proof -
  have p: "(0::int) < 256 ^ n" by simp
  show "length (int_bytes n i) = n \<and> from_bytes (int_bytes n i) = i" if f: "fits n i"
  proof -
    let ?u = "i mod 256 ^ n"
    have u: "0 \<le> ?u" "?u < 256 ^ n" by simp_all
    note b = be_unsigned_bytes [OF u]
    have "?u = (if i < 0 then i + 256 ^ n else i)"
    proof (cases "i < 0")
      case True
      then have "(i + 256 ^ n) mod 256 ^ n = i + 256 ^ n" using f by (intro mod_pos_pos_trivial) linarith+
      then show ?thesis using True by simp
    next
      case False
      then show ?thesis using f by (simp add: mod_pos_pos_trivial)
    qed
    moreover have "be_bytes n ?u \<noteq> []" using b assms by (metis list.size(3) less_irrefl)
    ultimately show ?thesis using b f by (simp add: int_bytes_def from_bytes_def Let_def)
  qed
  show "int_bytes n (from_bytes bs) = bs \<and> fits n (from_bytes bs)" if l: "length bs = n"
  proof -
    note b = be_unsigned_bounds [of bs]
    have u: "be_unsigned bs mod 256 ^ n = be_unsigned bs" using b l by (intro mod_pos_pos_trivial) simp_all
    then have m: "from_bytes bs mod 256 ^ n = be_unsigned bs" using l by (simp add: from_bytes_def Let_def)
    have "bs \<noteq> []" using l assms by auto
    then have "fits n (from_bytes bs)" using b l by (auto simp: from_bytes_def Let_def)
    then show ?thesis using m be_bytes_unsigned [of bs] l by (simp add: int_bytes_def)
  qed
qed

interpretation short: fixed_width 2 "int_bytes 2" from_bytes "fits 2"
  by unfold_locales (use int_bytes_codec [of 2] in auto)

interpretation long: fixed_width 4 "int_bytes 4" from_bytes "fits 4"
  by unfold_locales (use int_bytes_codec [of 4] in auto)

lemma rd_integer_widths: "rd_integer 2 r = short.take_value r" "rd_integer 4 r = long.take_value r"
  by (simp_all add: rd_integer_def short.take_value_def long.take_value_def)

section \<open>ApiVersions responses\<close>

definition api_range :: "int \<times> int \<times> int \<Rightarrow> string" where
  "api_range entry = (case entry of (key, low, high) \<Rightarrow> int_bytes 2 key @ int_bytes 2 low @ int_bytes 2 high)"

definition encode_api_versions :: "api_versions \<Rightarrow> string" where
  "encode_api_versions versions = int_bytes 2 0 @ int_bytes 4 (int (length versions)) @ concat (map api_range versions)"

definition api_entry_ok :: "int \<times> int \<times> int \<Rightarrow> bool" where
  "api_entry_ok entry = (case entry of (key, low, high) \<Rightarrow> 0 \<le> key \<and> key < 32768 \<and> 0 \<le> low \<and> low \<le> high \<and> high < 32768)"

definition api_versions_ok :: "api_versions \<Rightarrow> bool" where
  "api_versions_ok versions = (1 \<le> length versions \<and> length versions \<le> 1000 \<and> distinct (dkeys versions)
     \<and> list_all api_entry_ok versions)"

lemma entry_ok_iff: "api_entry_ok (key, low, high) \<longleftrightarrow> fits 2 key \<and> fits 2 low \<and> fits 2 high \<and> 0 \<le> key \<and> 0 \<le> low \<and> low \<le> high"
  by (auto simp: api_entry_ok_def)

lemma dset_fresh: "k \<notin> set (dkeys d) \<Longrightarrow> dset k v d = d @ [(k, v)]"
  by (induction d) auto

lemma read_range_iff:
  assumes "reads_at r"
  shows "(\<exists>r1 r2. rd_integer 2 r = Inr (key, r1) \<and> rd_integer 2 r1 = Inr (low, r2) \<and> rd_integer 2 r2 = Inr (high, r3))
    \<longleftrightarrow> fits 2 key \<and> fits 2 low \<and> fits 2 high \<and> follows r (api_range (key, low, high)) r3"
  unfolding rd_integer_widths api_range_def prod.case follows_append
  using short.take_value_iff assms follows_reads by meson

lemma read_ranges_iff:
  assumes "reads_at r"
  shows "read_ranges n acc r = Inr (res, r') \<longleftrightarrow> (\<exists>new. res = acc @ new \<and> length new = n \<and> list_all api_entry_ok new
    \<and> distinct (dkeys new) \<and> set (dkeys new) \<inter> set (dkeys acc) = {} \<and> follows r (concat (map api_range new)) r')"
  using assms
proof (induction n arbitrary: acc r)
  case 0
  then show ?case by (auto simp: follows_Nil)
next
  case (Suc n)
  have "read_ranges (Suc n) acc r = Inr (res, r') \<longleftrightarrow> (\<exists>key low high r3.
      (\<exists>r1 r2. rd_integer 2 r = Inr (key, r1) \<and> rd_integer 2 r1 = Inr (low, r2) \<and> rd_integer 2 r2 = Inr (high, r3))
      \<and> 0 \<le> key \<and> key \<notin> set (dkeys acc) \<and> 0 \<le> low \<and> low \<le> high \<and> read_ranges n (acc @ [(key, low, high)]) r3 = Inr (res, r'))"
    by (auto simp: dset_fresh split: if_splits)
  also have "\<dots> \<longleftrightarrow> (\<exists>entry r3. api_entry_ok entry \<and> fst entry \<notin> set (dkeys acc) \<and> follows r (api_range entry) r3
      \<and> read_ranges n (acc @ [entry]) r3 = Inr (res, r'))"
    unfolding read_range_iff [OF Suc.prems] split_paired_Ex fst_conv entry_ok_iff by meson
  also have "\<dots> \<longleftrightarrow> (\<exists>entry r3 new. api_entry_ok entry \<and> fst entry \<notin> set (dkeys acc) \<and> follows r (api_range entry) r3
      \<and> res = (acc @ [entry]) @ new \<and> length new = n \<and> list_all api_entry_ok new \<and> distinct (dkeys new)
      \<and> set (dkeys new) \<inter> set (dkeys (acc @ [entry])) = {} \<and> follows r3 (concat (map api_range new)) r')"
  proof -
    have "read_ranges n (acc @ [entry]) r3 = Inr (res, r') \<longleftrightarrow> (\<exists>new. res = (acc @ [entry]) @ new \<and> length new = n
        \<and> list_all api_entry_ok new \<and> distinct (dkeys new) \<and> set (dkeys new) \<inter> set (dkeys (acc @ [entry])) = {}
        \<and> follows r3 (concat (map api_range new)) r')" if "follows r (api_range entry) r3" for entry r3
      by (rule Suc.IH [OF follows_reads [OF that]])
    then show ?thesis by blast
  qed
  also have "\<dots> \<longleftrightarrow> (\<exists>entry new. res = acc @ entry # new \<and> length new = n \<and> list_all api_entry_ok (entry # new)
      \<and> distinct (dkeys (entry # new)) \<and> set (dkeys (entry # new)) \<inter> set (dkeys acc) = {}
      \<and> follows r (concat (map api_range (entry # new))) r')"
    by (auto simp: follows_append) blast
  also have "\<dots> \<longleftrightarrow> (\<exists>new. res = acc @ new \<and> length new = Suc n \<and> list_all api_entry_ok new
    \<and> distinct (dkeys new) \<and> set (dkeys new) \<inter> set (dkeys acc) = {} \<and> follows r (concat (map api_range new)) r')"
    by (auto simp: length_Suc_conv)
  finally show ?case .
qed

lemma parse_api_versions_iff:
  "parse_api_versions data = Inr versions \<longleftrightarrow> api_versions_ok versions \<and> data = encode_api_versions versions"
proof -
  let ?r = "new_reader data"
  have start: "reads_at ?r" by (simp add: new_reader_def)
  have finish: "rd_finish r = Inr () \<longleftrightarrow> rest r = []" if "reads_at r" for r using that by (auto simp: rd_finish_def)
  have "parse_api_versions data = Inr versions \<longleftrightarrow> (\<exists>r1 count r2 r3. rd_integer 2 ?r = Inr (0, r1) \<and> rd_integer 4 r1 = Inr (count, r2)
      \<and> 1 \<le> count \<and> count \<le> 1000 \<and> read_ranges (nat count) [] r2 = Inr (versions, r3) \<and> rd_finish r3 = Inr ())"
    by (auto simp: parse_api_versions_def split: if_splits)
  also have "\<dots> \<longleftrightarrow> (\<exists>r1 count r2 r3. follows ?r (int_bytes 2 0) r1 \<and> follows r1 (int_bytes 4 count) r2 \<and> 1 \<le> count \<and> count \<le> 1000
      \<and> int (length versions) = count \<and> list_all api_entry_ok versions \<and> distinct (dkeys versions)
      \<and> follows r2 (concat (map api_range versions)) r3 \<and> rest r3 = [])"
  proof -
    have one: "rd_integer 2 ?r = Inr (0, r1) \<longleftrightarrow> follows ?r (int_bytes 2 0) r1" for r1
      by (simp add: rd_integer_widths short.take_value_iff [OF start])
    have two: "rd_integer 4 r1 = Inr (count, r2) \<longleftrightarrow> follows r1 (int_bytes 4 count) r2"
      if "reads_at r1" "1 \<le> count" "count \<le> 1000" for r1 count r2
      using that by (simp add: rd_integer_widths long.take_value_iff [OF that(1)])
    have three: "read_ranges (nat count) [] r2 = Inr (versions, r3) \<longleftrightarrow> int (length versions) = count \<and> list_all api_entry_ok versions
        \<and> distinct (dkeys versions) \<and> follows r2 (concat (map api_range versions)) r3" if "reads_at r2" "1 \<le> count" for r2 r3 count
      using that(2) by (auto simp: read_ranges_iff [OF that(1)])
    show ?thesis
      unfolding one
    proof (intro iffI; elim exE conjE)
      fix r1 count r2 r3
      assume a: "follows ?r (int_bytes 2 0) r1" "rd_integer 4 r1 = Inr (count, r2)" "1 \<le> count" "count \<le> 1000"
        "read_ranges (nat count) [] r2 = Inr (versions, r3)" "rd_finish r3 = Inr ()"
      have b: "follows r1 (int_bytes 4 count) r2" using two [OF follows_reads [OF a(1)] a(3,4)] a(2) by blast
      have c: "int (length versions) = count \<and> list_all api_entry_ok versions \<and> distinct (dkeys versions)
        \<and> follows r2 (concat (map api_range versions)) r3" using three [OF follows_reads [OF b] a(3)] a(5) by blast
      then have "rest r3 = []" using finish [OF follows_reads] a(6) by blast
      then show "\<exists>r1 count r2 r3. follows ?r (int_bytes 2 0) r1 \<and> follows r1 (int_bytes 4 count) r2 \<and> 1 \<le> count \<and> count \<le> 1000
        \<and> int (length versions) = count \<and> list_all api_entry_ok versions \<and> distinct (dkeys versions)
        \<and> follows r2 (concat (map api_range versions)) r3 \<and> rest r3 = []" using a b c by blast
    next
      fix r1 count r2 r3
      assume a: "follows ?r (int_bytes 2 0) r1" "follows r1 (int_bytes 4 count) r2" "1 \<le> count" "count \<le> 1000"
        "int (length versions) = count" "list_all api_entry_ok versions" "distinct (dkeys versions)"
        "follows r2 (concat (map api_range versions)) r3" "rest r3 = []"
      then show "\<exists>r1 count r2 r3. follows ?r (int_bytes 2 0) r1 \<and> rd_integer 4 r1 = Inr (count, r2)
        \<and> 1 \<le> count \<and> count \<le> 1000 \<and> read_ranges (nat count) [] r2 = Inr (versions, r3) \<and> rd_finish r3 = Inr ()"
        using two [OF follows_reads [OF a(1)] a(3,4)] three [OF follows_reads [OF a(2)] a(3)] finish [OF follows_reads [OF a(8)]] by blast
    qed
  qed
  also have "\<dots> \<longleftrightarrow> api_versions_ok versions \<and> (\<exists>r3. follows ?r (encode_api_versions versions) r3 \<and> rest r3 = [])"
    by (auto simp: api_versions_ok_def encode_api_versions_def follows_append)
  also have "\<dots> \<longleftrightarrow> api_versions_ok versions \<and> data = encode_api_versions versions"
    unfolding follows_all by auto
  finally show ?thesis .
qed

text \<open>
  C38. The parser accepts exactly the well-formed responses and reads them back: it answers with
  a table of ranges if and only if the bytes are the encoding of that table, with no error
  code, 1 to 1000 distinct non-negative keys and ordered non-negative ranges, and nothing
  missing or left over.
\<close>

theorem parse_api_versions_exact:
  "parse_api_versions data = Inr versions \<longleftrightarrow> api_versions_ok versions \<and> data = encode_api_versions versions"
  by (rule parse_api_versions_iff)

section \<open>Negotiation\<close>

text \<open>A version that both sides support.\<close>

definition common_version :: "api_versions \<Rightarrow> int \<Rightarrow> int \<Rightarrow> int \<Rightarrow> int \<Rightarrow> bool" where
  "common_version versions key minimum maximum v \<longleftrightarrow> (\<exists>low high. map_of versions key = Some (low, high) \<and> 0 \<le> low
     \<and> low \<le> v \<and> v \<le> high \<and> minimum \<le> v \<and> v \<le> maximum)"

lemma validate_api_step:
  assumes "lo \<le> hi"
  shows "validate_api versions (key, name, lo, hi) acc = (if \<exists>v. common_version versions key lo hi v
    then Inr (dset (str_int key) (GREATEST v. common_version versions key lo hi v) acc) else Inl (api_missing key))"
proof (cases "map_of versions key")
  case None
  then show ?thesis by (simp add: validate_api_def common_version_def)
next
  case (Some range)
  obtain l h where r: "range = (l, h)" by force
  have c: "common_version versions key lo hi v \<longleftrightarrow> 0 \<le> l \<and> l \<le> v \<and> v \<le> h \<and> lo \<le> v \<and> v \<le> hi" for v
    using Some by (auto simp: common_version_def r)
  have "(\<exists>v. common_version versions key lo hi v) \<longleftrightarrow> 0 \<le> l \<and> l \<le> h \<and> lo \<le> h \<and> l \<le> hi"
    unfolding c using assms by (auto intro!: exI [of _ "min h hi"])
  moreover have "(GREATEST v. common_version versions key lo hi v) = min h hi" if "0 \<le> l" "l \<le> h" "lo \<le> h" "l \<le> hi"
    by (rule Greatest_equality) (use that assms in \<open>auto simp: c\<close>)
  ultimately show ?thesis using Some by (auto simp: validate_api_def r)
qed

lemma required_ordered: "\<forall>(key, name, lo, hi) \<in> set (required_apis tx). lo \<le> hi"
proof -
  have "\<forall>(key, name, lo, hi) \<in> set (required_apis True). lo \<le> hi" "\<forall>(key, name, lo, hi) \<in> set (required_apis False). lo \<le> hi"
    by code_simp+
  then show ?thesis by (cases tx) simp_all
qed

lemma required_distinct: "distinct (map (str_int \<circ> fst) (required_apis tx))"
proof -
  have "distinct (map (str_int \<circ> fst) (required_apis True))" "distinct (map (str_int \<circ> fst) (required_apis False))" by code_simp+
  then show ?thesis by (cases tx) simp_all
qed

lemma validate_fold:
  assumes "\<forall>(key, name, lo, hi) \<in> set apis. lo \<le> hi" and "distinct (map (str_int \<circ> fst) apis)"
    and "foldE (validate_api versions) apis acc = Inr negotiated"
  shows "(\<forall>(key, name, lo, hi) \<in> set apis. (\<exists>v. common_version versions key lo hi v)
      \<and> map_of negotiated (str_int key) = Some (GREATEST v. common_version versions key lo hi v))
    \<and> (\<forall>k. k \<notin> (str_int \<circ> fst) ` set apis \<longrightarrow> map_of negotiated k = map_of acc k)"
  using assms
proof (induction apis arbitrary: acc)
  case (Cons a apis)
  obtain key name lo hi where a: "a = (key, name, lo, hi)" by (cases a)
  have lohi: "lo \<le> hi" using Cons.prems(1) by (simp add: a)
  obtain acc' where one: "validate_api versions a acc = Inr acc'" and rest: "foldE (validate_api versions) apis acc' = Inr negotiated"
    using Cons.prems(3) by auto
  have v: "\<exists>v. common_version versions key lo hi v" "acc' = dset (str_int key) (GREATEST v. common_version versions key lo hi v) acc"
    using one unfolding a validate_api_step [OF lohi] by (auto split: if_splits)
  note ih = Cons.IH [OF _ _ rest]
  have "str_int key \<notin> (str_int \<circ> fst) ` set apis" using Cons.prems(2) by (simp add: a)
  then have "map_of negotiated (str_int key) = Some (GREATEST v. common_version versions key lo hi v)"
    using ih Cons.prems(1,2) v(2) by simp
  then show ?case using ih Cons.prems(1,2) v by (auto simp: a)
qed simp

lemma validate_fails:
  assumes "\<forall>(key, name, lo, hi) \<in> set apis. lo \<le> hi" and "foldE (validate_api versions) apis acc = Inl x"
  shows "\<exists>(key, name, lo, hi) \<in> set apis. (\<forall>v. \<not> common_version versions key lo hi v) \<and> x = api_missing key"
  using assms
proof (induction apis arbitrary: acc)
  case (Cons a apis)
  obtain key name lo hi where a: "a = (key, name, lo, hi)" by (cases a)
  have lohi: "lo \<le> hi" using Cons.prems(1) by (simp add: a)
  show ?case
    using Cons.prems(2) Cons.IH Cons.prems(1)
    by (fastforce simp: a validate_api_step [OF lohi] bindE_Inl_iff split: if_splits)
qed simp

text \<open>
  C17. Negotiation succeeds exactly when every required API has a protocol version that the
  adapter and the broker share, and then picks the greatest such version of each; when it fails
  it names a required API that has none.
\<close>

theorem api_negotiation:
  "case validate_api_versions versions transactional of
     Inr negotiated \<Rightarrow> \<forall>(key, name, minimum, maximum) \<in> set (required_apis transactional).
       (\<exists>v. common_version versions key minimum maximum v)
       \<and> map_of negotiated (str_int key) = Some (GREATEST v. common_version versions key minimum maximum v)
   | Inl x \<Rightarrow> \<exists>(key, name, minimum, maximum) \<in> set (required_apis transactional).
       (\<forall>v. \<not> common_version versions key minimum maximum v) \<and> x = api_missing key"
  unfolding validate_api_versions_def
  using validate_fold [OF required_ordered required_distinct] validate_fails [OF required_ordered]
  by (auto split: sum.split)

section \<open>The probe ends and cleans up\<close>

declare conn_read_loop.simps [simp del]

lemma read_loop_ends:
  fixes w :: "'w world_scheme"
  assumes "env_returns e"
  shows "sz \<le> fuel + length chunks \<Longrightarrow> wp (conn_read_loop fuel e cn sz chunks) (\<lambda>bs _. sz \<le> length bs) (\<lambda>x _. x \<noteq> Diverged) w"
proof (induction fuel arbitrary: chunks w)
  case 0
  then show ?case by (subst conn_read_loop.simps) (simp add: wp_simps)
next
  case (Suc fuel)
  have IH: "wp (conn_read_loop fuel e cn sz (chunks @ chunk)) (\<lambda>bs _. sz \<le> length bs) (\<lambda>x _. x \<noteq> Diverged) v"
    if "chunk \<noteq> []" for chunk and v :: "'w world_scheme"
  proof (rule Suc.IH)
    have "1 \<le> length chunk" using that by (cases chunk) simp_all
    then show "sz \<le> fuel + length (chunks @ chunk)" using Suc.prems by simp
  qed
  show ?case
    using assms IH
    by (subst conn_read_loop.simps) (auto simp: wp_simps conn_timeout_def env_returns_def split: option.split)
qed

lemma ends_read [ends_intros]: "env_returns e \<Longrightarrow> terminates (conn_read e cn sz)"
  unfolding conn_read_def by (rule terminatesI, rule wp_mono [OF read_loop_ends]) simp_all

lemma finite_reader [fails_intros]:
  "finite_failure (rd_take n r)" "finite_failure (rd_integer n r)" "finite_failure (rd_string r)" "finite_failure (rd_finish r)"
  "finite_failure (pack k i)" "finite_failure (pack_string s)" "finite_failure (utf8_text s)" "finite_failure (b64_strict s)"
  "finite_failure (field_at d key)" "finite_failure (xor_bytes a b)"
  by (auto simp: failsE_def rd_integer_def rd_string_def rd_take_def rd_finish_def pack_def pack_string_def utf8_text_def b64_strict_def
      field_at_def xor_bytes_def bindE_Inl_iff split: if_splits option.splits)

lemma finite_payload [fails_intros]: "finite_failure (conn_payload k v c b)"
  unfolding conn_payload_def by (intro fails_intros)

lemma finite_field_of [fails_intros]: "finite_failure (field_of s)"
  by (induction s) (auto simp: failsE_def bindE_Inl_iff)

lemma finite_ranges [fails_intros]: "finite_failure (read_ranges n acc r)"
proof (induction n arbitrary: acc r)
  case (Suc n)
  then show ?case unfolding read_ranges.simps by (intro fails_intros Suc.IH) simp
qed (simp add: failsE_def)

lemma finite_mechanisms [fails_intros]: "finite_failure (read_mechanisms n r)"
proof (induction n arbitrary: r)
  case (Suc n)
  then show ?case unfolding read_mechanisms.simps by (intro fails_intros Suc.IH)
qed (simp add: failsE_def)

lemma finite_parsers [fails_intros]:
  "finite_failure (parse_api_versions data)" "finite_failure (parse_mechanisms data)" "finite_failure (py_int s)"
  "finite_failure (scram_challenge nonce server)" "finite_failure (scram_proof d a s m)" "finite_failure (scram_verify x y)"
proof -
  show "finite_failure (parse_api_versions data)" unfolding parse_api_versions_def by (intro fails_intros) simp_all
  show "finite_failure (parse_mechanisms data)" unfolding parse_mechanisms_def by (intro fails_intros) simp_all
  show int: "finite_failure (py_int s)" for s unfolding py_int_def Let_def by (intro fails_intros) simp_all
  show "finite_failure (scram_challenge nonce server)"
    unfolding scram_challenge_def challenge_fields_def by (intro fails_intros int) simp_all
  show "finite_failure (scram_proof d a s m)" unfolding scram_proof_def Let_def by (intro fails_intros)
  show "finite_failure (scram_verify x y)" unfolding scram_verify_def by (intro fails_intros) simp_all
qed

lemma ends_guard [ends_intros]: "terminates m \<Longrightarrow> terminates (scram_guard c m)"
proof -
  assume m: "terminates m"
  have "is_error_of c ks x \<or> x \<noteq> Diverged \<Longrightarrow> (if is_error_of c ks x then raised k else x) \<noteq> Diverged" for ks x k by auto
  then show ?thesis
    unfolding scram_guard_def by (intro terminatesI) (auto simp: wp_simps intro!: wp_mono [OF terminates_wp [OF m]])
qed

lemma ends_connection [ends_intros]:
  assumes "env_returns e"
  shows "terminates (conn_request e cn key version body)" "terminates (conn_authenticate e cn token)"
    "terminates (authenticate c e d cn s)" "terminates (probe_connection c e d s deadline)"
proof -
  have tm: "terminates (conn_timeout e cn)" for cn unfolding conn_timeout_def by (intro ends_intros assms) simp
  show req: "terminates (conn_request e cn key version body)" for cn key version body
    unfolding conn_request_def Let_def by (intro ends_intros fails_intros tm assms) simp_all
  show auth: "terminates (conn_authenticate e cn token)" for cn token
    unfolding conn_authenticate_def by (intro ends_intros fails_intros req) simp_all
  have scr: "terminates (scram c e d cn m u p)" for cn m u p
    unfolding scram_def scram_exchange_def Let_def by (intro ends_intros fails_intros auth)
  show au: "terminates (authenticate c e d cn s)" for cn
    unfolding authenticate_def by (intro ends_intros fails_intros req auth scr) simp_all
  show "terminates (probe_connection c e d s deadline)"
    unfolding probe_connection_def by (intro ends_intros fails_intros req au)
qed

lemma ends_probe: "env_returns e \<Longrightarrow> terminates (probe_api_versions c e d s host port deadline)"
  unfolding probe_api_versions_def by (intro ends_intros) simp_all

fun probe_call :: "call \<Rightarrow> bool" where
  "probe_call (SockConnect _ _ _) = True"
| "probe_call (TlsWrap _ _ _) = True"
| "probe_call (SockTimeout _) = True"
| "probe_call (SockSend _) = True"
| "probe_call (SockRecv _) = True"
| "probe_call (TokenUrlsafe _) = True"
| "probe_call c = (c \<in> {Monotonic, TlsClose, SockClose})"

lemma read_loop_calls: "keeps (calls_only probe_call) (conn_read_loop fuel e cn sz chunks)"
proof (induction fuel arbitrary: chunks)
  case 0
  show ?case by (subst conn_read_loop.simps) (auto intro!: keeps_intros)
next
  case (Suc fuel)
  then show ?case by (subst conn_read_loop.simps) (auto simp: conn_timeout_def intro!: keeps_intros)
qed

lemma keeps_guard [keeps_intros]: "keeps (calls_only P) m \<Longrightarrow> keeps (calls_only P) (scram_guard c m)"
  unfolding scram_guard_def by (intro keeps_intros)

lemma connection_calls:
  "keeps (calls_only probe_call) (conn_request e cn key version body)" "keeps (calls_only probe_call) (conn_authenticate e cn token)"
  "keeps (calls_only probe_call) (probe_connection c e d s deadline)"
proof -
  show req: "keeps (calls_only probe_call) (conn_request e cn key version body)" for cn key version body
    unfolding conn_request_def conn_read_def conn_timeout_def Let_def by (intro keeps_intros read_loop_calls; simp)
  show auth: "keeps (calls_only probe_call) (conn_authenticate e cn token)" for cn token
    unfolding conn_authenticate_def by (intro keeps_intros req)
  have scr: "keeps (calls_only probe_call) (scram c e d cn m u p)" for cn m u p
    unfolding scram_def scram_exchange_def Let_def by (intro keeps_intros auth) simp
  show "keeps (calls_only probe_call) (probe_connection c e d s deadline)"
    unfolding probe_connection_def authenticate_def by (intro keeps_intros req auth scr)
qed

definition tls_call :: "settings \<Rightarrow> string \<Rightarrow> call list" where
  "tls_call s host = (if st_tls_mode s \<noteq> ''disabled''
     then [TlsWrap (st_tls_ca_pem s) (tls_identity s) (server_hostname s host)] else [])"

lemma probe_secured_calls:
  assumes "(if st_tls_mode s \<noteq> ''disabled''
      then bindM (command e (TlsWrap (st_tls_ca_pem s) (tls_identity s) (server_hostname s host))) (\<lambda>_.
        alwaysM (probe_connection c e d s deadline) (command e TlsClose))
      else probe_connection c e d s deadline) w = (r, w')"
  shows "\<exists>cs. hist w' = cs @ tls_call s host @ hist w \<and> list_all probe_call cs"
proof (cases "st_tls_mode s \<noteq> ''disabled''")
  case True
  let ?t = "TlsWrap (st_tls_ca_pem s) (tls_identity s) (server_hostname s host)"
  have k: "keeps (calls_only probe_call) (alwaysM (probe_connection c e d s deadline) (command e TlsClose))"
    by (intro keeps_intros connection_calls) simp
  show ?thesis
  proof (cases "e_raises e (?t # hist w)")
    case None
    then have "alwaysM (probe_connection c e d s deadline) (command e TlsClose) (push ?t w) = (r, w')"
      using assms True by (simp add: bindM_def request_def Let_def)
    from keepsD [OF k this] show ?thesis using True by (auto simp: calls_only_def tls_call_def)
  next
    case (Some x)
    then show ?thesis using assms True by (auto simp: bindM_def request_def Let_def tls_call_def)
  qed
next
  case False
  then show ?thesis using assms keepsD [OF connection_calls(3)] by (fastforce simp: calls_only_def tls_call_def)
qed

text \<open>
  C39. The protocol probe of a broker always ends, with the table of ranges or an exception of
  the program, however the peer splits its answers; it uses the network only through its one
  socket, which its last call closes; and unless TLS is disabled, the first thing that happens
  on the socket is the TLS handshake with the expected server name: nothing, in particular no
  credential, is sent before it.
\<close>

theorem probe_confined:
  assumes "env_returns e" and "probe_api_versions c e d s host port deadline w = (r, w')"
  shows "r \<noteq> Inl Diverged \<and> calls_only probe_call w w'
    \<and> (hist w' = Monotonic # hist w \<or> (\<exists>t. hist w' = SockConnect host port t # Monotonic # hist w)
      \<or> (\<exists>cs t. hist w' = SockClose # cs @ tls_call s host @ SockConnect host port t # Monotonic # hist w))"
proof -
  let ?m = "if st_tls_mode s \<noteq> ''disabled''
      then bindM (command e (TlsWrap (st_tls_ca_pem s) (tls_identity s) (server_hostname s host))) (\<lambda>_.
        alwaysM (probe_connection c e d s deadline) (command e TlsClose))
      else probe_connection c e d s deadline"
  let ?t = "deadline - e_monotonic e (Monotonic # hist w)"
  let ?v = "push (SockConnect host port ?t) (push Monotonic w)"
  have "terminates (probe_api_versions c e d s host port deadline :: (exc, 'a world_scheme, api_versions) op)"
    by (rule ends_probe [OF assms(1)])
  then have fin: "r \<noteq> Inl Diverged" using assms(2) unfolding terminates_def by (metis fst_conv)
  have "keeps (calls_only probe_call) (probe_api_versions c e d s host port deadline)"
    unfolding probe_api_versions_def by (intro keeps_intros connection_calls; simp)
  from keepsD [OF this assms(2)] have calls: "calls_only probe_call w w'" .
  consider "w' = push Monotonic w" | "w' = ?v" | "alwaysM ?m (command e SockClose) ?v = (r, w')"
    using assms(2) by (auto simp: probe_api_versions_def bindM_def monotonic_def ask_def Let_def throwM_def request_def
        split: if_splits option.splits)
  then show ?thesis
  proof cases
    case 3
    obtain q u where q: "?m ?v = (q, u)" by force
    have "q \<noteq> Inl Diverged" using 3 q fin by (auto simp: alwaysM_def)
    then have "hist w' = SockClose # hist u"
      using 3 q by (cases q) (auto simp: alwaysM_def request_def Let_def split: option.splits exc.splits)
    then show ?thesis using probe_secured_calls [OF q] fin calls by auto
  qed (use fin calls in auto)
qed

section \<open>SCRAM authenticates the server\<close>

lemma scram_challenge_Inr:
  assumes "scram_challenge nonce server = Inr (r, salt, iterations)"
  shows "starts_with nonce r \<and> r \<noteq> nonce \<and> 4096 \<le> iterations \<and> iterations \<le> 1000000"
  using assms by (auto simp: scram_challenge_def split: if_splits)

lemma scram_verify_Inr: "scram_verify expected reply = Inr () \<longleftrightarrow> starts_with ''v='' reply \<and> b64decode std_alt (drop 2 reply) = Some expected"
  by (auto simp: scram_verify_def b64_strict_def split: option.splits)

lemma bind_pair_Inr:
  assumes "bindM m (\<lambda>(a, b). f a b) s = (Inr y, t)"
  obtains a b u where "m s = (Inr (a, b), u)" and "f a b u = (Inr y, t)"
  using assms by (auto simp: bindM_Inr)

lemma bind_ask: "bindM (ask q f) g w = g (f (q # hist w)) (push q w)"
  by (simp add: bindM_def ask_def Let_def)

lemma scram_exchange_Inr:
  fixes w :: "'w world_scheme"
  assumes "scram_exchange e d cn algorithm password nonce first server w = (Inr cn', w')"
  shows "\<exists>r salt iterations token reply w1. scram_challenge nonce server = Inr (r, salt, iterations)
    \<and> starts_with nonce r \<and> r \<noteq> nonce \<and> 4096 \<le> iterations \<and> iterations \<le> 1000000
    \<and> conn_authenticate e cn token w = (Inr (reply, cn'), w1) \<and> starts_with ''v='' reply
    \<and> b64decode std_alt (drop 2 reply) = Some (sd_hmac d algorithm
        (sd_hmac d algorithm (sd_pbkdf2 d algorithm password salt iterations) ''Server Key'')
        (first @ '','' @ server @ '','' @ ''c=biws,r='' @ r))"
proof (cases "scram_challenge nonce server")
  case (Inl x)
  then show ?thesis using assms by (simp add: scram_exchange_def bind_lift throwM_def)
next
  case (Inr ch)
  obtain r salt iterations where ch: "ch = (r, salt, iterations)" by (cases ch)
  let ?message = "first @ '','' @ server @ '','' @ ''c=biws,r='' @ r"
  let ?salted = "scram_salted d algorithm password salt iterations"
  obtain proof' where "bindM (conn_authenticate e cn ((''c=biws,r='' @ r) @ '',p='' @ b64encode std_alt proof')) (\<lambda>(reply, cn').
      bindM (liftE (scram_verify (scram_expected d algorithm ?salted ?message) reply)) (\<lambda>_. retM cn')) w = (Inr cn', w')"
    using assms Inr ch unfolding scram_exchange_def bind_lift Let_def
    by (cases "scram_proof d algorithm ?salted ?message") (simp_all only: sum.case prod.case throwM_def prod.inject sum.distinct simp_thms)
  then obtain token reply cn2 w1 where a: "conn_authenticate e cn token w = (Inr (reply, cn2), w1)"
    and v: "bindM (liftE (scram_verify (scram_expected d algorithm ?salted ?message) reply)) (\<lambda>_. retM cn2) w1 = (Inr cn', w')"
    by (elim bind_pair_Inr) (rule that)
  have ok: "scram_verify (scram_expected d algorithm ?salted ?message) reply = Inr ()" and "cn2 = cn'"
    using v unfolding bind_lift by (auto simp: throwM_def retM_def split: sum.splits)
  then show ?thesis
    using a scram_challenge_Inr [OF Inr [unfolded ch]] Inr ch ok
    unfolding scram_verify_Inr scram_expected_def scram_salted_def by blast
qed

text \<open>
  C18. SCRAM authenticates the server too: the exchange succeeds only if the server extended the
  client's fresh nonce, asked for 4096 to a million iterations, and answered the client's proof
  with the signature over the whole exchange that only a holder of the salted password's server
  key can make.
\<close>

theorem scram_authenticates_server:
  fixes w :: "'w world_scheme"
  assumes "scram c e d cn mechanism username password w = (Inr cn', w')"
  shows "\<exists>nonce server r salt iterations algorithm first token reply cn1 (u :: 'w world_scheme) u'.
    nonce = e_text e (TokenUrlsafe 24 # hist w) \<and> scram_challenge nonce server = Inr (r, salt, iterations)
    \<and> starts_with nonce r \<and> r \<noteq> nonce \<and> 4096 \<le> iterations \<and> iterations \<le> 1000000
    \<and> algorithm = (if mechanism = ''SCRAM-SHA-256'' then ''sha256'' else ''sha512'')
    \<and> conn_authenticate e cn1 token u = (Inr (reply, cn'), u') \<and> starts_with ''v='' reply
    \<and> b64decode std_alt (drop 2 reply) = Some (sd_hmac d algorithm
        (sd_hmac d algorithm (sd_pbkdf2 d algorithm password salt iterations) ''Server Key'')
        (first @ '','' @ server @ '','' @ ''c=biws,r='' @ r))"
proof -
  let ?alg = "if mechanism = ''SCRAM-SHA-256'' then ''sha256'' else ''sha512''"
  let ?nonce = "e_text e (TokenUrlsafe 24 # hist w)"
  let ?first = "''n='' @ replace_char CHR '','' ''=2C'' (replace_char CHR ''='' ''=3D'' username) @ '',r='' @ ?nonce"
  from assms obtain v raw cn1 where
    "bindM (liftE (utf8_text raw)) (\<lambda>server. scram_guard c (scram_exchange e d cn1 ?alg password ?nonce ?first server)) v = (Inr cn', w')"
    unfolding scram_def Let_def bind_ask by (elim bind_pair_Inr) (rule that)
  then obtain server where "scram_guard c (scram_exchange e d cn1 ?alg password ?nonce ?first server) v = (Inr cn', w')"
    unfolding bind_lift by (cases "utf8_text raw") (simp_all add: throwM_def)
  then have "scram_exchange e d cn1 ?alg password ?nonce ?first server v = (Inr cn', w')"
    unfolding scram_guard_def catchM_def by (cases "scram_exchange e d cn1 ?alg password ?nonce ?first server v" rule: prod.exhaust)
      (simp add: throwM_def split: sum.splits)
  from scram_exchange_Inr [OF this] show ?thesis by blast
qed

section \<open>Witnesses\<close>

theorem api_negotiation_witness:
  "case validate_api_versions [(0, 3, 12)] False of Inr _ \<Rightarrow> False | Inl x \<Rightarrow> \<exists>key. x = api_missing key"
proof -
  have "isl (validate_api_versions [(0, 3, 12)] False)" by code_simp
  then obtain x where x: "validate_api_versions [(0, 3, 12)] False = Inl x" by (auto simp: isl_def)
  then show ?thesis using api_negotiation [of False "[(0, 3, 12)]"] by (auto split: prod.splits)
qed

text \<open>
  A broker that answers a SCRAM exchange: each frame is read as its four bytes of length and
  then its body.
\<close>

definition sample_frame :: "nat \<Rightarrow> string \<Rightarrow> string list" where
  "sample_frame correlation body =
     (let data = be_bytes 4 (int correlation) @ body in [be_bytes 4 (int (length data)), data])"

definition sample_reply :: "string \<Rightarrow> string" where
  "sample_reply response = be_bytes 2 0 @ be_bytes 2 65535 @ be_bytes 4 (int (length response)) @ response"

definition received :: "history \<Rightarrow> nat" where
  "received h = length (filter (\<lambda>q. case q of SockRecv _ \<Rightarrow> True | _ \<Rightarrow> False) h)"

definition broker_env :: "string list \<Rightarrow> env" where
  "broker_env answers = quiet_env\<lparr>e_text := (\<lambda>h. ''n''), e_monotonic := (\<lambda>h. 0), e_raises := (\<lambda>h. None),
     e_bytes := (\<lambda>h. answers ! (received h - 1))\<rparr>"

definition scram_env :: env where
  "scram_env = broker_env (sample_frame 1 (sample_reply ''r=nx,s=AA==,i=4096'') @ sample_frame 2 (sample_reply ''v=aw==''))"

definition sample_scram_digests :: scram_digests where
  "sample_scram_digests = \<lparr>sd_pbkdf2 = (\<lambda>_ _ _ _. ''p''), sd_hmac = (\<lambda>_ _ _. ''k''), sd_hash = (\<lambda>_ _. ''h'')\<rparr>"

definition sample_connection :: connection where
  "sample_connection = \<lparr>cn_deadline = 10, cn_correlation = 0\<rparr>"

lemma sample_scram: "\<not> isl (fst (scram sample_core scram_env sample_scram_digests sample_connection ''SCRAM-SHA-256'' ''u'' ''p'' sample_world))"
  by code_simp

theorem scram_authenticates_server_witness:
  "\<exists>server r salt iterations. scram_challenge ''n'' server = Inr (r, salt, iterations) \<and> r \<noteq> ''n'' \<and> 4096 \<le> iterations"
proof -
  obtain cn w where run: "scram sample_core scram_env sample_scram_digests sample_connection ''SCRAM-SHA-256'' ''u'' ''p'' sample_world = (Inr cn, w)"
    using sample_scram by (metis isl_def prod.collapse sum.exhaust_sel)
  have "e_text scram_env = (\<lambda>h. ''n'')" by (simp add: scram_env_def broker_env_def)
  then show ?thesis using scram_authenticates_server [OF run] by metis
qed

definition probe_settings :: settings where
  "probe_settings = sample_settings\<lparr>st_tls_mode := ''disabled'', st_sasl_mechanism := None\<rparr>"

definition probe_env :: env where
  "probe_env = broker_env (sample_frame 1 (be_bytes 2 0 @ be_bytes 4 1 @ be_bytes 2 18 @ be_bytes 2 0 @ be_bytes 2 4))"

lemma sample_probe: "fst (probe_api_versions sample_core probe_env sample_scram_digests probe_settings ''h'' 9092 10 sample_world) = Inr [(18, 0, 4)]"
  by code_simp

theorem probe_confined_witness:
  "\<exists>w' cs t. probe_api_versions sample_core probe_env sample_scram_digests probe_settings ''h'' 9092 10 sample_world = (Inr [(18, 0, 4)], w')
    \<and> calls_only probe_call sample_world w' \<and> hist w' = SockClose # cs @ [SockConnect ''h'' 9092 t, Monotonic]"
proof -
  let ?run = "probe_api_versions sample_core probe_env sample_scram_digests probe_settings ''h'' 9092 10 sample_world"
  obtain w' where run: "?run = (Inr [(18, 0, 4)], w')" using sample_probe by (metis prod.collapse)
  have n: "2 < length (hist (snd ?run))" by code_simp
  have "env_returns probe_env" by (simp add: env_returns_def probe_env_def broker_env_def)
  from probe_confined [OF this run] n run show ?thesis
    by (auto simp: tls_call_def probe_settings_def sample_world_def)
qed

end
