(* ===== verification/Probe.thy ===== *)
theory Probe
  imports Descriptor Protocol Transactions
begin

text \<open>
  \<^verbatim>\<open>probe/__init__.py\<close>: the authenticated metadata probe and the read-only verification of the
  planned physical resources; and the \<open>api_versions\<close> method of \<^verbatim>\<open>clients.py\<close>'s factory, through
  which the probe reaches the protocol. Installed versions, the version of librdkafka, the
  requirements and descriptor fingerprint of Streaming and the fingerprint Core computes of a
  manifest come as the parameter \<open>spi\<close>; Core's result classes are records of what is given to
  them.
\<close>

section \<open>Results\<close>

record manifest =
  mf_descriptor :: adapter_descriptor
  mf_engine_profile :: string
  mf_engine_version :: string
  mf_available :: "string list"
  mf_extensions :: "(string, string) dict"

record adapter_probe =
  ap_manifest :: manifest
  ap_evidence :: "(string, string) dict"

record physical_verification =
  pv_fingerprint :: string
  pv_mappings :: "(string, string) dict"
  pv_evidence :: "(string, string) dict"

record planned_resource =
  pl_ref :: ref
  pl_fingerprint :: string
  pl_schema_fingerprint :: "string option"

record spi =
  sp_version :: "string \<Rightarrow> string"
  sp_libversion :: string
  sp_requirements :: "requirement list"
  sp_streaming_fingerprint :: string
  sp_manifest_fingerprint :: "manifest \<Rightarrow> string"

section \<open>The probe\<close>

abbreviation probe_contract :: string where
  "probe_contract \<equiv> ''meridian.kafka.probe''"

definition factory_api_versions :: "ctx \<Rightarrow> scram_digests \<Rightarrow> string \<Rightarrow> int \<Rightarrow> rat \<Rightarrow> (exc, 'w world_scheme, api_versions) op" where
  "factory_api_versions g d host port deadline =
     probe_api_versions (g_core g) (g_env g) d (g_settings g) host port deadline"

type_synonym negotiated = "(string, (string, int) dict) dict"

fun negotiate_brokers :: "ctx \<Rightarrow> scram_digests \<Rightarrow> rat \<Rightarrow> (int \<times> broker) list \<Rightarrow> negotiated \<Rightarrow>
    (exc, 'w world_scheme, negotiated) op" where
  "negotiate_brokers g d deadline [] negotiated = retM negotiated"
| "negotiate_brokers g d deadline ((broker_id, b) # brokers) negotiated =
     (case (br_host b, br_port b) of
        (Some host, Some port) \<Rightarrow>
          if \<not> (1 \<le> port \<and> port \<le> 65535) then throwM bad_probe
          else bindM (factory_api_versions g d host port deadline) (\<lambda>versions.
            bindM (liftE (validate_api_versions versions (transaction_enabled (g_settings g)))) (\<lambda>selected.
            negotiate_brokers g d deadline brokers (dset (str_int broker_id) selected negotiated)))
      | _ \<Rightarrow> throwM bad_probe)"

definition cluster_fingerprint :: "digests \<Rightarrow> string option \<Rightarrow> string" where
  "cluster_fingerprint d cluster_id = (case cluster_id of
     None \<Rightarrow> ''unavailable'' | Some i \<Rightarrow> if i = [] then ''unavailable'' else sha256_bytes d i)"

text \<open>The body of the \<open>try\<close>: the number of brokers, the cluster's fingerprint, the versions.\<close>

definition probe_cluster :: "ctx \<Rightarrow> scram_digests \<Rightarrow> client \<Rightarrow> rat \<Rightarrow> (exc, 'w world_scheme, nat \<times> string \<times> negotiated) op" where
  "probe_cluster g d admin deadline =
     bindM (request (g_env g) (AdminListTopics admin None (of_int (st_operation_timeout_ms (g_settings g)) / 1000))
       (e_admin (g_env g))) (\<lambda>metadata.
     case am_brokers metadata of
       None \<Rightarrow> throwM bad_probe
     | Some brokers \<Rightarrow>
         if brokers = [] then throwM bad_probe
         else case am_controller metadata of
           None \<Rightarrow> throwM bad_probe
         | Some controller_id \<Rightarrow>
             if controller_id < 0 then throwM bad_probe
             else bindM (negotiate_brokers g d deadline (sorted_items brokers) []) (\<lambda>negotiated.
               retM (length brokers, cluster_fingerprint (g_digests g) (am_cluster_id metadata), negotiated)))"

definition security_profile :: "settings \<Rightarrow> string" where
  "security_profile s = (if st_allow_plaintext_for_testing s then ''isolated-plaintext-test'' else ''authenticated-tls'')"

definition available_contracts :: "settings \<Rightarrow> adapter_descriptor \<Rightarrow> string list" where
  "available_contracts s descriptor = (let available = map oc_operation_contract (ad_capabilities descriptor) in
     if \<not> transaction_enabled s
     then filter (\<lambda>item. item \<notin> set [CORE_TRANSACTION_CONTRACT, TRANSACTION_OPERATION_CONTRACT]) available
     else available)"

definition mk_manifest :: "ctx \<Rightarrow> spi \<Rightarrow> manifest" where
  "mk_manifest g p = (let s = g_settings g; descriptor = mk_adapter_descriptor (g_core g) (sp_requirements p) in
     \<lparr>mf_descriptor = descriptor, mf_engine_profile = st_engine_profile s, mf_engine_version = st_engine_version s,
      mf_available = available_contracts s descriptor,
      mf_extensions =
        [(''clientVersion'', sp_version p ''confluent-kafka''), (''coreVersion'', ''1.0.0''),
         (''coreDistributionVersion'', sp_version p ''meridian-storage-core''),
         (''semanticsVersion'', sp_version p ''meridian-storage-semantics''),
         (''streamingVersion'', sp_version p ''meridian-storage-streaming''),
         (''streamingDescriptorFingerprint'', sp_streaming_fingerprint p),
         (''securityProfile'', security_profile s)]\<rparr>)"

definition negotiated_json :: "negotiated \<Rightarrow> json" where
  "negotiated_json n = JObj (map (\<lambda>(k, versions). (k, JObj (map (\<lambda>(key, v). (key, JInt v)) versions))) n)"

definition probe_evidence :: "ctx \<Rightarrow> spi \<Rightarrow> nat \<Rightarrow> string \<Rightarrow> string \<Rightarrow> (string, string) dict" where
  "probe_evidence g p count fp versions_fp =
     [(''brokerCount'', str_int (int count)), (''controllerPresent'', ''true''), (''clusterFingerprint'', fp),
      (''securityProfile'', security_profile (g_settings g)),
      (''selectedEngineVersion'', st_engine_version (g_settings g)),
      (''observedEngineVersion'', ''unavailable: Kafka ApiVersions carries no release''),
      (''librdkafkaVersion'', sp_libversion p), (''apiVersionsFingerprint'', versions_fp),
      (''protocolValidation'', ''authenticated-api-ranges.v1'')]"

definition probe :: "ctx \<Rightarrow> scram_digests \<Rightarrow> spi \<Rightarrow> client \<Rightarrow> (exc, 'w world_scheme, adapter_probe) op" where
  "probe g d p admin =
     bindM (monotonic (g_env g)) (\<lambda>start.
     bindM (adaptedM (g_attrs g) probe_contract
       (probe_cluster g d admin (start + of_int (st_operation_timeout_ms (g_settings g)) / 1000))) (\<lambda>(count, fp, negotiated).
     let manifest = mk_manifest g p in
     bindM (emit (g_env g) ''meridian.kafka.probe.completed''
       [(''brokerCount'', TInt (int count)), (''controllerPresent'', TBool True),
        (''transactionEnabled'', TBool (transaction_enabled (g_settings g)))]) (\<lambda>_.
     bindM (liftE (sha256_fingerprint (g_digests g) (negotiated_json negotiated))) (\<lambda>versions_fp.
     retM \<lparr>ap_manifest = manifest, ap_evidence = probe_evidence g p count fp versions_fp\<rparr>))))"

section \<open>Physical verification\<close>

fun resource_fingerprint_of :: "physical_resource \<Rightarrow> string" where
  "resource_fingerprint_of (PhysicalStream s) = ps_resource_fingerprint s"
| "resource_fingerprint_of (PhysicalSubscription s) = sub_resource_fingerprint s"
| "resource_fingerprint_of (PhysicalConsumerGroup s) = cg_resource_fingerprint s"

abbreviation migration :: "string \<Rightarrow> exc" where
  "migration requirement \<equiv> raised_for MigrationRequired requirement"

text \<open>The stream behind a configured resource, and what its mapping is fingerprinted from.\<close>

definition physical_mapping :: "digests \<Rightarrow> settings \<Rightarrow> planned_resource \<Rightarrow> physical_resource \<Rightarrow> exc + physical_stream \<times> json" where
  "physical_mapping d s planned configured = (case configured of
     PhysicalStream strm \<Rightarrow>
       if pl_schema_fingerprint planned \<noteq> None \<and> pl_schema_fingerprint planned \<noteq> Some (ps_schema_fingerprint strm)
       then Inl (migration ''schema.migration'')
       else Inr (strm, JObj [(''kind'', JStr ''stream''), (''physicalFingerprint'', JStr (sha256_bytes d (ps_topic strm))),
         (''resourceFingerprint'', JStr (ps_resource_fingerprint strm)),
         (''schemaFingerprint'', JStr (ps_schema_fingerprint strm))])
   | PhysicalSubscription sub \<Rightarrow>
       bindE (stream s (sub_stream sub)) (\<lambda>strm.
       Inr (strm, JObj [(''kind'', JStr ''subscription''), (''physicalFingerprint'', JStr (sha256_bytes d (ps_topic strm))),
         (''resourceFingerprint'', JStr (sub_resource_fingerprint sub))]))
   | PhysicalConsumerGroup cgr \<Rightarrow>
       bindE (subscription s (cg_subscription cgr)) (\<lambda>sub.
       bindE (stream s (sub_stream sub)) (\<lambda>strm.
       bindE (sha256_fingerprint d (JObj [(''topic'', JStr (sha256_bytes d (ps_topic strm))),
         (''group'', JStr (sha256_bytes d (cg_group_id cgr)))])) (\<lambda>fp.
       Inr (strm, JObj [(''kind'', JStr ''consumer-group''), (''physicalFingerprint'', JStr fp),
         (''resourceFingerprint'', JStr (cg_resource_fingerprint cgr))])))))"

type_synonym verification_plan = "(string, string) dict \<times> (string, physical_stream) dict"

definition plan_resource :: "ctx \<Rightarrow> planned_resource \<Rightarrow> verification_plan \<Rightarrow> exc + verification_plan" where
  "plan_resource g planned = (\<lambda>(mappings, topics).
     bindE (resource (g_settings g) (pl_ref planned)) (\<lambda>configured.
     if pl_fingerprint planned \<noteq> resource_fingerprint_of configured then Inl (migration ''resource.migration'')
     else bindE (physical_mapping (g_digests g) (g_settings g) planned configured) (\<lambda>(strm, physical).
       bindE (sha256_fingerprint (g_digests g) physical) (\<lambda>fp.
       Inr (dset (ref_str (g_core g) (pl_ref planned)) fp mappings, dset (ps_topic strm) strm topics)))))"

text \<open>\<open>"compact" in {item.strip() for item in cleanup.split(",")}\<close>\<close>

definition compacts :: "string \<Rightarrow> bool" where
  "compacts cleanup \<longleftrightarrow> ''compact'' \<in> set (map strip (split_on CHR '','' cleanup))"

definition check_topic_metadata :: "ctx \<Rightarrow> string \<Rightarrow> physical_stream \<Rightarrow> cluster_metadata \<Rightarrow> exc + unit" where
  "check_topic_metadata g topic strm metadata = (case metadata of
     None \<Rightarrow> Inl (migration ''resource.provisioning'')
   | Some topics \<Rightarrow> (case map_of topics topic of
       None \<Rightarrow> Inl (migration ''resource.provisioning'')
     | Some selected \<Rightarrow> (case tm_error selected of
         Some error \<Rightarrow> Inl (normalize_kafka_error (g_attrs g) (KafkaErrorValue error) (Some probe_contract))
       | None \<Rightarrow> (case tm_partitions selected of
           None \<Rightarrow> Inl (migration ''resource.partition-migration'')
         | Some parts \<Rightarrow>
             if int (length parts) \<noteq> ps_logical_partitions strm then Inl (migration ''resource.partition-migration'')
             else Inr ()))))"

definition check_topic_config :: "physical_stream \<Rightarrow> (string, string option) dict option \<Rightarrow> exc + unit" where
  "check_topic_config strm config = (case config of
     None \<Rightarrow> Inl bad_probe
   | Some entries \<Rightarrow>
       (case (dget entries ''cleanup.policy'' None, dget entries ''retention.ms'' None) of
          (Some cleanup, Some retention) \<Rightarrow>
            if compacts cleanup \<noteq> ps_compacted strm then Inl (migration ''resource.compaction-migration'')
            else bindE (py_int retention) (\<lambda>ms.
              if ms \<noteq> ps_retention_ms strm then Inl (migration ''resource.retention-migration'') else Inr ())
        | _ \<Rightarrow> Inl bad_probe))"

definition verify_topic :: "ctx \<Rightarrow> client \<Rightarrow> string \<Rightarrow> physical_stream \<Rightarrow> (exc, 'w world_scheme, unit) op" where
  "verify_topic g admin topic strm = adaptedM (g_attrs g) probe_contract
     (bindM (request (g_env g) (AdminListTopics admin (Some topic) 5) (e_metadata (g_env g))) (\<lambda>metadata.
      bindM (liftE (check_topic_metadata g topic strm metadata)) (\<lambda>_.
      bindM (request (g_env g) (DescribeConfigs admin topic) (e_config (g_env g))) (\<lambda>config.
      liftE (check_topic_config strm config)))))"

definition verification_json :: "settings \<Rightarrow> verification_plan \<Rightarrow> json" where
  "verification_json s = (\<lambda>(mappings, topics). JObj
     [(''bindingId'', JStr (st_binding_id s)), (''engineProfile'', JStr (st_engine_profile s)),
      (''engineVersion'', JStr (st_engine_version s)), (''mappings'', JObj (map (\<lambda>(k, v). (k, JStr v)) mappings)),
      (''topicCount'', JInt (int (length topics)))])"

definition report_verification :: "ctx \<Rightarrow> nat \<Rightarrow> verification_plan \<Rightarrow> (exc, 'w world_scheme, physical_verification) op" where
  "report_verification g count plan =
     bindM (liftE (sha256_fingerprint (g_digests g) (verification_json (g_settings g) plan))) (\<lambda>fp.
     bindM (emit (g_env g) ''meridian.kafka.physical-verification.completed''
       [(''resourceCount'', TInt (int count)), (''physicalResourceCount'', TInt (int (length (snd plan))))]) (\<lambda>_.
     retM \<lparr>pv_fingerprint = fp, pv_mappings = fst plan,
       pv_evidence = [(''verifiedResourceCount'', str_int (int count)),
         (''verifiedTopicCount'', str_int (int (length (snd plan))))]\<rparr>))"

definition verify_physical :: "ctx \<Rightarrow> client \<Rightarrow> planned_resource list \<Rightarrow> (exc, 'w world_scheme, physical_verification) op" where
  "verify_physical g admin resources =
     bindM (liftE (foldE (plan_resource g) resources ([], []))) (\<lambda>plan.
     bindM (forM (sorted_items (snd plan)) (\<lambda>(topic, strm). verify_topic g admin topic strm)) (\<lambda>_.
     report_verification g (length resources) plan))"

section \<open>What the probe calls\<close>

fun admin_call :: "call \<Rightarrow> bool" where
  "admin_call (AdminListTopics _ _ _) = True"
| "admin_call (DescribeConfigs _ _) = True"
| "admin_call (SinkEmit _) = True"
| "admin_call UtcNow = True"
| "admin_call _ = False"

lemma verify_topic_calls [keeps_intros]: "keeps (calls_only admin_call) (verify_topic g admin topic strm)"
  unfolding verify_topic_def by (intro keeps_intros) simp_all

lemma report_verification_calls [keeps_intros]: "keeps (calls_only admin_call) (report_verification g n plan)"
  unfolding report_verification_def by (intro keeps_intros) simp_all

lemma verify_physical_calls: "keeps (calls_only admin_call) (verify_physical g admin resources)"
  unfolding verify_physical_def by (intro keeps_intros)

section \<open>A verified topic\<close>

text \<open>
  Between two moments the environment was asked for the topic's metadata and configuration, and
  what it answered agrees with the stream.
\<close>

definition asked :: "history \<Rightarrow> 'w world_scheme \<Rightarrow> 'w world_scheme \<Rightarrow> bool" where
  "asked h w w' \<longleftrightarrow> (\<exists>before after. h = before @ hist w \<and> hist w' = after @ h)"

definition topic_agrees :: "ctx \<Rightarrow> client \<Rightarrow> physical_stream \<Rightarrow> 'w world_scheme \<Rightarrow> 'w world_scheme \<Rightarrow> bool" where
  "topic_agrees g admin strm w w' \<longleftrightarrow>
     (\<exists>h topics tm parts. asked (AdminListTopics admin (Some (ps_topic strm)) 5 # h) w w'
        \<and> e_metadata (g_env g) (AdminListTopics admin (Some (ps_topic strm)) 5 # h) = Some topics
        \<and> map_of topics (ps_topic strm) = Some tm \<and> tm_error tm = None \<and> tm_partitions tm = Some parts
        \<and> int (length parts) = ps_logical_partitions strm)
     \<and> (\<exists>h entries cleanup retention. asked (DescribeConfigs admin (ps_topic strm) # h) w w'
        \<and> e_config (g_env g) (DescribeConfigs admin (ps_topic strm) # h) = Some entries
        \<and> map_of entries ''cleanup.policy'' = Some (Some cleanup) \<and> map_of entries ''retention.ms'' = Some (Some retention)
        \<and> compacts cleanup = ps_compacted strm \<and> py_int retention = Inr (ps_retention_ms strm))"

lemma asked_mono: "asked h u v \<Longrightarrow> calls_only P w u \<Longrightarrow> calls_only P v w' \<Longrightarrow> asked h w w'"
  by (auto simp: asked_def calls_only_def)

lemma topic_agrees_mono:
  assumes "topic_agrees g admin strm u v" and "calls_only P w u" and "calls_only P v w'"
  shows "topic_agrees g admin strm w w'"
  using assms(1) asked_mono [OF _ assms(2,3)] unfolding topic_agrees_def by blast

lemma check_topic_metadata_Inr:
  "check_topic_metadata g topic strm md = Inr () \<longleftrightarrow> (\<exists>topics tm parts. md = Some topics \<and> map_of topics topic = Some tm
     \<and> tm_error tm = None \<and> tm_partitions tm = Some parts \<and> int (length parts) = ps_logical_partitions strm)"
  by (auto simp: check_topic_metadata_def split: option.splits if_splits)

lemma check_topic_config_Inr:
  "check_topic_config strm config = Inr () \<longleftrightarrow> (\<exists>entries cleanup retention. config = Some entries
     \<and> map_of entries ''cleanup.policy'' = Some (Some cleanup) \<and> map_of entries ''retention.ms'' = Some (Some retention)
     \<and> compacts cleanup = ps_compacted strm \<and> py_int retention = Inr (ps_retention_ms strm))"
  by (auto simp: check_topic_config_def dget_def split: option.splits if_splits)

lemma adapted_Inr: "adaptedM a contract m w = (Inr x, w') \<longleftrightarrow> m w = (Inr x, w')"
  by (auto simp: adaptedM_def exceptM_def catchM_def throwM_def split: prod.splits sum.splits if_splits)

lemma verify_topic_Inr:
  fixes w :: "'w world_scheme"
  assumes "verify_topic g admin (ps_topic strm) strm w = (Inr (), w')"
  shows "topic_agrees g admin strm w w'"
proof -
  let ?c = "AdminListTopics admin (Some (ps_topic strm)) 5" and ?d = "DescribeConfigs admin (ps_topic strm)"
  have md: "check_topic_metadata g (ps_topic strm) strm (e_metadata (g_env g) (?c # hist w)) = Inr ()"
    and cf: "check_topic_config strm (e_config (g_env g) (?d # ?c # hist w)) = Inr ()" and w': "w' = push ?d (push ?c w)"
    using assms unfolding verify_topic_def adapted_Inr
    by (auto simp: bindM_def request_def liftE_def Let_def split: option.splits sum.splits)
  have "asked (?c # hist w) w w'" "asked (?d # ?c # hist w) w w'"
    unfolding asked_def w' by (intro exI [of _ "[?c]"] exI [of _ "[?d]"], simp) (intro exI [of _ "[?d, ?c]"] exI [of _ "[]"], simp)
  then show ?thesis using md cf unfolding topic_agrees_def check_topic_metadata_Inr check_topic_config_Inr by blast
qed

lemma forM_each:
  assumes "\<And>x. keeps (calls_only P) (f x)" and "forM xs f w = (Inr (), w')" and "x \<in> set xs"
  shows "\<exists>u v. calls_only P w u \<and> f x u = (Inr (), v) \<and> calls_only P v w'"
  using assms(2,3)
proof (induction xs arbitrary: w)
  case (Cons y ys)
  then obtain u where u: "f y w = (Inr (), u)" "forM ys f u = (Inr (), w')" by (auto simp: bindM_Inr)
  have rest: "calls_only P u w'"
    by (rule keepsD [where m = "forM ys f", OF _ u(2)]) (intro keeps_intros assms(1))
  show ?case
  proof (cases "x = y")
    case True
    then show ?thesis using u rest calls.rel_refl by blast
  next
    case False
    then show ?thesis using Cons.IH [OF u(2)] Cons.prems(2) keepsD [OF assms(1) u(1)] calls.rel_trans by (metis set_ConsD)
  qed
qed simp

section \<open>The plan of a verification\<close>

lemma topics_of_Cons: "topics_of ((k, p) # r) = (case topic_of p of None \<Rightarrow> [] | Some t \<Rightarrow> [t]) @ topics_of r"
  by (simp add: topics_of_def List.map_filter_def split: option.splits)

lemma topics_of_mem: "map_of r k = Some (PhysicalStream x) \<Longrightarrow> ps_topic x \<in> set (topics_of r)"
  by (induction r) (auto simp: topics_of_Cons split: if_splits)

lemma topic_unique:
  assumes "distinct (topics_of r)" and "map_of r a = Some (PhysicalStream x)" and "map_of r b = Some (PhysicalStream y)"
    and "ps_topic x = ps_topic y"
  shows "x = y"
  using assms
proof (induction r)
  case (Cons e r)
  then show ?case by (cases e) (auto simp: topics_of_Cons split: if_splits dest: topics_of_mem)
qed simp

text \<open>The stream a configured resource is kept in.\<close>

definition backing :: "settings \<Rightarrow> physical_resource \<Rightarrow> exc + physical_stream" where
  "backing s configured = (case configured of
     PhysicalStream strm \<Rightarrow> Inr strm
   | PhysicalSubscription sub \<Rightarrow> stream s (sub_stream sub)
   | PhysicalConsumerGroup cgr \<Rightarrow> bindE (subscription s (cg_subscription cgr)) (\<lambda>sub. stream s (sub_stream sub)))"

definition planned_ok :: "settings \<Rightarrow> planned_resource \<Rightarrow> physical_stream \<Rightarrow> bool" where
  "planned_ok s planned strm \<longleftrightarrow> (\<exists>configured. map_of (st_resources s) (pl_ref planned) = Some configured
     \<and> resource_fingerprint_of configured = pl_fingerprint planned \<and> backing s configured = Inr strm
     \<and> (is_stream configured \<longrightarrow> pl_schema_fingerprint planned \<in> {None, Some (ps_schema_fingerprint strm)}))"

lemma stream_Inr: "stream s r = Inr strm \<longleftrightarrow> map_of (st_resources s) r = Some (PhysicalStream strm)"
  by (auto simp: stream_def resource_def split: option.splits physical_resource.splits)

lemma backing_mapped:
  assumes "map_of (st_resources s) k = Some configured" and "backing s configured = Inr strm"
  shows "\<exists>r. map_of (st_resources s) r = Some (PhysicalStream strm)"
  using assms by (cases configured) (auto simp: backing_def stream_Inr)

lemma physical_mapping_backing:
  "physical_mapping d s planned configured = Inr (strm, v) \<Longrightarrow> backing s configured = Inr strm
     \<and> (is_stream configured \<longrightarrow> pl_schema_fingerprint planned \<in> {None, Some (ps_schema_fingerprint strm)})"
  by (cases configured) (auto simp: physical_mapping_def backing_def split: if_splits)

lemma plan_resource_Inr:
  assumes "plan_resource g planned (mappings, topics) = Inr (mappings', topics')"
  shows "\<exists>strm fp. planned_ok (g_settings g) planned strm \<and> topics' = dset (ps_topic strm) strm topics
    \<and> mappings' = dset (ref_str (g_core g) (pl_ref planned)) fp mappings"
  using assms by (auto simp: plan_resource_def planned_ok_def resource_def split: if_splits option.splits
      dest!: physical_mapping_backing)

text \<open>The topics of a plan are configured streams, each under its own name.\<close>

definition plan_ok :: "settings \<Rightarrow> (string, physical_stream) dict \<Rightarrow> bool" where
  "plan_ok s topics \<longleftrightarrow> (\<forall>topic strm. map_of topics topic = Some strm \<longrightarrow>
     ps_topic strm = topic \<and> (\<exists>r. map_of (st_resources s) r = Some (PhysicalStream strm)))"

lemma planned_mapped: "planned_ok s planned strm \<Longrightarrow> \<exists>r. map_of (st_resources s) r = Some (PhysicalStream strm)"
  by (auto simp: planned_ok_def dest: backing_mapped)

lemma plan_fold:
  assumes "foldE (plan_resource g) resources (m0, t0) = Inr (m, t)" and "plan_ok (g_settings g) t0" and "distinct (dkeys t0)"
    and "distinct (topics_of (st_resources (g_settings g)))"
  shows "plan_ok (g_settings g) t \<and> distinct (dkeys t) \<and> (\<forall>topic strm. map_of t0 topic = Some strm \<longrightarrow> map_of t topic = Some strm)
    \<and> (\<forall>planned \<in> set resources. \<exists>strm. planned_ok (g_settings g) planned strm \<and> map_of t (ps_topic strm) = Some strm)"
  using assms(1-3)
proof (induction resources arbitrary: m0 t0)
  case (Cons planned resources)
  then obtain m1 t1 where step: "plan_resource g planned (m0, t0) = Inr (m1, t1)"
    and rest: "foldE (plan_resource g) resources (m1, t1) = Inr (m, t)" by auto
  obtain strm where strm: "planned_ok (g_settings g) planned strm" and t1: "t1 = dset (ps_topic strm) strm t0"
    using plan_resource_Inr [OF step] by blast
  obtain r where r: "map_of (st_resources (g_settings g)) r = Some (PhysicalStream strm)" using planned_mapped [OF strm] by blast
  have same: "map_of t0 (ps_topic strm) \<in> {None, Some strm}"
  proof (cases "map_of t0 (ps_topic strm)")
    case (Some s)
    then have "ps_topic s = ps_topic strm" and "\<exists>q. map_of (st_resources (g_settings g)) q = Some (PhysicalStream s)"
      using Cons.prems(2) by (simp_all add: plan_ok_def)
    then show ?thesis using topic_unique [OF assms(4) _ r] Some by blast
  qed simp
  have ok: "plan_ok (g_settings g) t1" "distinct (dkeys t1)"
    using Cons.prems(2,3) planned_mapped [OF strm] by (auto simp: plan_ok_def t1)
  have keep: "map_of t1 topic = Some s" if "map_of t0 topic = Some s" for topic s
    using that same by (auto simp: t1)
  have "map_of t1 (ps_topic strm) = Some strm" by (simp add: t1)
  with Cons.IH [OF rest ok] keep strm show ?case by auto
qed simp

text \<open>
  C13. Physical verification is read-only and sound: it makes no call but reads of topic metadata
  and configuration and its telemetry, and when it accepts the planned resources of a Binding
  with unique topics, every one is configured with the planned fingerprint (and, for a stream,
  Schema fingerprint), and Kafka itself answered, during this verification, that the topic
  behind it has the configured number of partitions, compaction policy and retention.
\<close>

theorem verify_physical_sound:
  fixes w :: "'w world_scheme"
  assumes "verify_physical g admin resources w = (r, w')" and "distinct (topics_of (st_resources (g_settings g)))"
  shows "calls_only admin_call w w' \<and> (\<forall>v planned. r = Inr v \<and> planned \<in> set resources \<longrightarrow>
    (\<exists>strm. planned_ok (g_settings g) planned strm \<and> topic_agrees g admin strm w w'))"
proof (intro conjI allI impI)
  show "calls_only admin_call w w'" by (rule keepsD [OF verify_physical_calls assms(1)])
  fix v planned
  assume "r = Inr v \<and> planned \<in> set resources"
  then have r: "r = Inr v" and planned: "planned \<in> set resources" by simp_all
  obtain m t where plan: "foldE (plan_resource g) resources ([], []) = Inr (m, t)"
    using assms(1) r
    by (cases "foldE (plan_resource g) resources ([], [])") (auto simp: verify_physical_def bind_lift throwM_def)
  then have "bindM (forM (sorted_items t) (\<lambda>(topic, strm). verify_topic g admin topic strm)) (\<lambda>_.
      report_verification g (length resources) (m, t)) w = (Inr v, w')"
    using assms(1) r unfolding verify_physical_def bind_lift by simp
  then obtain x :: unit and u where "forM (sorted_items t) (\<lambda>(topic, strm). verify_topic g admin topic strm) w = (Inr x, u)"
    and k: "report_verification g (length resources) (m, t) u = (Inr v, w')" unfolding bindM_Inr [of "forM _ _"] by blast
  then have each: "forM (sorted_items t) (\<lambda>(topic, strm). verify_topic g admin topic strm) w = (Inr (), u)" by simp
  have rest: "calls_only admin_call u w'" by (rule keepsD [OF report_verification_calls k])
  have "plan_ok (g_settings g) []" "distinct (dkeys ([] :: (string, physical_stream) dict))" by (simp_all add: plan_ok_def)
  from plan_fold [OF plan this assms(2)] planned obtain strm where strm: "planned_ok (g_settings g) planned strm"
    "map_of t (ps_topic strm) = Some strm" and d: "distinct (dkeys t)" by blast
  from map_of_SomeD [OF strm(2)] have mem: "(ps_topic strm, strm) \<in> set (sorted_items t)" by simp
  have "keeps (calls_only admin_call) (case x of (topic, strm) \<Rightarrow> verify_topic g admin topic strm)" for x
    by (intro keeps_intros)
  from forM_each [OF this each mem] obtain u1 u2 where u1: "calls_only admin_call w u1"
    and "(case (ps_topic strm, strm) of (topic, strm) \<Rightarrow> verify_topic g admin topic strm) u1 = (Inr (), u2)"
    and u2': "calls_only admin_call u2 u" by blast
  then have u2: "verify_topic g admin (ps_topic strm) strm u1 = (Inr (), u2)" "calls_only admin_call u2 u" by simp_all
  have "topic_agrees g admin strm w w'"
    by (rule topic_agrees_mono [OF verify_topic_Inr [OF u2(1)] u1 calls.rel_trans [OF u2(2) rest]])
  then show "\<exists>strm. planned_ok (g_settings g) planned strm \<and> topic_agrees g admin strm w w'" using strm by blast
qed

section \<open>The probe of a cluster\<close>

definition cluster_call :: "call \<Rightarrow> bool" where
  "cluster_call c \<longleftrightarrow> admin_call c \<or> probe_call c"

lemma factory_calls [keeps_intros]: "keeps (calls_only cluster_call) (factory_api_versions g d host port deadline)"
proof -
  have "keeps (calls_only probe_call) (factory_api_versions g d host port deadline)"
    unfolding factory_api_versions_def probe_api_versions_def by (intro keeps_intros connection_calls; simp)
  then show ?thesis by (rule keeps_calls_mono) (simp add: cluster_call_def)
qed

lemma negotiate_calls [keeps_intros]: "keeps (calls_only cluster_call) (negotiate_brokers g d deadline brokers n)"
proof (induction brokers arbitrary: n)
  case (Cons e brokers)
  then show ?case by (cases e) (auto intro!: keeps_intros)
qed (auto intro!: keeps_intros)

lemma probe_calls [keeps_intros]: "keeps (calls_only cluster_call) (probe g d p admin)"
  unfolding probe_def probe_cluster_def by (intro keeps_intros) (simp_all add: cluster_call_def)

lemma finite_versions [fails_intros]: "finite_failure (validate_api_versions versions b)"
  unfolding validate_api_versions_def
  by (intro fails_intros) (auto simp: validate_api_def api_missing_def failsE_def split: prod.splits option.splits if_splits)

lemma ends_negotiate [ends_intros]:
  "env_returns (g_env g) \<Longrightarrow> terminates (negotiate_brokers g d deadline brokers n)"
proof (induction brokers arbitrary: n)
  case (Cons e brokers)
  then show ?case by (cases e) (auto intro!: ends_intros fails_intros ends_probe simp: factory_api_versions_def)
qed (auto intro!: ends_intros)

lemma probe_ends [ends_intros]: "env_returns (g_env g) \<Longrightarrow> terminates (probe g d p admin)"
  unfolding probe_def probe_cluster_def by (intro ends_intros fails_intros) simp_all

text \<open>A broker whose endpoint was probed in between, with versions the adapter can work with.\<close>

definition broker_negotiated :: "ctx \<Rightarrow> scram_digests \<Rightarrow> rat \<Rightarrow> broker \<Rightarrow> 'w world_scheme \<Rightarrow> 'w world_scheme \<Rightarrow> bool" where
  "broker_negotiated g d deadline b w w' \<longleftrightarrow>
     (\<exists>host port versions selected (u :: 'w world_scheme) v. br_host b = Some host \<and> br_port b = Some port \<and> 1 \<le> port \<and> port \<le> 65535
        \<and> calls_only cluster_call w u \<and> calls_only cluster_call v w'
        \<and> probe_api_versions (g_core g) (g_env g) d (g_settings g) host port deadline u = (Inr versions, v)
        \<and> validate_api_versions versions (transaction_enabled (g_settings g)) = Inr selected)"

lemma broker_negotiated_mono:
  "broker_negotiated g d deadline b u v \<Longrightarrow> calls_only cluster_call w u \<Longrightarrow> calls_only cluster_call v w' \<Longrightarrow>
   broker_negotiated g d deadline b w w'"
  unfolding broker_negotiated_def by (blast intro: calls.rel_trans)

lemma negotiate_each:
  fixes w :: "'w world_scheme"
  assumes "negotiate_brokers g d deadline brokers n w = (Inr n', w')"
  shows "\<forall>(i, b) \<in> set brokers. broker_negotiated g d deadline b w w'"
  using assms
proof (induction brokers arbitrary: n w)
  case (Cons e brokers)
  obtain i b where e: "e = (i, b)" by (cases e)
  from Cons.prems obtain host port where b: "br_host b = Some host" "br_port b = Some port" "1 \<le> port" "port \<le> 65535"
    and run: "bindM (factory_api_versions g d host port deadline) (\<lambda>versions.
      bindM (liftE (validate_api_versions versions (transaction_enabled (g_settings g)))) (\<lambda>selected.
      negotiate_brokers g d deadline brokers (dset (str_int i) selected n))) w = (Inr n', w')"
    unfolding e by (auto simp: throwM_def split: option.splits if_splits)
  from run [unfolded bindM_Inr [of "factory_api_versions _ _ _ _ _"]] obtain versions u where
    p: "factory_api_versions g d host port deadline w = (Inr versions, u)"
    and k: "bindM (liftE (validate_api_versions versions (transaction_enabled (g_settings g)))) (\<lambda>selected.
      negotiate_brokers g d deadline brokers (dset (str_int i) selected n)) u = (Inr n', w')" by blast
  obtain selected where s: "validate_api_versions versions (transaction_enabled (g_settings g)) = Inr selected"
    and rest: "negotiate_brokers g d deadline brokers (dset (str_int i) selected n) u = (Inr n', w')"
    using k unfolding bind_lift
    by (cases "validate_api_versions versions (transaction_enabled (g_settings g))") (simp_all add: throwM_def)
  have u: "calls_only cluster_call w u" "calls_only cluster_call u w'"
    by (rule keepsD [OF factory_calls p], rule keepsD [OF negotiate_calls rest])
  have "broker_negotiated g d deadline b w w'"
    using b p s u(2) calls.rel_refl unfolding broker_negotiated_def factory_api_versions_def by blast
  moreover have "\<forall>(i, b) \<in> set brokers. broker_negotiated g d deadline b w w'"
    using Cons.IH [OF rest] broker_negotiated_mono [OF _ u(1) calls.rel_refl] by blast
  ultimately show ?case by (simp add: e)
qed simp

lemma probe_cluster_Inr:
  fixes w :: "'w world_scheme"
  assumes "probe_cluster g d admin deadline w = (Inr x, w')"
  shows "\<exists>brokers. am_brokers (e_admin (g_env g) (AdminListTopics admin None (of_int (st_operation_timeout_ms (g_settings g)) / 1000) # hist w))
      = Some brokers \<and> brokers \<noteq> [] \<and> (\<forall>(i, b) \<in> set brokers. broker_negotiated g d deadline b w w')"
proof -
  let ?c = "AdminListTopics admin None (of_int (st_operation_timeout_ms (g_settings g)) / 1000)"
  obtain brokers n where b: "am_brokers (e_admin (g_env g) (?c # hist w)) = Some brokers" "brokers \<noteq> []"
    and run: "negotiate_brokers g d deadline (sorted_items brokers) [] (push ?c w) = (Inr n, w')"
    using assms unfolding probe_cluster_def
    by (auto simp: bindM_def request_def throwM_def retM_def Let_def split: option.splits if_splits prod.splits sum.splits)
  have "calls_only cluster_call w (push ?c w)" by (rule calls_only_push) (simp add: cluster_call_def)
  then show ?thesis
    using b negotiate_each [OF run] broker_negotiated_mono [OF _ _ calls.rel_refl] unfolding set_sorted_items by blast
qed

lemma available_without_transactions:
  "\<not> transaction_enabled s \<Longrightarrow>
   set (available_contracts s dc) \<inter> {CORE_TRANSACTION_CONTRACT, TRANSACTION_OPERATION_CONTRACT} = {}"
  by (auto simp: available_contracts_def Let_def)

text \<open>
  C14. The probe of a cluster always ends, and its calls are reads of metadata, the protocol probes
  of brokers, clocks and telemetry. When it succeeds, the cluster named at least one broker and
  every broker it named, without exception, has a valid endpoint, was probed during this call and
  offers a compatible version of every required API; and a Binding without transactions does not
  advertise the transaction contracts.
\<close>

theorem probe_covers_cluster:
  fixes w :: "'w world_scheme"
  assumes "env_returns (g_env g)" and "probe g d p admin w = (r, w')"
  shows "r \<noteq> Inl Diverged \<and> calls_only cluster_call w w' \<and> (\<forall>pr. r = Inr pr \<longrightarrow>
    (\<exists>brokers deadline. am_brokers (e_admin (g_env g)
        (AdminListTopics admin None (of_int (st_operation_timeout_ms (g_settings g)) / 1000) # Monotonic # hist w)) = Some brokers
      \<and> brokers \<noteq> [] \<and> (\<forall>(i, b) \<in> set brokers. broker_negotiated g d deadline b w w'))
    \<and> (\<not> transaction_enabled (g_settings g) \<longrightarrow>
        set (mf_available (ap_manifest pr)) \<inter> {CORE_TRANSACTION_CONTRACT, TRANSACTION_OPERATION_CONTRACT} = {}))"
proof (intro conjI allI impI)
  have "terminates (probe g d p admin :: (exc, 'w world_scheme, adapter_probe) op)" by (rule probe_ends [OF assms(1)])
  then show "r \<noteq> Inl Diverged" using assms(2) unfolding terminates_def by (metis fst_conv)
  show "calls_only cluster_call w w'" by (rule keepsD [OF probe_calls assms(2)])
  fix pr
  assume r: "r = Inr pr"
  let ?t = "of_int (st_operation_timeout_ms (g_settings g)) / 1000" and ?w = "push Monotonic w"
  let ?dl = "e_monotonic (g_env g) (Monotonic # hist w) + ?t"
  let ?report = "\<lambda>(count, fp, negotiated).
     let manifest = mk_manifest g p in
     bindM (emit (g_env g) ''meridian.kafka.probe.completed''
       [(''brokerCount'', TInt (int count)), (''controllerPresent'', TBool True),
        (''transactionEnabled'', TBool (transaction_enabled (g_settings g)))]) (\<lambda>_.
     bindM (liftE (sha256_fingerprint (g_digests g) (negotiated_json negotiated))) (\<lambda>versions_fp.
     retM \<lparr>ap_manifest = manifest, ap_evidence = probe_evidence g p count fp versions_fp\<rparr>))"
  have run: "bindM (adaptedM (g_attrs g) probe_contract (probe_cluster g d admin ?dl)) ?report ?w = (Inr pr, w')"
    using assms(2) r unfolding probe_def monotonic_def bind_ask by simp
  then obtain x u where x: "probe_cluster g d admin ?dl ?w = (Inr x, u)" and k: "?report x u = (Inr pr, w')"
    unfolding bindM_Inr [of "adaptedM _ _ _"] adapted_Inr by blast
  have "keeps (calls_only cluster_call) (?report x)" by (intro keeps_intros) (simp_all add: cluster_call_def)
  from keepsD [OF this k] have "calls_only cluster_call u w'" .
  moreover have "calls_only cluster_call w ?w" by (rule calls_only_push) (simp add: cluster_call_def)
  ultimately show "\<exists>brokers deadline. am_brokers (e_admin (g_env g) (AdminListTopics admin None ?t # Monotonic # hist w)) = Some brokers
      \<and> brokers \<noteq> [] \<and> (\<forall>(i, b) \<in> set brokers. broker_negotiated g d deadline b w w')"
    using probe_cluster_Inr [OF x] broker_negotiated_mono unfolding push_simps by blast
  assume "\<not> transaction_enabled (g_settings g)"
  moreover have "ap_manifest pr = mk_manifest g p"
    using k by (auto simp: Let_def bindM_Inr retM_def split: prod.splits)
  ultimately show "set (mf_available (ap_manifest pr)) \<inter> {CORE_TRANSACTION_CONTRACT, TRANSACTION_OPERATION_CONTRACT} = {}"
    using available_without_transactions by (simp add: mk_manifest_def Let_def)
qed

section \<open>Witnesses\<close>

text \<open>A cluster of one broker, reached without TLS, that offers exactly the versions the adapter knows.\<close>

definition cluster_settings :: settings where
  "cluster_settings = probe_settings\<lparr>st_transactional_id := None\<rparr>"

definition sample_broker :: broker where
  "sample_broker = \<lparr>br_host = Some ''h'', br_port = Some 9092\<rparr>"

definition offered_versions :: api_versions where
  "offered_versions = map (\<lambda>(key, _, low, high). (key, low, high)) BASE_APIS"

text \<open>Each frame is read whole: its length, then the correlation number and the versions.\<close>

definition offered_frame :: string where
  "offered_frame = int_bytes 4 1 @ encode_api_versions offered_versions"

definition cluster_env :: env where
  "cluster_env = (broker_env [])\<lparr>
     e_bytes := (\<lambda>h. case h of SockRecv n # _ \<Rightarrow> if n = 4 then int_bytes 4 (int (length offered_frame)) else offered_frame | _ \<Rightarrow> []),
     e_admin := (\<lambda>h. \<lparr>am_brokers = Some [(1, sample_broker)], am_controller = Some 1, am_cluster_id = None\<rparr>),
     e_metadata := (\<lambda>h. Some [(''t'', \<lparr>tm_error = None, tm_partitions = Some [0]\<rparr>)]),
     e_config := (\<lambda>h. Some [(''cleanup.policy'', Some ''delete''), (''retention.ms'', Some ''1'')])\<rparr>"

definition cluster_ctx :: ctx where
  "cluster_ctx = sample_ctx\<lparr>g_env := cluster_env, g_settings := cluster_settings\<rparr>"

definition sample_spi :: spi where
  "sample_spi = \<lparr>sp_version = (\<lambda>_. ''v''), sp_libversion = ''l'',
     sp_requirements = [\<lparr>rq_operation_contract = ''meridian.streaming.poll'', rq_operation_version = ''1.0.0'', rq_guarantees = []\<rparr>],
     sp_streaming_fingerprint = ''f'', sp_manifest_fingerprint = (\<lambda>_. ''m'')\<rparr>"

lemma cluster_simps [simp]:
  "g_env cluster_ctx = cluster_env" "g_settings cluster_ctx = cluster_settings" "env_returns cluster_env"
  "e_admin cluster_env = (\<lambda>h. \<lparr>am_brokers = Some [(1, sample_broker)], am_controller = Some 1, am_cluster_id = None\<rparr>)"
  "\<not> transaction_enabled cluster_settings" "e_raises cluster_env = (\<lambda>_. None)" "e_monotonic cluster_env = (\<lambda>_. 0)"
  "st_tls_mode cluster_settings = ''disabled''" "st_sasl_mechanism cluster_settings = None" "st_operation_timeout_ms cluster_settings = 1000"
  "e_bytes cluster_env (SockRecv n # h) = (if n = 4 then int_bytes 4 (int (length offered_frame)) else offered_frame)"
  "quiet_sink cluster_env"
  by (simp_all add: cluster_ctx_def cluster_env_def cluster_settings_def transaction_enabled_def env_returns_def broker_env_def quiet_sink_def
      probe_settings_def sample_settings_def)

lemma bind_request: "e_raises e (q # hist w) = None \<Longrightarrow> bindM (request e q f) k w = k (f (q # hist w)) (push q w)"
  by (simp add: bindM_def request_def Let_def)

lemma bind_run: "m w = (Inr x, u) \<Longrightarrow> bindM m k w = k x u"
  by (simp add: bindM_def)

lemma bind_return: "bindM (retM x) k w = k x w"
  by (simp add: bindM_def retM_def)

lemma offered_frame_length: "length offered_frame = 94"
  by (simp add: offered_frame_def encode_api_versions_def offered_versions_def BASE_APIS_def api_range_def int_bytes_codec)

lemma offered_ok: "api_versions_ok offered_versions"
  by (simp add: api_versions_ok_def offered_versions_def BASE_APIS_def api_entry_ok_def)

lemma conn_read_whole:
  assumes "cn_deadline cn = 1" and "0 < n" and "length (e_bytes cluster_env (SockRecv n # SockTimeout 1 # Monotonic # hist w)) = n"
  shows "conn_read cluster_env cn n w =
    (Inr (e_bytes cluster_env (SockRecv n # SockTimeout 1 # Monotonic # hist w)), push (SockRecv n) (push (SockTimeout 1) (push Monotonic w)))"
proof -
  obtain m where m: "n = Suc m" using assms(2) by (cases n) simp_all
  show ?thesis
    using assms(1,3) unfolding conn_read_def m
    by (subst conn_read_loop.simps, subst conn_read_loop.simps)
      (auto simp: bindM_def conn_timeout_def monotonic_def ask_def request_def retM_def Let_def)
qed

lemma offered_probe:
  fixes w :: "'w world_scheme"
  shows "\<exists>w'. probe_api_versions c cluster_env d cluster_settings host port 1 w = (Inr offered_versions, w')"
proof -
  let ?cn = "\<lparr>cn_deadline = 1, cn_correlation = 1\<rparr> :: connection"
  have "case conn_payload 18 0 1 [] of Inr p \<Rightarrow> \<not> isl (pack 4 (int (length p))) | Inl _ \<Rightarrow> False" by code_simp
  then obtain p s where p: "conn_payload 18 0 1 [] = Inr p" "pack 4 (int (length p)) = Inr s"
    by (auto simp: isl_def split: sum.splits) (metis sum.exhaust)
  have l: "length (int_bytes 4 1) = 4" by (simp add: int_bytes_codec)
  have head: "rd_integer 4 (new_reader offered_frame) = Inr (1, (new_reader offered_frame)\<lparr>rd_offset := 4\<rparr>)"
    unfolding rd_integer_widths using offered_frame_length l
    by (subst long.take_value_iff) (auto simp: new_reader_def follows_def offered_frame_def)
  have tail: "rd_take 90 ((new_reader offered_frame)\<lparr>rd_offset := 4\<rparr>) = Inr (encode_api_versions offered_versions,
      (new_reader offered_frame)\<lparr>rd_offset := 94\<rparr>)"
    using offered_frame_length l by (simp add: rd_take_def new_reader_def offered_frame_def)
  have parse: "parse_api_versions (encode_api_versions offered_versions) = Inr offered_versions"
    using parse_api_versions_iff offered_ok by blast
  have sz: "length (int_bytes 4 94) = 4" "from_bytes (int_bytes 4 94) = 94" by (simp_all add: int_bytes_codec)
  have size_read: "conn_read cluster_env ?cn 4 v = (Inr (int_bytes 4 94), push (SockRecv 4) (push (SockTimeout 1) (push Monotonic v)))"
    for v :: "'w world_scheme" by (subst conn_read_whole) (simp_all add: sz offered_frame_length)
  have body_read: "conn_read cluster_env ?cn 94 v = (Inr offered_frame, push (SockRecv 94) (push (SockTimeout 1) (push Monotonic v)))"
    for v :: "'w world_scheme" by (subst conn_read_whole) (simp_all add: offered_frame_length)
  have lift: "liftE (Inr x) v = (Inr x, v)" for x :: 'y and v :: "'w world_scheme" by (simp add: liftE_def)
  have "\<exists>v'. conn_request cluster_env \<lparr>cn_deadline = 1, cn_correlation = 0\<rparr> 18 0 [] v
      = (Inr (encode_api_versions offered_versions, ?cn), v')" for v :: "'w world_scheme"
    unfolding conn_request_def Let_def
    by (simp add: bind_lift p bindM_def [of "conn_timeout _ _"] bindM_def [of "request _ _ _"] conn_timeout_def bindM_def [of "monotonic _"]
        monotonic_def ask_def request_def Let_def bindM_def [of "conn_read _ _ _"] size_read body_read sz head tail lift)
      (simp add: bindM_def request_def Let_def)
  then have "\<exists>v'. probe_connection c cluster_env d cluster_settings 1 v = (Inr offered_versions, v')" for v :: "'w world_scheme"
    unfolding probe_connection_def authenticate_def cluster_simps option.case bind_return
    by (metis (no_types, lifting) bind_run case_prod_conv lift parse)
  then obtain v' where "probe_connection c cluster_env d cluster_settings 1 (push (SockConnect host port 1) (push Monotonic w))
      = (Inr offered_versions, v')" by blast
  then show ?thesis
    unfolding probe_api_versions_def monotonic_def bind_ask
    by (simp add: bind_request) (simp add: alwaysM_def request_def Let_def)
qed

lemma offered_negotiated:
  "case validate_api_versions offered_versions False of
     Inr selected \<Rightarrow> \<not> isl (sha256_fingerprint sample_digests (negotiated_json [(''1'', selected)])) | Inl _ \<Rightarrow> False"
  by code_simp

lemma cluster_probe_runs:
  fixes w :: "'w world_scheme"
  assumes "g_env g = cluster_env" and "g_settings g = cluster_settings" and "g_digests g = sample_digests"
  shows "\<exists>pr w'. probe g sample_scram_digests sample_spi admin w = (Inr pr, w')"
proof -
  let ?w = "push (AdminListTopics admin None 1) (push Monotonic w)"
  obtain selected fp where s: "validate_api_versions offered_versions False = Inr selected"
    and fp: "sha256_fingerprint sample_digests (negotiated_json [(''1'', selected)]) = Inr fp"
    using offered_negotiated by (auto simp: isl_def assms split: sum.splits) (metis sum.exhaust)
  obtain w1 where w1: "probe_api_versions (g_core g) cluster_env sample_scram_digests cluster_settings ''h'' 9092 1 ?w = (Inr offered_versions, w1)"
    using offered_probe by blast
  have one: "str_int 1 = ''1''" by code_simp
  have "negotiate_brokers g sample_scram_digests 1 [(1, sample_broker)] [] ?w = (Inr [(''1'', selected)], w1)"
    using w1 s one by (simp add: assms sample_broker_def factory_api_versions_def bindM_def liftE_def retM_def)
  then have "bindM (negotiate_brokers g sample_scram_digests 1 (sorted_items [(1, sample_broker)]) []) f ?w = f [(''1'', selected)] w1"
    for f :: "negotiated \<Rightarrow> (exc, 'w world_scheme, nat \<times> string \<times> negotiated) op"
    unfolding sorted_items_def bindM_def by simp
  then have "probe_cluster g sample_scram_digests admin 1 (push Monotonic w)
      = (Inr (1, ''unavailable'', [(''1'', selected)]), w1)"
    by (simp add: assms probe_cluster_def bind_request del: negotiate_brokers.simps) (simp add: retM_def cluster_fingerprint_def)
  then have c: "adaptedM (g_attrs g) probe_contract (probe_cluster g sample_scram_digests admin 1) (push Monotonic w)
      = (Inr (1, ''unavailable'', [(''1'', selected)]), w1)" unfolding adapted_Inr .
  have attrs: "list_all valid_attribute [(''brokerCount'', TInt 1), (''controllerPresent'', TBool True), (''transactionEnabled'', TBool False)]"
    "valid_key ''meridian.kafka.probe.completed''" by code_simp+
  let ?attrs = "[(''brokerCount'', TInt 1), (''controllerPresent'', TBool True), (''transactionEnabled'', TBool False)]"
  have "wp (emit cluster_env ''meridian.kafka.probe.completed'' ?attrs) (\<lambda>_ _. True) (\<lambda>_ _. False) w1"
    by (rule wp_emit_quiet [OF _ attrs]) simp_all
  then obtain u where e: "emit cluster_env ''meridian.kafka.probe.completed'' ?attrs w1 = (Inr (), u)"
    by (auto simp: wp_def split: prod.splits sum.splits)
  have c': "bindM (adaptedM (g_attrs g) probe_contract (probe_cluster g sample_scram_digests admin 1)) f (push Monotonic w)
      = f (1, ''unavailable'', [(''1'', selected)]) w1" for f :: "nat \<times> string \<times> negotiated \<Rightarrow> (exc, 'w world_scheme, adapter_probe) op"
    unfolding bindM_def c by simp
  have e': "bindM (emit cluster_env ''meridian.kafka.probe.completed'' ?attrs) f w1 = f () u"
    for f :: "unit \<Rightarrow> (exc, 'w world_scheme, adapter_probe) op" unfolding bindM_def e by simp
  show ?thesis
    unfolding probe_def monotonic_def bind_ask by (simp add: assms c' Let_def e' bind_lift fp retM_def)
qed

lemma sample_cluster_probe: "\<exists>pr w'. probe cluster_ctx sample_scram_digests sample_spi 3 sample_world = (Inr pr, w')"
  by (rule cluster_probe_runs) (simp_all add: cluster_ctx_def sample_ctx_def)

theorem probe_covers_cluster_witness:
  "\<exists>pr w' deadline. probe cluster_ctx sample_scram_digests sample_spi 3 sample_world = (Inr pr, w')
    \<and> broker_negotiated cluster_ctx sample_scram_digests deadline sample_broker sample_world w'
    \<and> TRANSACTION_OPERATION_CONTRACT \<notin> set (mf_available (ap_manifest pr))"
proof -
  obtain pr w' where run: "probe cluster_ctx sample_scram_digests sample_spi 3 sample_world = (Inr pr, w')"
    using sample_cluster_probe by blast
  have "env_returns (g_env cluster_ctx)" by simp
  from probe_covers_cluster [OF this run] show ?thesis using run by fastforce
qed

definition sample_planned :: planned_resource where
  "sample_planned = \<lparr>pl_ref = sample_ref ''g'', pl_fingerprint = sample_fingerprint, pl_schema_fingerprint = None\<rparr>"

lemma sample_verified: "\<not> isl (fst (verify_physical cluster_ctx 3 [sample_planned] sample_world))"
  by code_simp

theorem verify_physical_sound_witness:
  "\<exists>v w' strm. verify_physical cluster_ctx 3 [sample_planned] sample_world = (Inr v, w')
    \<and> planned_ok cluster_settings sample_planned strm \<and> topic_agrees cluster_ctx 3 strm sample_world w'"
proof -
  obtain v w' where run: "verify_physical cluster_ctx 3 [sample_planned] sample_world = (Inr v, w')"
    using sample_verified by (metis isl_def prod.collapse sum.exhaust_sel)
  have "distinct (topics_of (st_resources (g_settings cluster_ctx)))" by code_simp
  from verify_physical_sound [OF run this] show ?thesis using run by fastforce
qed

end
