(* ===== verification/Range.thy ===== *)
theory Range
  imports Consumer_Delivery
begin

text \<open>
  \<^verbatim>\<open>consumer/__init__.py\<close>, \<open>KafkaRangeReader\<close>: a finite read between two positions of every
  partition, through a consumer of its own that is closed again. The dictionaries \<open>positions\<close>
  and \<open>ends\<close> have the topic's partitions as keys from the check of their key sets on.
\<close>

section \<open>The reader\<close>

record range_page =
  pg_events :: "event list"
  pg_cursor :: cursor
  pg_truncated :: bool

definition range_contract :: "read_range_command \<Rightarrow> string" where
  "range_contract cmd = (if rr_replay cmd then ''meridian.streaming.replay'' else ''meridian.streaming.read-range'')"

fun range_watermarks :: "ctx \<Rightarrow> client \<Rightarrow> string \<Rightarrow> int list \<Rightarrow> (int, int) dict \<times> (int, int) dict \<Rightarrow>
    (exc, 'w world_scheme, (int, int) dict \<times> (int, int) dict) op" where
  "range_watermarks g consumer topic [] acc = retM acc"
| "range_watermarks g consumer topic (part # parts) (lows, highs) =
     bindM (request (g_env g) (Watermarks consumer topic part) (e_watermarks (g_env g))) (\<lambda>(low, high).
     range_watermarks g consumer topic parts (dset part low lows, dset part high highs))"

text \<open>The checks of one partition; missing positions and ends become the watermarks.\<close>

fun range_bounds :: "(int, int) dict \<Rightarrow> (int, int) dict \<Rightarrow> int list \<Rightarrow> (int, int) dict \<times> (int, int) dict \<Rightarrow>
    exc + (int, int) dict \<times> (int, int) dict" where
  "range_bounds lows highs [] acc = Inr acc"
| "range_bounds lows highs (part # parts) (pos, ends) =
     (let low = dget lows part 0; high = dget highs part 0;
          pos' = dsetdefault part low pos; ends' = dsetdefault part high ends;
          p = dget pos' part low; e = dget ends' part high
      in if p < low then Inl (raised_for CursorExpired ''cursor.retained-range'')
         else if p > high \<or> e > high then Inl (raised RetentionBoundaryExceeded)
         else if e < p then Inl (raised RetentionBoundaryExceeded)
         else range_bounds lows highs parts (pos', ends'))"

definition unread :: "(int, int) dict \<Rightarrow> (int, int) dict \<Rightarrow> int list \<Rightarrow> bool" where
  "unread pos ends parts = list_ex (\<lambda>i. dget pos i 0 < dget ends i 0) parts"

text \<open>\<open>positions[partition]\<close>, a \<open>KeyError\<close> when there is none\<close>

definition at_partition :: "(int, int) dict \<Rightarrow> int \<Rightarrow> exc + int" where
  "at_partition d part = (case map_of d part of None \<Rightarrow> Inl (PyExc KeyError) | Some v \<Rightarrow> Inr v)"

definition range_message :: "ctx \<Rightarrow> read_range_command \<Rightarrow> (int, int) dict \<Rightarrow> message \<Rightarrow> (int, int) dict \<times> event list \<Rightarrow>
    exc + (int, int) dict \<times> event list" where
  "range_message g cmd ends m acc = (case acc of (pos, evs) \<Rightarrow> let part = m_partition m; off = m_offset m in
     case m_error m of
       Some err \<Rightarrow>
         if partition_eof g err
         then bindE (at_partition pos part) (\<lambda>p. Inr (dset part (max p off) pos, evs))
         else Inl (normalize_kafka_error (g_attrs g) (KafkaErrorValue err) (Some (range_contract cmd)))
     | None \<Rightarrow>
         bindE (at_partition pos part) (\<lambda>p. let pos' = dset part (max p (off + 1)) pos in
         bindE (at_partition ends part) (\<lambda>e.
         if off \<ge> e then Inr (pos', evs)
         else bindE (decode_event (g_core g) m (rr_stream cmd)) (\<lambda>ev. Inr (pos', evs @ [ev])))))"

fun range_loop :: "nat \<Rightarrow> ctx \<Rightarrow> read_range_command \<Rightarrow> client \<Rightarrow> rat \<Rightarrow> int list \<Rightarrow> (int, int) dict \<Rightarrow>
    (int, int) dict \<times> event list \<Rightarrow> (exc, 'w world_scheme, (int, int) dict \<times> event list) op" where
  "range_loop 0 g cmd consumer deadline parts ends acc = throwM Diverged"
| "range_loop (Suc fuel) g cmd consumer deadline parts ends acc =
     (if \<not> (int (length (snd acc)) < rr_limit cmd \<and> unread (fst acc) ends parts) then retM acc
      else bindM (monotonic (g_env g)) (\<lambda>now.
        if deadline - now \<le> 0 then retM acc
        else bindM (request (g_env g) (ConsumerPoll consumer (min (1 / 4) (deadline - now))) (e_message (g_env g)))
          (\<lambda>received. case received of
             None \<Rightarrow> range_loop fuel g cmd consumer deadline parts ends acc
           | Some m \<Rightarrow> bindM (liftE (range_message g cmd ends m acc))
               (range_loop fuel g cmd consumer deadline parts ends))))"

definition range_source :: "ctx \<Rightarrow> read_range_command \<Rightarrow> json option \<Rightarrow> (int, int) dict \<Rightarrow>
    (exc, 'w world_scheme, (int, int) dict) op" where
  "range_source g cmd source dflt = (case source of
     None \<Rightarrow> retM dflt | Some value \<Rightarrow> decode_positions g value (rr_stream cmd))"

text \<open>The coordinates of a read: the topic's partitions, where it starts and where it ends.\<close>

definition range_coordinates :: "ctx \<Rightarrow> read_range_command \<Rightarrow> client \<Rightarrow>
    (exc, 'w world_scheme, int list \<times> (int, int) dict \<times> (int, int) dict) op" where
  "range_coordinates g cmd consumer =
     (let topic = ps_topic (rr_stream cmd) in
      bindM (request (g_env g) (ListTopics consumer topic) (e_metadata (g_env g))) (\<lambda>metadata.
      bindM (liftE (partition_ids (g_attrs g) metadata topic)) (\<lambda>parts.
      if length parts > MAX_CURSOR_PARTITIONS then throwM (raised RetentionBoundaryExceeded)
      else bindM (range_watermarks g consumer topic parts ([], [])) (\<lambda>(lows, highs).
      bindM (range_source g cmd (case rr_cursor cmd of Some c \<Rightarrow> Some c | None \<Rightarrow> rr_start cmd) lows) (\<lambda>start.
      bindM (range_source g cmd (rr_end cmd) highs) (\<lambda>stop.
      bindM (liftE (range_bounds lows highs parts (start, stop))) (\<lambda>(pos, ends).
      if set (dkeys pos) \<noteq> set parts \<or> set (dkeys ends) \<noteq> set parts then throwM (raised InvalidCursor)
      else retM (parts, pos, ends))))))))"

definition range_finish :: "ctx \<Rightarrow> read_range_command \<Rightarrow> int list \<Rightarrow> (int, int) dict \<Rightarrow> (int, int) dict \<times> event list \<Rightarrow>
    (exc, 'w world_scheme, range_page) op" where
  "range_finish g cmd parts ends acc = (case acc of (pos, evs) \<Rightarrow>
     let truncated = unread pos ends parts in
     bindM (now_ms (g_env g)) (\<lambda>now.
     bindM (liftE (encode_cursor (g_core g) (g_digests g) (g_codec g) (ps_ref (rr_stream cmd)) (ps_topic (rr_stream cmd))
       pos None now)) (\<lambda>cu.
     bindM (emit (g_env g) ''meridian.kafka.range.completed''
       [(''eventCount'', TInt (int (length evs))), (''partitionCount'', TInt (int (length parts))),
        (''truncated'', TBool truncated), (''replay'', TBool (rr_replay cmd))]) (\<lambda>_.
     retM \<lparr>pg_events = evs, pg_cursor = cu, pg_truncated = truncated\<rparr>))))"

definition range_assignment :: "string \<Rightarrow> int list \<Rightarrow> (int, int) dict \<Rightarrow> topic_partition list" where
  "range_assignment topic parts pos = map (\<lambda>p. (topic, p, dget pos p 0)) parts"

definition range_body :: "ctx \<Rightarrow> read_range_command \<Rightarrow> client \<Rightarrow> (exc, 'w world_scheme, range_page) op" where
  "range_body g cmd consumer =
     bindM (range_coordinates g cmd consumer) (\<lambda>(parts, pos, ends).
     bindM (command (g_env g) (Assign consumer (range_assignment (ps_topic (rr_stream cmd)) parts pos))) (\<lambda>_.
     bindM (monotonic (g_env g)) (\<lambda>start.
     bindM (range_loop (g_fuel g) g cmd consumer (start + of_int (st_operation_timeout_ms (g_settings g)) / 1000)
       parts ends (pos, [])) (range_finish g cmd parts ends))))"

definition range_read :: "ctx \<Rightarrow> read_range_command \<Rightarrow> (exc, 'w world_scheme, range_page) op" where
  "range_read g cmd =
     bindM (ask Uuid (e_text (g_env g))) (\<lambda>hex.
     bindM (liftE (consumer_config (g_settings g) (st_client_id (g_settings g) @ ''.range.'' @ hex) True)) (\<lambda>cfg.
     bindM (request (g_env g) (ConsumerCreate cfg) (\<lambda>h. length h - 1)) (\<lambda>consumer.
     alwaysM (adaptedM (g_attrs g) (range_contract cmd) (range_body g cmd consumer))
       (command (g_env g) (ConsumerClose consumer)))))"

section \<open>What a read calls\<close>

fun range_call :: "call \<Rightarrow> bool" where
  "range_call (ConsumerCreate _) = True"
| "range_call (ListTopics _ _) = True"
| "range_call (Watermarks _ _ _) = True"
| "range_call (Assign _ _) = True"
| "range_call (ConsumerPoll _ _) = True"
| "range_call (ConsumerClose _) = True"
| "range_call (SinkEmit _) = True"
| "range_call c = (c \<in> {Monotonic, TimeNs, UtcNow, Uuid})"

text \<open>The coordinates are found without polling.\<close>

fun setup_call :: "call \<Rightarrow> bool" where
  "setup_call (ConsumerPoll _ _) = False"
| "setup_call c = range_call c"

lemma setup_is_range: "setup_call c \<Longrightarrow> range_call c"
  by (cases c) simp_all

lemma range_watermarks_calls [keeps_intros]:
  "keeps (calls_only setup_call) (range_watermarks g c tp parts acc)"
  by (induction g c tp parts acc rule: range_watermarks.induct) (auto intro!: keeps_intros)

lemma range_source_calls [keeps_intros]: "keeps (calls_only setup_call) (range_source g cmd v d)"
  unfolding range_source_def decode_positions_def by (intro keeps_intros; simp)

lemma range_setup_calls: "keeps (calls_only setup_call) (range_coordinates g cmd c)"
  unfolding range_coordinates_def Let_def by (intro keeps_intros; simp)

lemma range_coordinates_calls [keeps_intros]: "keeps (calls_only range_call) (range_coordinates g cmd c)"
  by (rule keeps_calls_mono [OF range_setup_calls setup_is_range])

lemma range_loop_calls [keeps_intros]: "keeps (calls_only range_call) (range_loop n g cmd c dl parts ends acc)"
  by (induction n arbitrary: acc) (auto intro!: keeps_intros)

lemma range_finish_calls: "keeps (calls_only setup_call) (range_finish g cmd parts ends acc)"
  unfolding range_finish_def Let_def by (intro keeps_intros; simp)

lemma range_body_calls [keeps_intros]: "keeps (calls_only range_call) (range_body g cmd c)"
  unfolding range_body_def by (intro keeps_intros keeps_calls_mono [OF range_finish_calls setup_is_range]; simp)

text \<open>
  C37. A range read leaves no trace in Kafka: it only creates a consumer, asks it for metadata
  and watermarks, assigns, polls and closes it, reads clocks and reports; it never commits,
  seeks a group or produces. And the consumer it created is closed by its last call, whether
  the read returns or raises.
\<close>

theorem range_leaves_no_trace:
  assumes "range_read g cmd w = (r, w')" and "r \<noteq> Inl Diverged"
  shows "calls_only range_call w w' \<and> (hist w' = Uuid # hist w \<or> (\<exists>cfg. hist w' = ConsumerCreate cfg # Uuid # hist w)
    \<or> (\<exists>cs cfg. hist w' = ConsumerClose (Suc (length (hist w))) # cs @ ConsumerCreate cfg # Uuid # hist w))"
proof -
  have "keeps (calls_only range_call) (range_read g cmd)"
    unfolding range_read_def by (intro keeps_intros; simp)
  from keepsD [OF this assms(1)] have calls: "calls_only range_call w w'" .
  let ?w = "push Uuid w"
  show ?thesis
  proof (cases "consumer_config (g_settings g) (st_client_id (g_settings g) @ ''.range.'' @ e_text (g_env g) (Uuid # hist w)) True")
    case (Inl x)
    then show ?thesis using assms(1) calls by (auto simp: range_read_def bindM_def ask_def Let_def liftE_def)
  next
    case (Inr cfg)
    show ?thesis
    proof (cases "e_raises (g_env g) (ConsumerCreate cfg # Uuid # hist w)")
      case None
      have k: "keeps (calls_only range_call) (adaptedM (g_attrs g) (range_contract cmd) (range_body g cmd (Suc (length (hist w)))))"
        by (intro keeps_intros)
      have "alwaysM (adaptedM (g_attrs g) (range_contract cmd) (range_body g cmd (Suc (length (hist w)))))
          (command (g_env g) (ConsumerClose (Suc (length (hist w))))) (push (ConsumerCreate cfg) ?w) = (r, w')"
        using assms(1) Inr None by (simp add: range_read_def bindM_def ask_def Let_def liftE_def request_def)
      from always_last [OF this k assms(2)] show ?thesis using calls by auto
    next
      case (Some x)
      then show ?thesis using assms(1) Inr calls by (auto simp: range_read_def bindM_def ask_def Let_def liftE_def request_def)
    qed
  qed
qed

section \<open>What a read returns\<close>

text \<open>The messages polled since the history had \<open>n\<close> calls, in the order they came.\<close>

fun received :: "env \<Rightarrow> nat \<Rightarrow> history \<Rightarrow> message list" where
  "received e n [] = []"
| "received e n (c # h) = (if length h < n then [] else received e n h @
     (case c of ConsumerPoll _ _ \<Rightarrow> (case e_message e (c # h) of None \<Rightarrow> [] | Some m \<Rightarrow> [m]) | _ \<Rightarrow> []))"

lemma received_short: "length h \<le> n \<Longrightarrow> received e n h = []"
  by (cases h) auto

lemma received_append: "n \<le> length h \<Longrightarrow> received e n (cs @ h) = received e n h @ received e (length h) (cs @ h)"
  by (induction cs) (simp_all add: received_short)

lemma received_quiet:
  assumes "calls_only setup_call s t" and "n \<le> length (hist s)"
  shows "received e n (hist t) = received e n (hist s)"
proof -
  obtain cs where cs: "hist t = cs @ hist s" "list_all setup_call cs" using assms(1) by (auto simp: calls_only_def)
  have "received e n (cs @ hist s) = received e n (hist s)"
    using cs(2) assms(2) by (induction cs) (auto split: call.split)
  then show ?thesis by (simp add: cs(1))
qed

lemma range_loop_folds:
  "wp (range_loop fuel g cmd c dl parts ends acc)
     (\<lambda>acc' w'. (\<exists>cs. hist w' = cs @ hist w) \<and>
        foldE (range_message g cmd ends) (received (g_env g) (length (hist w)) (hist w')) acc = Inr acc')
     (\<lambda>_ _. True) w"
proof (induction fuel arbitrary: acc w)
  case (Suc fuel)
  let ?time = "e_monotonic (g_env g) (Monotonic # hist w)"
  let ?p = "ConsumerPoll c (min (1 / 4) (dl - ?time))"
  let ?h = "?p # Monotonic # hist w" and ?v = "push ?p (push Monotonic w)"
  have step: "wp (range_loop fuel g cmd c dl parts ends acc2)
     (\<lambda>acc' w'. (\<exists>cs. hist w' = cs @ hist w) \<and>
        foldE (range_message g cmd ends) (received (g_env g) (length (hist w)) (hist w')) acc = Inr acc') (\<lambda>_ _. True) ?v"
    if "foldE (range_message g cmd ends) (received (g_env g) (length (hist w)) ?h) acc = Inr acc2" for acc2
  proof (rule wp_mono [OF Suc.IH], safe)
    fix acc' w' cs
    assume f: "foldE (range_message g cmd ends) (received (g_env g) (length (hist ?v)) (hist w')) acc2 = Inr acc'"
      and h: "hist w' = cs @ hist ?v"
    have hv: "hist ?v = ?h" by simp
    have "received (g_env g) (length (hist w)) (hist w')
        = received (g_env g) (length (hist w)) (hist ?v) @ received (g_env g) (length (hist ?v)) (hist w')"
      unfolding h by (rule received_append) simp
    then show "foldE (range_message g cmd ends) (received (g_env g) (length (hist w)) (hist w')) acc = Inr acc'"
      using f that by (simp only: foldE_append hv bindE_simps)
    show "\<exists>cs. hist w' = cs @ hist w" using h by auto
  qed
  show ?case
    by (auto simp: wp_simps received_short split: option.split sum.split intro!: step)
qed (simp add: wp_throw)

text \<open>
  The fold of the messages: the events of exactly the messages below their end, in order, and
  positions past everything seen that never went back.
\<close>

definition wanted :: "(int, int) dict \<Rightarrow> message \<Rightarrow> bool" where
  "wanted ends m \<longleftrightarrow> m_error m = None \<and> m_offset m < dget ends (m_partition m) 0"

lemma at_partition_Inr: "at_partition d p = Inr v \<longleftrightarrow> map_of d p = Some v"
  by (simp add: at_partition_def split: option.split)

lemma dkeys_dset_old: "map_of d k \<noteq> None \<Longrightarrow> set (dkeys (dset k v d)) = set (dkeys d)"
  by (metis insert_absorb domIff dom_map_of_conv_image_fst dom_fun_upd map_of_dset option.distinct(1) list.set_map)

lemma range_message_step:
  assumes "range_message g cmd ends m (pos, evs) = Inr (pos', evs')"
  shows "set (dkeys pos') = set (dkeys pos)" and "dget pos i 0 \<le> dget pos' i 0"
    and "m_error m = None \<Longrightarrow> m_offset m < dget pos' (m_partition m) 0"
    and "if wanted ends m then \<exists>ev. decode_event (g_core g) m (rr_stream cmd) = Inr ev \<and> evs' = evs @ [ev] else evs' = evs"
proof -
  obtain p where p: "map_of pos (m_partition m) = Some p"
    using assms by (auto simp: range_message_def at_partition_Inr Let_def split: option.splits if_splits)
  obtain q where q: "pos' = dset (m_partition m) (max p q) pos" "m_error m = None \<Longrightarrow> q = m_offset m + 1"
    using assms p by (auto simp: range_message_def at_partition_Inr Let_def split: option.splits if_splits)
  show "set (dkeys pos') = set (dkeys pos)" unfolding q(1) by (rule dkeys_dset_old) (simp add: p)
  show "dget pos i 0 \<le> dget pos' i 0" using p by (simp add: q(1) dget_def)
  show "m_error m = None \<Longrightarrow> m_offset m < dget pos' (m_partition m) 0" using q by (simp add: dget_def)
  show "if wanted ends m then \<exists>ev. decode_event (g_core g) m (rr_stream cmd) = Inr ev \<and> evs' = evs @ [ev] else evs' = evs"
    using assms by (auto simp: range_message_def at_partition_Inr Let_def wanted_def dget_def split: option.splits if_splits)
qed

lemma range_folded:
  assumes "foldE (range_message g cmd ends) ms (pos, evs) = Inr (pos', evs')"
  shows "set (dkeys pos') = set (dkeys pos) \<and> (\<forall>i. dget pos i 0 \<le> dget pos' i 0)
    \<and> (\<forall>m \<in> set ms. m_error m = None \<longrightarrow> m_offset m < dget pos' (m_partition m) 0)
    \<and> (\<exists>new. evs' = evs @ new \<and> map (\<lambda>m. decode_event (g_core g) m (rr_stream cmd)) (filter (wanted ends) ms) = map Inr new)"
  using assms
proof (induction ms arbitrary: pos evs)
  case (Cons m ms)
  obtain pos1 evs1 where one: "range_message g cmd ends m (pos, evs) = Inr (pos1, evs1)"
    and rest: "foldE (range_message g cmd ends) ms (pos1, evs1) = Inr (pos', evs')" using Cons.prems by auto
  note s = range_message_step [OF one] and ih = Cons.IH [OF rest]
  obtain new where new: "evs' = evs1 @ new"
    "map (\<lambda>m. decode_event (g_core g) m (rr_stream cmd)) (filter (wanted ends) ms) = map Inr new" using ih by blast
  have "\<exists>new. evs' = evs @ new \<and> map (\<lambda>m. decode_event (g_core g) m (rr_stream cmd)) (filter (wanted ends) (m # ms)) = map Inr new"
  proof (cases "wanted ends m")
    case True
    then obtain ev where "decode_event (g_core g) m (rr_stream cmd) = Inr ev" "evs1 = evs @ [ev]" using s(4) by auto
    then show ?thesis using new True by (intro exI [of _ "ev # new"]) simp
  next
    case False
    then show ?thesis using new s(4) by auto
  qed
  moreover have "dget pos i 0 \<le> dget pos' i 0" for i using s(2) [of i] ih by (meson order_trans)
  moreover have "m_error m = None \<Longrightarrow> m_offset m < dget pos' (m_partition m) 0"
    using s(3) ih by (meson less_le_trans)
  ultimately show ?case using s(1) ih by auto
qed simp

lemma range_loop_limit:
  "int (length (snd acc)) \<le> rr_limit cmd \<Longrightarrow>
   wp (range_loop fuel g cmd c dl parts ends acc) (\<lambda>acc' _. int (length (snd acc')) \<le> rr_limit cmd) (\<lambda>_ _. True) w"
proof (induction fuel arbitrary: acc w)
  case (Suc fuel)
  have one: "int (length (snd acc')) \<le> rr_limit cmd"
    if "range_message g cmd ends m acc = Inr acc'" "int (length (snd acc)) < rr_limit cmd" for m acc'
    using range_message_step(4) [of g cmd ends m "fst acc" "snd acc" "fst acc'" "snd acc'"] that
    by (cases "wanted ends m") auto
  show ?case using Suc.prems by (auto simp: wp_simps split: option.split sum.split intro!: Suc.IH dest: one)
qed (simp add: wp_throw)

text \<open>Where the read starts lies within what is retained, and before its end.\<close>

lemma range_bounds_Inr:
  assumes "range_bounds lows highs parts (pos, ends) = Inr (pos', ends')" and "part \<in> set parts" and "distinct parts"
  shows "dget lows part 0 \<le> dget pos' part 0 \<and> dget pos' part 0 \<le> dget ends' part 0 \<and> dget ends' part 0 \<le> dget highs part 0"
proof -
  have old: "map_of q k = Some v \<Longrightarrow> map_of (dsetdefault a x q) k = Some v" for q :: "(int, int) dict" and k v a x
    by (auto simp: map_of_dsetdefault split: option.splits)
  have keep: "range_bounds lows highs ps (q, f) = Inr (pos', ends') \<Longrightarrow> map_of q k = Some v \<Longrightarrow> map_of f k = Some u \<Longrightarrow>
      map_of pos' k = Some v \<and> map_of ends' k = Some u" for ps q f k v u
  proof (induction ps arbitrary: q f)
    case (Cons a ps)
    then show ?case by (auto simp: Let_def old split: if_splits)
  qed simp
  show ?thesis
    using assms(1,2)
  proof (induction parts arbitrary: pos ends)
    case (Cons p ps)
    let ?q = "dsetdefault p (dget lows p 0) pos" and ?f = "dsetdefault p (dget highs p 0) ends"
    have rest: "range_bounds lows highs ps (?q, ?f) = Inr (pos', ends')" and ok: "dget lows p 0 \<le> dget ?q p (dget lows p 0)"
      "dget ?q p (dget lows p 0) \<le> dget ?f p (dget highs p 0)" "dget ?f p (dget highs p 0) \<le> dget highs p 0"
      using Cons.prems(1) by (auto simp: Let_def split: if_splits)
    obtain v u where v: "map_of ?q p = Some v" "map_of ?f p = Some u"
      using dsetdefault_dom by (metis not_None_eq)
    show ?case
    proof (cases "part = p")
      case True
      then show ?thesis using keep [OF rest v] ok v by (simp add: dget_def)
    next
      case False
      then show ?thesis using Cons.IH [OF rest] Cons.prems(2) by simp
    qed
  qed simp
qed


section \<open>Witnesses\<close>

text \<open>A topic with one partition, in which every poll finds the event at offset 4.\<close>

definition sample_message :: message where
  "sample_message = \<lparr>m_error = None, m_topic = ''t'', m_partition = 0, m_offset = 4,
     m_value = Some (json_dumps (JObj [(''eventId'', JStr ''1'')])),
     m_headers = Some [(''meridian.schema-fingerprint'', Some sample_fingerprint)]\<rparr>"

definition range_env :: env where
  "range_env = sample_consumer_env\<lparr>e_metadata := (\<lambda>h. Some [(''t'', \<lparr>tm_error = None, tm_partitions = Some [0]\<rparr>)]),
     e_message := (\<lambda>h. Some sample_message)\<rparr>"

definition range_ctx :: ctx where
  "range_ctx = sample_consumer_ctx\<lparr>g_env := range_env\<rparr>"

definition sample_range :: read_range_command where
  "sample_range = \<lparr>rr_stream = sample_stream ''a'' ''t'', rr_start = None, rr_end = None, rr_cursor = None,
     rr_limit = 1, rr_replay = False\<rparr>"

lemma sample_located:
  "range_coordinates range_ctx sample_range c (sample_consumer_world\<lparr>hist := h\<rparr>) = (Inr ([0], [(0, 0)], [(0, 9)]),
     sample_consumer_world\<lparr>hist := Watermarks c ''t'' 0 # ListTopics c ''t'' # h\<rparr>)"
  by code_simp

lemma sample_polled:
  "range_loop (g_fuel range_ctx) range_ctx sample_range c 1 [0] [(0, 9)] ([(0, 0)], [])
     (sample_consumer_world\<lparr>hist := h\<rparr>) = (Inr ([(0, 5)], [sample_event ''1'']),
     sample_consumer_world\<lparr>hist := ConsumerPoll c (1 / 4) # Monotonic # h\<rparr>)"
  by code_simp

lemma sample_page_cursor:
  "\<not> isl (encode_cursor sample_core sample_digests sample_codec (sample_ref ''a'') ''t'' [(0, 5)] None 7)"
  by code_simp

lemma sample_range_simps [simp]:
  "g_env range_ctx = range_env" "e_raises range_env = (\<lambda>h. None)" "e_monotonic range_env = (\<lambda>h. 0)"
  "e_time_ns range_env = (\<lambda>h. 7000000)" "g_settings range_ctx = sample_settings" "rr_stream sample_range = sample_stream ''a'' ''t''"
  "g_core range_ctx = sample_core" "g_digests range_ctx = sample_digests" "g_codec range_ctx = sample_codec"
  "st_operation_timeout_ms sample_settings = 1000" "quiet_sink range_env"
  by (simp_all add: range_ctx_def range_env_def sample_range_def sample_settings_def sample_consumer_env_def quiet_sink_def)

lemma range_attributes:
  "list_all valid_attribute [(''eventCount'', TInt 1), (''partitionCount'', TInt 1), (''truncated'', TBool a), (''replay'', TBool b)]"
  "valid_key ''meridian.kafka.range.completed''"
proof -
  have "valid_key ''eventCount''" "valid_key ''partitionCount''" "valid_key ''truncated''" "valid_key ''replay''" by code_simp+
  then show "list_all valid_attribute [(''eventCount'', TInt 1), (''partitionCount'', TInt 1), (''truncated'', TBool a), (''replay'', TBool b)]"
    by (simp add: valid_attribute_TBool valid_attribute_TInt small_def)
qed code_simp

lemma sample_ranged:
  "wp (range_body range_ctx sample_range c) (\<lambda>page w'. pg_events page = [sample_event ''1''] \<and> pg_truncated page) (\<lambda>_ _. False)
     (sample_consumer_world\<lparr>hist := h\<rparr>)"
proof -
  obtain cu where cu: "encode_cursor sample_core sample_digests sample_codec (sample_ref ''a'') ''t'' [(0, 5)] None 7 = Inr cu"
    using sample_page_cursor by (metis isl_def sum.exhaust_sel)
  have fin: "wp (range_finish range_ctx sample_range [0] [(0, 9)] ([(0, 5)], [sample_event ''1'']))
      (\<lambda>page w'. pg_events page = [sample_event ''1''] \<and> pg_truncated page) (\<lambda>_ _. False) v" for v :: consumer_world
    using cu
    by (auto simp: range_finish_def Let_def wp_bind wp_now_ms wp_lift wp_ret unread_def dget_def
        intro!: wp_emit_quiet range_attributes)
  have loop: "wp (range_loop (g_fuel range_ctx) range_ctx sample_range c 1 [0] [(0, 9)] ([(0, 0)], []))
      (\<lambda>acc. wp (range_finish range_ctx sample_range [0] [(0, 9)] acc)
        (\<lambda>page w'. pg_events page = [sample_event ''1''] \<and> pg_truncated page) (\<lambda>_ _. False)) (\<lambda>_ _. False)
      (sample_consumer_world\<lparr>hist := h'\<rparr>)" for h'
    unfolding wp_def [of "range_loop _ _ _ _ _ _ _ _"] sample_polled using fin by simp
  have co: "wp (range_coordinates range_ctx sample_range c) Q E (sample_consumer_world\<lparr>hist := h\<rparr>)
      = Q ([0], [(0, 0)], [(0, 9)]) (sample_consumer_world\<lparr>hist := Watermarks c ''t'' 0 # ListTopics c ''t'' # h\<rparr>)" for Q E
    unfolding wp_def sample_located by simp
  show ?thesis
    unfolding range_body_def wp_bind co using loop by (simp add: wp_bind wp_request wp_monotonic push_def)
qed


theorem range_leaves_no_trace_witness:
  "\<exists>page w' cs cfg. range_read range_ctx sample_range sample_consumer_world = (Inr page, w')
    \<and> hist w' = ConsumerClose 1 # cs @ [ConsumerCreate cfg, Uuid]"
proof -
  have w: "hist sample_consumer_world = []" by (simp add: sample_consumer_world_def)
  have "\<not> isl (consumer_config sample_settings ''cl.range.x'' True)" by code_simp
  then obtain cfg where cfg: "consumer_config sample_settings ''cl.range.x'' True = Inr cfg" by (metis isl_def sum.exhaust_sel)
  have cl: "e_text range_env = (\<lambda>h. ''x'')" "st_client_id sample_settings = ''cl''"
    by (simp_all add: range_env_def sample_consumer_env_def sample_settings_def)
  have "wp (range_read range_ctx sample_range) (\<lambda>_ w'. hd (hist w') = ConsumerClose 1) (\<lambda>_ _. False) sample_consumer_world"
    using wp_mono [OF sample_ranged] cfg
    by (simp add: range_read_def wp_simps cl w push_def)
  then obtain page w' where run: "range_read range_ctx sample_range sample_consumer_world = (Inr page, w')"
    and last: "hd (hist w') = ConsumerClose 1" by (auto simp: wp_def split: prod.splits sum.splits)
  show ?thesis using range_leaves_no_trace [OF run] w run last by auto
qed

end
