(* ===== verification/Engines.thy ===== *)
theory Engines
  imports Probe Range
begin

text \<open>
  What the engines of a runtime leave alone. A relation between worlds that survives every call
  but those that begin, commit, abort or initialize a transaction, and every change of what the
  engines themselves remember, is kept by each of their operations: the locale
  \<open>engine_frame\<close> states that contract and proves it of the operations once. It is interpreted on
  the relations the sessions' proofs need: the history grows by such calls only, and a part of
  the world outside the engines is as it was.
\<close>

fun engine_call :: "call \<Rightarrow> bool" where
  "engine_call (BeginTransaction _) = False"
| "engine_call (SendOffsets _ _ _ _) = False"
| "engine_call (CommitTransaction _ _) = False"
| "engine_call (AbortTransaction _ _) = False"
| "engine_call (InitTransactions _ _) = False"
| "engine_call _ = True"

locale engine_frame = op_preorder R
  for R :: "'w consumer_world_scheme \<Rightarrow> 'w consumer_world_scheme \<Rightarrow> bool" +
  fixes stages :: "ctx \<Rightarrow> bool"
  assumes on_call: "engine_call c \<Longrightarrow> R w (push c w)"
    and on_evidence: "R w (w\<lparr>tel_events := evs\<rparr>)"
    and on_cache: "R w (w\<lparr>idempotency := d\<rparr>)"
    and on_stage: "stages g \<Longrightarrow> keeps R (stage_offset g key co tp pt n)"
    and on_group: "R w (w\<lparr>grp := s\<rparr>)"
    and on_states: "R w (w\<lparr>states := ss\<rparr>)"
    and on_closed: "R w (w\<lparr>engine_closed := b\<rparr>)"
begin

lemma ef_mod: "(\<And>w. R w (h w)) \<Longrightarrow> keeps R (modM h)"
  by (simp add: keeps_def modM_def)

lemma ef_calls:
  "engine_call c \<Longrightarrow> keeps R (ask c answer)" "engine_call c \<Longrightarrow> keeps R (request e c answer')"
  "keeps R (monotonic e)" "keeps R (now_ms e)"
  using on_call
  by (auto simp: keeps_def ask_def request_def monotonic_def now_ms_def Let_def split: option.splits)

lemma ef_emit: "keeps R (emit e name as)"
proof -
  have "keep_event ev w = w\<lparr>tel_events := tel_events (keep_event ev w)\<rparr>" for ev and w :: "'w consumer_world_scheme"
    by (simp add: keep_event_def)
  then have "R w (keep_event ev w)" for ev w using on_evidence by metis
  then show ?thesis
    unfolding emit_def Let_def by (intro keeps_rules ef_calls ef_mod; simp)
qed

lemmas ef_basic = keeps_rules ef_calls ef_emit

lemma ef_upd: "keeps R (updM f)"
  unfolding updM_def by (rule ef_mod) (rule on_group)

lemma ef_grp: "keeps R (grpM f)"
  unfolding grpM_def by (rule keeps_pure)

lemma ef_rebalance: "keeps R (on_rebalance g rb)"
  by (cases rb) (auto simp: on_assigned_def on_revoked_def rebalance_evidence_def intro!: ef_basic ef_upd ef_grp)

lemma ef_serving: "engine_call c \<Longrightarrow> keeps R (serving g c answer)"
  unfolding serving_def split_def by (intro ef_basic ef_rebalance)

lemma ef_stored:
  assumes "keeps R m" shows "keeps R (stored key m)"
  unfolding keeps_def
proof
  fix w
  obtain r v where m: "m w = (r, v)" by force
  have "R w v" using assms m by (metis keeps_def snd_conv)
  then show "R w (snd (stored key m w))" using m on_states rel_trans by (auto simp: stored_def)
qed

lemma ef_ensure: "keeps R (ensure_state g cmd)"
  unfolding ensure_state_def by (intro ef_basic ef_mod on_group on_states; simp)

lemma ef_existing: "keeps R (existing_state key)"
  unfolding existing_state_def by (intro ef_basic ef_mod on_group)

text \<open>The operations of the producer.\<close>

lemma ef_produce_loop: "keeps R (produce_loop n g sel cmd ev i dl b)"
proof (induction n arbitrary: b)
  case (Suc n)
  then show ?case
    unfolding produce_loop.simps produce_attempt_def Let_def by (intro ef_basic; simp)
qed (simp add: keeps_pure)

lemma ef_produce_all: "keeps R (produce_all g sel cmd dl xs b)"
  by (induction xs arbitrary: b) (auto simp: produce_one_def split_def intro!: ef_basic ef_produce_loop)

lemma ef_publish: "keeps R (publish g cmd override)"
proof -
  have receipts: "keeps R (make_receipt g cmd x)" for x
    unfolding make_receipt_def split_def by (intro ef_basic; simp)
  have "keeps R (publish_new g sel cmd)" for sel
    unfolding publish_new_def Let_def split_def by (intro ef_basic ef_produce_all receipts; simp)
  then show ?thesis
    unfolding publish_def Let_def remember_def by (intro ef_basic ef_mod on_cache)
qed

lemma ef_producer_close: "keeps R (producer_close g)"
  unfolding producer_close_def by (intro ef_basic; simp)

text \<open>The operations of the group consumer.\<close>

lemma ef_decode: "keeps R (decode_token g cmd)"
  unfolding decode_token_def by (intro ef_basic)

lemma ef_commit_safe:
  assumes "stages g \<or> \<not> tx" shows "keeps R (commit_safe g cmd tx consumer part safe)"
proof (cases tx)
  case True
  then show ?thesis using assms by (simp add: commit_safe_def keeps_bind on_stage ef_upd)
next
  case False
  then show ?thesis by (simp add: commit_safe_def ef_basic ef_upd)
qed

lemma ef_ack_group: "stages g \<or> \<not> tx \<Longrightarrow> keeps R (ack_group g cmd tx)"
  unfolding ack_group_def settle_def settle_from_def Let_def
  by (intro ef_basic ef_decode ef_upd ef_grp ef_commit_safe; simp)

lemma ef_acknowledge: "stages g \<or> \<not> tx \<Longrightarrow> keeps R (acknowledge g cmd tx)"
  unfolding acknowledge_def by (intro keeps_bind ef_existing ef_stored ef_ack_group)

lemma ef_negative: "keeps R (negative_acknowledge g cmd)"
proof -
  have "keeps R (dead_letter g cmd d ev attempt)" for d ev attempt
    unfolding dead_letter_def dead_letter_event_def by (intro ef_basic ef_publish ef_ack_group; simp)
  moreover have "keeps R (schedule_redelivery g cmd co)" for co
    unfolding schedule_redelivery_def Let_def by (intro ef_basic ef_upd ef_grp; simp)
  ultimately show ?thesis
    unfolding negative_acknowledge_def nack_group_def by (intro ef_basic ef_existing ef_stored ef_decode)
qed

lemma ef_poll: "keeps R (poll g cmd)"
proof -
  have deliver: "keeps R (group_deliver g m)" for m
    unfolding group_deliver_def deliver_event_def Let_def by (intro ef_basic ef_upd; simp)
  have resume: "keeps R (resume_due g)"
    unfolding resume_due_def split_def by (intro ef_basic ef_upd; simp)
  have expire: "keeps R (expire_inflight g)"
    unfolding expire_inflight_def Let_def split_def by (intro ef_basic ef_upd; simp)
  have timeout: "keeps R (poll_timeout g cmd t)" for t
    unfolding poll_timeout_def Let_def by (intro ef_basic ef_grp)
  have loop: "keeps R (poll_loop n g cmd dl ds)" for n dl ds
  proof (induction n arbitrary: ds)
    case (Suc n)
    then show ?case
      unfolding poll_loop.simps by (intro ef_basic ef_grp deliver resume expire timeout ef_serving; simp)
  qed (simp add: keeps_pure)
  have lag: "keeps R (lag_of g s parts n)" for s parts n
    by (induction parts arbitrary: n) (auto intro!: ef_basic)
  show ?thesis
    unfolding poll_def poll_group_def group_lag_def by (intro ef_basic ef_ensure ef_stored loop lag)
qed

lemma ef_recover: "keeps R (recover g sub cgr)"
  unfolding recover_def close_consumer_def by (intro ef_basic ef_mod on_group on_states ef_serving; simp)

lemma ef_consumer_close: "keeps R (consumer_close g)"
proof -
  have both: "R w (w\<lparr>engine_closed := True, states := []\<rparr>)" for w
    using on_closed [of w True] on_states [of "w\<lparr>engine_closed := True\<rparr>"] by (rule rel_trans)
  show ?thesis
    unfolding consumer_close_def close_consumer_def split_def by (intro ef_basic ef_mod on_group both ef_serving; simp)
qed

lemma ef_group_position: "keeps R (group_position g cmd)"
proof -
  have fill: "keeps R (fill_committed g consumer topic items result)" for consumer topic items result
  proof (induction items arbitrary: result)
    case (Cons item items)
    then show ?case by (cases item) (auto intro!: ef_basic)
  qed (simp add: keeps_pure)
  have read: "keeps R (read_positions g topic)" for topic
    unfolding read_positions_def committed_positions_def by (intro ef_basic ef_grp fill; simp)
  have "keeps R (decode_positions g v strm)" for v strm
    unfolding decode_positions_def by (intro ef_basic)
  moreover have "keeps R (validate_bounds g consumer topic target)" for consumer topic target
    unfolding validate_bounds_def split_def by (intro ef_basic; simp)
  ultimately show ?thesis
    unfolding group_position_def position_group_def Let_def split_def
    by (intro ef_basic ef_ensure ef_stored ef_grp ef_upd read; simp)
qed

lemma ef_range_read: "keeps R (range_read g cmd)"
proof -
  have marks: "keeps R (range_watermarks g c topic parts acc)" for c topic parts acc
  proof (induction parts arbitrary: acc)
    case (Cons p parts)
    then show ?case by (cases acc) (auto intro!: ef_basic)
  qed (cases, auto intro!: ef_basic)
  have source: "keeps R (range_source g cmd v d)" for v d
    unfolding range_source_def decode_positions_def by (intro ef_basic)
  have loop: "keeps R (range_loop n g cmd c dl parts ends acc)" for n c dl parts ends acc
  proof (induction n arbitrary: acc)
    case (Suc n)
    then show ?case unfolding range_loop.simps by (intro ef_basic; simp)
  qed (simp add: keeps_pure)
  have "keeps R (range_finish g cmd parts ends acc)" for parts ends acc
    unfolding range_finish_def Let_def split_def by (intro ef_basic)
  then have "keeps R (range_body g cmd c)" for c
    unfolding range_body_def range_coordinates_def Let_def split_def by (intro ef_basic marks source loop; simp)
  then show ?thesis unfolding range_read_def by (intro ef_basic; simp)
qed

text \<open>The probe, down to its sockets.\<close>

lemma ef_connection:
  "keeps R (conn_request e cn key version body)" "keeps R (conn_authenticate e cn token)"
proof -
  have timeout: "keeps R (conn_timeout e cn)" for cn
    unfolding conn_timeout_def by (intro ef_basic; simp)
  have loop: "keeps R (conn_read_loop n e cn sz chunks)" for n cn sz chunks
  proof (induction n arbitrary: chunks)
    case 0
    show ?case by (subst conn_read_loop.simps) (auto intro: keeps_pure)
  next
    case (Suc n)
    then show ?case by (subst conn_read_loop.simps) (auto intro!: ef_basic timeout)
  qed
  show req: "keeps R (conn_request e cn key version body)" for cn key version body
    unfolding conn_request_def conn_read_def Let_def by (intro ef_basic timeout loop; simp)
  show "keeps R (conn_authenticate e cn token)"
    unfolding conn_authenticate_def by (intro ef_basic req)
qed

lemma ef_probe_api: "keeps R (probe_api_versions c e d s host port deadline)"
proof -
  have "keeps R (scram c e d cn m u p)" for cn m u p
    unfolding scram_def scram_guard_def scram_exchange_def Let_def split_def by (intro ef_basic ef_connection; simp)
  then have "keeps R (probe_connection c e d s deadline)"
    unfolding probe_connection_def authenticate_def split_def by (intro ef_basic ef_connection)
  then show ?thesis unfolding probe_api_versions_def by (intro ef_basic; simp)
qed

lemma ef_probe: "keeps R (probe g d p admin)"
proof -
  have "keeps R (negotiate_brokers g d deadline brokers n)" for deadline brokers n
  proof (induction brokers arbitrary: n)
    case (Cons e brokers)
    then show ?case
      by (cases e) (auto simp: factory_api_versions_def intro!: ef_basic ef_probe_api)
  qed (simp add: keeps_pure)
  then show ?thesis unfolding probe_def probe_cluster_def Let_def split_def by (intro ef_basic; simp)
qed

end

interpretation engine_calls: engine_frame "calls_only engine_call" "\<lambda>_. True"
proof unfold_locales
  show "keeps (calls_only engine_call) (stage_offset g key co tp pt n)" for g key co tp pt n
    unfolding stage_offset_def by (intro keeps_intros; simp)
  show "calls_only engine_call w (push c w)" if "engine_call c" for c and w :: "'a consumer_world_scheme"
    using that by (rule calls_only_push [where P = engine_call])
qed (simp_all add: calls_only_def)

end
