(* ===== verification/Runtime.thy ===== *)
theory Runtime
  imports Engines
begin

text \<open>
  \<^verbatim>\<open>runtime.py\<close>, \<open>KafkaAdapterFactory\<close> and \<open>KafkaAdapterRuntime\<close>: the object that owns the
  admin client, the probe and the three engines of a Binding, opens and closes them and replaces
  them when credentials rotate. An engine is known by the \<open>ctx\<close> it was built with, the bridge
  also by its producer; what the engines remember (idempotency, staged offsets, group states)
  is in the fields of \<open>consumer_world\<close>, which always belong to the runtime at work. The lock
  is left out: operations run one after the other.
\<close>

section \<open>State\<close>

text \<open>
  The parameters: the functions of Core and Streaming with which results are printed, and
  whether two creation contexts carry the same Binding (equality of a class of Core).
\<close>

record adapter_params =
  ap_ctx :: ctx
  ap_scram :: scram_digests
  ap_spi :: spi
  ap_same_binding :: "create_context \<Rightarrow> create_context \<Rightarrow> bool"
  ap_receipt_dict :: "receipt \<Rightarrow> json"
  ap_delivery_dict :: "group_delivery \<Rightarrow> json"
  ap_page_dict :: "range_page \<Rightarrow> json"
  ap_position_dict :: "position \<Rightarrow> json"

record runtime =
  rt_context :: create_context
  rt_settings :: settings
  rt_admin :: "client option"
  rt_probe :: "(ctx \<times> client) option"
  rt_producer :: "ctx option"
  rt_consumer :: "ctx option"
  rt_bridge :: "(ctx \<times> client) option"
  rt_opened :: bool
  rt_closed :: bool

record session =
  ss_transactional :: bool
  ss_active :: bool
  ss_closed :: bool
  ss_touched :: "(ref \<times> ref) list"

record runtime_world = consumer_world +
  rt :: runtime
  ses :: session

type_synonym ('w, 'a) runtime_op = "(exc, 'w runtime_world_scheme, 'a) op"

definition rtM :: "(runtime \<Rightarrow> 'a) \<Rightarrow> ('w, 'a) runtime_op" where
  "rtM f = getM (\<lambda>w. f (rt w))"

definition set_rt :: "(runtime \<Rightarrow> runtime) \<Rightarrow> ('w, unit) runtime_op" where
  "set_rt f = modM (\<lambda>w. w\<lparr>rt := f (rt w)\<rparr>)"

text \<open>What the engines of a runtime remember.\<close>

record engine_state =
  es_idempotency :: "(string, string \<times> receipt list) dict"
  es_txn_active :: bool
  es_txn_lease :: bool
  es_txn_offsets :: "(string \<times> int, int) dict"
  es_txn_group_metadata :: "group_metadata option"
  es_txn_group_key :: "string option"
  es_states :: "(ref \<times> ref, group_state) dict"
  es_closed :: bool

definition engines_of :: "'w consumer_world_scheme \<Rightarrow> engine_state" where
  "engines_of w = \<lparr>es_idempotency = idempotency w, es_txn_active = txn_active w, es_txn_lease = txn_lease w,
     es_txn_offsets = txn_offsets w, es_txn_group_metadata = txn_group_metadata w, es_txn_group_key = txn_group_key w,
     es_states = states w, es_closed = engine_closed w\<rparr>"

definition put_engines :: "engine_state \<Rightarrow> 'w consumer_world_scheme \<Rightarrow> 'w consumer_world_scheme" where
  "put_engines es w = w\<lparr>idempotency := es_idempotency es, txn_active := es_txn_active es, txn_lease := es_txn_lease es,
     txn_offsets := es_txn_offsets es, txn_group_metadata := es_txn_group_metadata es,
     txn_group_key := es_txn_group_key es, states := es_states es, engine_closed := es_closed es\<rparr>"

definition fresh_engines :: engine_state where
  "fresh_engines = \<lparr>es_idempotency = [], es_txn_active = False, es_txn_lease = False, es_txn_offsets = [],
     es_txn_group_metadata = None, es_txn_group_key = None, es_states = [], es_closed = False\<rparr>"

section \<open>Construction\<close>

definition mk_runtime :: "adapter_params \<Rightarrow> bool \<Rightarrow> bool \<Rightarrow> create_context \<Rightarrow> exc + runtime" where
  "mk_runtime P has_sink has_shared cx =
     bindE (from_context (g_core (ap_ctx P)) (sp_version (ap_spi P)) cx) (\<lambda>s.
     if has_sink \<and> has_shared then Inl (PyExc ValueError)
     else Inr \<lparr>rt_context = cx, rt_settings = s, rt_admin = None, rt_probe = None, rt_producer = None,
       rt_consumer = None, rt_bridge = None, rt_opened = False, rt_closed = False\<rparr>)"

definition factory_create :: "adapter_params \<Rightarrow> bool \<Rightarrow> create_context \<Rightarrow> exc + runtime" where
  "factory_create P has_sink cx = mk_runtime P has_sink False cx"

text \<open>What the engines of a Binding are built with.\<close>

definition engine_ctx :: "adapter_params \<Rightarrow> settings \<Rightarrow> codec \<Rightarrow> client \<Rightarrow> ctx" where
  "engine_ctx P s codec producer = (ap_ctx P)\<lparr>g_settings := s, g_codec := codec, g_producer := producer,
     g_timeout_ms := st_operation_timeout_ms s\<rparr>"

section \<open>Opening and closing\<close>

definition require_open :: "('w, unit) runtime_op" where
  "require_open = bindM (rtM id) (\<lambda>r.
     if \<not> rt_opened r \<or> rt_closed r then throwM (PyExc RuntimeError) else retM ())"

definition require_probe :: "('w, ctx \<times> client) runtime_op" where
  "require_probe =
     bindM require_open (\<lambda>_.
     bindM (rtM rt_probe) (\<lambda>selected. case selected of
       None \<Rightarrow> throwM (PyExc RuntimeError) | Some x \<Rightarrow> retM x))"

definition runtime_probe :: "adapter_params \<Rightarrow> ('w, adapter_probe) runtime_op" where
  "runtime_probe P = bindM require_probe (\<lambda>(g, admin). probe g (ap_scram P) (ap_spi P) admin)"

definition runtime_verify :: "planned_resource list \<Rightarrow> ('w, physical_verification) runtime_op" where
  "runtime_verify resources = bindM require_probe (\<lambda>(g, admin). verify_physical g admin resources)"

definition stripped :: "runtime \<Rightarrow> runtime" where
  "stripped r = r\<lparr>rt_consumer := None, rt_bridge := None, rt_producer := None, rt_probe := None, rt_admin := None\<rparr>"

text \<open>Closing engines in order; the first that raises keeps the rest from being closed.\<close>

definition close_engines :: "ctx option \<Rightarrow> (ctx \<times> client) option \<Rightarrow> ctx option \<Rightarrow> ('w, unit) group_op" where
  "close_engines consumer transaction producer =
     bindM (case consumer of None \<Rightarrow> retM () | Some g \<Rightarrow> consumer_close g) (\<lambda>_.
     bindM (case transaction of None \<Rightarrow> retM () | Some (g, p) \<Rightarrow> txn_close g p) (\<lambda>_.
     case producer of None \<Rightarrow> retM () | Some g \<Rightarrow> producer_close g))"

definition close_components :: "('w, unit) runtime_op" where
  "close_components =
     bindM (rtM id) (\<lambda>r.
     bindM (set_rt stripped) (\<lambda>_.
     close_engines (rt_consumer r) (rt_bridge r) (rt_producer r)))"

text \<open>A producer engine, a consumer engine and a bridge start with empty memories.\<close>

definition new_engines :: "'w consumer_world_scheme \<Rightarrow> 'w consumer_world_scheme" where
  "new_engines w = w\<lparr>idempotency := [], states := [], engine_closed := False\<rparr>"

definition new_bridge :: "'w consumer_world_scheme \<Rightarrow> 'w consumer_world_scheme" where
  "new_bridge w = w\<lparr>txn_active := False, txn_lease := False, txn_offsets := [], txn_group_metadata := None,
     txn_group_key := None\<rparr>"

definition open_transactions :: "adapter_params \<Rightarrow> ctx \<Rightarrow> ('w, unit) runtime_op" where
  "open_transactions P g =
     bindM (liftE (producer_config (g_settings g) True)) (\<lambda>cfg.
     bindM (request (g_env g) (ProducerCreate cfg) (\<lambda>h. length h - 1)) (\<lambda>client.
     bindM (modM new_bridge) (\<lambda>_.
     bindM (set_rt (\<lambda>r. r\<lparr>rt_bridge := Some (g, client)\<rparr>)) (\<lambda>_.
     txn_open g client))))"

definition open_components :: "adapter_params \<Rightarrow> ('w, unit) runtime_op" where
  "open_components P = (let e = g_env (ap_ctx P) in
     bindM (rtM rt_settings) (\<lambda>s.
     bindM (liftE (admin_config s)) (\<lambda>admin_cfg.
     bindM (request e (AdminCreate admin_cfg) (\<lambda>h. length h - 1)) (\<lambda>admin.
     bindM (liftE (producer_config s False)) (\<lambda>producer_cfg.
     bindM (request e (ProducerCreate producer_cfg) (\<lambda>h. length h - 1)) (\<lambda>producer.
     bindM (liftE (cursor_codec (se_cursor_keys (st_secrets s)) (st_cursor_ttl_ms s))) (\<lambda>codec.
     let g = engine_ctx P s codec producer in
     bindM (modM new_engines) (\<lambda>_.
     bindM (set_rt (\<lambda>r. r\<lparr>rt_admin := Some admin, rt_probe := Some (g, admin), rt_producer := Some g,
       rt_consumer := Some g\<rparr>)) (\<lambda>_.
     bindM (probe g (ap_scram P) (ap_spi P) admin) (\<lambda>_.
     bindM (whenM (transaction_enabled s) (open_transactions P g)) (\<lambda>_.
     bindM (set_rt (\<lambda>r. r\<lparr>rt_opened := True\<rparr>)) (\<lambda>_.
     emit e ''meridian.kafka.runtime.opened''
       [(''transactionEnabled'', TBool (transaction_enabled s)),
        (''resourceCount'', TInt (int (length (st_resources s))))]))))))))))))"

definition open_runtime :: "adapter_params \<Rightarrow> ('w, unit) runtime_op" where
  "open_runtime P =
     bindM (rtM id) (\<lambda>r.
     if rt_opened r \<or> rt_closed r then throwM (PyExc RuntimeError)
     else exceptM (open_components P) (\<lambda>x. bindM close_components (\<lambda>_. throwM x)))"

definition close_runtime :: "adapter_params \<Rightarrow> ('w, unit) runtime_op" where
  "close_runtime P =
     bindM (rtM rt_closed) (\<lambda>closed.
     if closed then retM ()
     else bindM (set_rt (\<lambda>r. r\<lparr>rt_closed := True\<rparr>)) (\<lambda>_.
       bindM close_components (\<lambda>_.
       emit (g_env (ap_ctx P)) ''meridian.kafka.runtime.closed'' [(''closed'', TBool True)])))"

definition open_session :: "bool \<Rightarrow> ('w, session) runtime_op" where
  "open_session transactional =
     bindM require_open (\<lambda>_.
     bindM (rtM rt_bridge) (\<lambda>bridge.
     if transactional \<and> bridge = None then throwM (raised_retryable KafkaTransactionAborted False)
     else retM \<lparr>ss_transactional = transactional, ss_active = False, ss_closed = False, ss_touched = []\<rparr>))"

section \<open>Rotation of credentials\<close>

text \<open>
  The replacement is a runtime of its own: it works on its own engines' memories, and the calls
  it makes are made in between. What is left of it when it returns is its object and those
  memories.
\<close>

definition on_replacement :: "runtime \<Rightarrow> ('w, unit) runtime_op \<Rightarrow> ('w, runtime \<times> engine_state) runtime_op" where
  "on_replacement new m = (\<lambda>w. case m (put_engines fresh_engines (w\<lparr>rt := new\<rparr>)) of
     (r, w') \<Rightarrow> (case r of Inl x \<Rightarrow> Inl x | Inr _ \<Rightarrow> Inr (rt w', engines_of w'),
       put_engines (engines_of w) (w'\<lparr>rt := rt w\<rparr>)))"

definition open_replacement :: "adapter_params \<Rightarrow> ('w, unit) runtime_op" where
  "open_replacement P =
     bindM (open_runtime P) (\<lambda>_.
     exceptM (bindM (runtime_probe P) (\<lambda>_. retM ())) (\<lambda>x. bindM (close_runtime P) (\<lambda>_. throwM x)))"

text \<open>The engines taken out are closed with their own memories; those put in are not touched.\<close>

definition with_engines :: "engine_state \<Rightarrow> ('w, 'a) group_op \<Rightarrow> ('w, 'a) group_op" where
  "with_engines es m = (\<lambda>w. case m (put_engines es w) of (r, w') \<Rightarrow> (r, put_engines (engines_of w) w'))"

definition swapped :: "runtime \<Rightarrow> runtime \<Rightarrow> runtime" where
  "swapped new r = r\<lparr>rt_context := rt_context new, rt_settings := rt_settings new, rt_admin := rt_admin new,
     rt_probe := rt_probe new, rt_producer := rt_producer new, rt_consumer := rt_consumer new, rt_bridge := rt_bridge new\<rparr>"

definition rotate_credentials :: "adapter_params \<Rightarrow> create_context \<Rightarrow> ('w, unit) runtime_op" where
  "rotate_credentials P cx =
     bindM (liftE (mk_runtime P False True cx)) (\<lambda>replacement.
     bindM (rtM id) (\<lambda>old.
     if \<not> ap_same_binding P cx (rt_context old) then throwM (raised KafkaConfigurationError)
     else bindM (on_replacement replacement (open_replacement P)) (\<lambda>(new, es).
       bindM require_open (\<lambda>_.
       bindM (getM engines_of) (\<lambda>old_es.
       bindM (set_rt (swapped new)) (\<lambda>_.
       bindM (modM (put_engines es)) (\<lambda>_.
       bindM (with_engines old_es (close_engines (rt_consumer old) (rt_bridge old) (rt_producer old))) (\<lambda>_.
       emit (g_env (ap_ctx P)) ''meridian.kafka.credentials.rotated'' [(''validated'', TBool True)]))))))))"

end
