(* ===== verification/Session.thy ===== *)
theory Session
  imports Runtime
begin

text \<open>
  \<^verbatim>\<open>runtime.py\<close>, \<open>KafkaAdapterSession\<close>: a session runs compiled commands on the engines of its
  runtime, inside a transaction when it has begun one. The session at work is the field \<open>ses\<close>
  of the world; the set of touched groups is a list, closed in the order they were touched
  (Python leaves the order open).
\<close>

section \<open>Requests and results\<close>

record execution_request =
  er_operation :: operation
  er_tenant :: "string option"
  er_attempt :: int
  er_registry_revision :: int
  er_request_fingerprint :: string

record execution_result =
  xr_data :: json
  xr_bytes :: nat
  xr_provenance :: "(string, string) dict"

definition sesM :: "(session \<Rightarrow> 'a) \<Rightarrow> ('w, 'a) runtime_op" where
  "sesM f = getM (\<lambda>w. f (ses w))"

definition set_ses :: "(session \<Rightarrow> session) \<Rightarrow> ('w, unit) runtime_op" where
  "set_ses f = modM (\<lambda>w. w\<lparr>ses := f (ses w)\<rparr>)"

abbreviation aborted :: exc where
  "aborted \<equiv> raised KafkaTransactionAborted"

section \<open>The engines of the runtime\<close>

definition ensure_open :: "('w, unit) runtime_op" where
  "ensure_open = bindM (sesM ss_closed) (\<lambda>closed.
     if closed then throwM (PyExc RuntimeError) else require_open)"

definition producer_engine :: "('w, ctx) runtime_op" where
  "producer_engine = bindM (rtM rt_producer) (\<lambda>selected. case selected of
     None \<Rightarrow> throwM (PyExc RuntimeError) | Some g \<Rightarrow> retM g)"

definition consumer_engine :: "('w, ctx) runtime_op" where
  "consumer_engine = bindM (rtM rt_consumer) (\<lambda>selected. case selected of
     None \<Rightarrow> throwM (PyExc RuntimeError) | Some g \<Rightarrow> retM g)"

definition the_bridge :: "('w, ctx \<times> client) runtime_op" where
  "the_bridge = bindM (rtM rt_bridge) (\<lambda>selected. case selected of
     None \<Rightarrow> throwM aborted | Some b \<Rightarrow> retM b)"

definition touch :: "ref \<times> ref \<Rightarrow> ('w, unit) runtime_op" where
  "touch key = set_ses (\<lambda>s. s\<lparr>ss_touched := (if key \<in> set (ss_touched s) then ss_touched s else ss_touched s @ [key])\<rparr>)"

definition clear_touched :: "('w, unit) runtime_op" where
  "clear_touched = set_ses (\<lambda>s. s\<lparr>ss_touched := []\<rparr>)"

definition recover_touched :: "('w, unit) runtime_op" where
  "recover_touched =
     bindM consumer_engine (\<lambda>g.
     bindM (sesM ss_touched) (\<lambda>touched.
     forM touched (\<lambda>(sub, cgr). recover g sub cgr)))"

section \<open>Transactions of a session\<close>

definition session_begin :: "('w, unit) runtime_op" where
  "session_begin =
     bindM ensure_open (\<lambda>_.
     bindM (sesM id) (\<lambda>s.
     if \<not> ss_transactional s then throwM aborted
     else if ss_active s then throwM aborted
     else bindM the_bridge (\<lambda>(g, p).
       bindM (txn_begin g p) (\<lambda>_.
       set_ses (\<lambda>s. s\<lparr>ss_active := True\<rparr>)))))"

definition session_commit :: "('w, unit) runtime_op" where
  "session_commit =
     bindM ensure_open (\<lambda>_.
     bindM (sesM ss_active) (\<lambda>active.
     if \<not> active then throwM aborted
     else alwaysM
       (exceptM (bindM the_bridge (\<lambda>(g, p). txn_commit g p)) (\<lambda>x. bindM recover_touched (\<lambda>_. throwM x)))
       (set_ses (\<lambda>s. s\<lparr>ss_active := False, ss_touched := []\<rparr>))))"

definition session_rollback :: "('w, unit) runtime_op" where
  "session_rollback =
     bindM ensure_open (\<lambda>_.
     bindM (sesM ss_active) (\<lambda>active.
     if \<not> active then retM ()
     else alwaysM
       (bindM the_bridge (\<lambda>(g, p). txn_abort g p))
       (bindM (set_ses (\<lambda>s. s\<lparr>ss_active := False\<rparr>)) (\<lambda>_.
        bindM recover_touched (\<lambda>_. clear_touched)))))"

definition session_close :: "('w, unit) runtime_op" where
  "session_close =
     bindM (sesM id) (\<lambda>s.
     if ss_closed s then retM ()
     else bindM (whenM (ss_active s) session_rollback) (\<lambda>_.
       set_ses (\<lambda>s. s\<lparr>ss_closed := True\<rparr>)))"

section \<open>Dispatch\<close>

definition ack_json :: "adapter_params \<Rightarrow> ack_result \<Rightarrow> json" where
  "ack_json P a = JObj [(''acknowledged'', JBool True), (''committed'', JBool (ar_committed a)),
     (''safePosition'', ap_position_dict P (ar_safe_position a))]"

fun nack_json :: "nack_result \<Rightarrow> json" where
  "nack_json (DeadLettered eid committed) = JObj [(''redeliveryScheduled'', JBool False), (''deadLettered'', JBool True),
     (''targetEventId'', JStr eid), (''sourceCommitted'', JBool committed)]"
| "nack_json (RedeliveryScheduled attempt retry_after) = JObj [(''redeliveryScheduled'', JBool True),
     (''deadLettered'', JBool False), (''nextAttempt'', JInt attempt), (''retryAfterMs'', JInt retry_after)]"

definition position_json :: "string \<times> string \<Rightarrow> json" where
  "position_json = (\<lambda>(old_fp, new_fp). JObj [(''previousFingerprint'', JStr old_fp), (''newFingerprint'', JStr new_fp)])"

definition subscribe_json :: "ctx \<Rightarrow> subscribe_command \<Rightarrow> exc + json" where
  "subscribe_json g cmd =
     bindE (sha256_fingerprint (g_digests g) (JObj [(''stream'', JStr (ps_resource_fingerprint (sc_stream cmd))),
       (''subscription'', JStr (sub_resource_fingerprint (sc_subscription cmd)))])) (\<lambda>fp.
     Inr (JObj [(''validated'', JBool True), (''subscription'', JStr (ref_str (g_core g) (sub_ref (sc_subscription cmd)))),
       (''stream'', JStr (ref_str (g_core g) (ps_ref (sc_stream cmd)))), (''physicalFingerprint'', JStr fp),
       (''lifecycleOwner'', JStr ''iac'')]))"

definition schema_matches :: "validate_schema_command \<Rightarrow> physical_resource \<Rightarrow> bool" where
  "schema_matches cmd item = (case item of
     PhysicalStream strm \<Rightarrow> sr_namespace (ps_schema_ref strm) = vs_namespace cmd
       \<and> sr_name (ps_schema_ref strm) = vs_name cmd \<and> sr_version (ps_schema_ref strm) = vs_version cmd
   | _ \<Rightarrow> False)"

definition validate_schema :: "settings \<Rightarrow> execution_request \<Rightarrow> validate_schema_command \<Rightarrow> exc + json" where
  "validate_schema s req cmd =
     (if vs_allow_breaking cmd then Inl (migration ''schema.lifecycle-authority'')
      else if vs_expected_registry_revision cmd \<noteq> None
        \<and> vs_expected_registry_revision cmd \<noteq> Some (er_registry_revision req)
      then Inl (migration ''schema.registry-revision'')
      else let matching = filter (schema_matches cmd) (map snd (st_resources s)) in
        if matching = [] then Inl (migration ''schema.migration'')
        else Inr (JObj [(''validated'', JBool True), (''registryRevision'', JInt (er_registry_revision req)),
          (''bindingCount'', JInt (int (length matching))), (''lifecycleOwner'', JStr ''iac'')]))"

definition validate_resource_json :: "core \<Rightarrow> validate_resource_command \<Rightarrow> json" where
  "validate_resource_json c cmd = JObj [(''validated'', JBool True), (''resource'', JStr (ref_str c (physical_ref (vr_resource cmd)))),
     (''resourceType'', JStr (vr_resource_type cmd)),
     (''resourceFingerprint'', JStr (resource_fingerprint_of (vr_resource cmd))), (''lifecycleOwner'', JStr ''iac'')]"

definition publish_json :: "adapter_params \<Rightarrow> publish_command \<Rightarrow> receipt list \<Rightarrow> exc + json" where
  "publish_json P cmd receipts = (let values = map (ap_receipt_dict P) receipts in
     if pub_batch cmd then Inr (JList values)
     else case values of [] \<Rightarrow> Inl (PyExc (OtherError ''IndexError'')) | v # _ \<Rightarrow> Inr v)"

text \<open>The events of the outputs, inside the transaction of the bridge.\<close>

fun publish_outputs :: "client \<Rightarrow> publish_command list \<Rightarrow> receipt list \<Rightarrow> ('w, receipt list) runtime_op" where
  "publish_outputs p [] receipts = retM receipts"
| "publish_outputs p (out # outputs) receipts =
     bindM producer_engine (\<lambda>g.
     bindM (txn_producer p) (\<lambda>selected.
     bindM (publish g out (Some selected)) (\<lambda>rs.
     publish_outputs p outputs (receipts @ rs))))"

definition transactional_ack :: "transactional_command \<Rightarrow> acknowledge_command" where
  "transactional_ack cmd = \<lparr>ack_subscription = poll_subscription (tx_poll cmd),
     ack_consumer_group = poll_consumer_group (tx_poll cmd), ack_stream = poll_stream (tx_poll cmd),
     ack_delivery = tx_delivery cmd\<rparr>"

definition transactional_body :: "adapter_params \<Rightarrow> ctx \<Rightarrow> client \<Rightarrow> bool \<Rightarrow> transactional_command \<Rightarrow> ('w, json) runtime_op" where
  "transactional_body P g p owns cmd =
     bindM (publish_outputs p (tx_outputs cmd) []) (\<lambda>receipts.
     bindM consumer_engine (\<lambda>cg.
     bindM (acknowledge cg (transactional_ack cmd) True) (\<lambda>ack.
     bindM (whenM owns (bindM (txn_commit g p) (\<lambda>_. clear_touched))) (\<lambda>_.
     retM (JObj [(''receipts'', JList (map (ap_receipt_dict P) receipts)), (''acknowledgement'', ack_json P ack),
       (''transactional'', JBool True)])))))"

definition transactional_failed :: "ctx \<Rightarrow> client \<Rightarrow> bool \<Rightarrow> exc \<Rightarrow> ('w, json) runtime_op" where
  "transactional_failed g p owns x =
     bindM (getM txn_active) (\<lambda>active.
     bindM (whenM (owns \<and> active) (txn_abort g p)) (\<lambda>_.
     bindM recover_touched (\<lambda>_.
     bindM clear_touched (\<lambda>_. throwM x))))"

definition execute_transactional :: "adapter_params \<Rightarrow> transactional_command \<Rightarrow> ('w, json) runtime_op" where
  "execute_transactional P cmd =
     bindM the_bridge (\<lambda>(g, p).
     bindM (sesM ss_active) (\<lambda>active. let owns = \<not> active in
     bindM (whenM owns (txn_begin g p)) (\<lambda>_.
     bindM (touch (state_key (tx_poll cmd))) (\<lambda>_.
     exceptM (transactional_body P g p owns cmd) (transactional_failed g p owns)))))"

definition dispatch :: "adapter_params \<Rightarrow> compiled_command \<Rightarrow> execution_request \<Rightarrow> ('w, json) runtime_op" where
  "dispatch P cmd req =
     bindM producer_engine (\<lambda>pg.
     bindM consumer_engine (\<lambda>cg.
     bindM (sesM ss_active) (\<lambda>active.
     bindM (if active then bindM the_bridge (\<lambda>b. retM (Some b)) else retM None) (\<lambda>bridge.
     case cmd of
       PublishCommand c \<Rightarrow>
         bindM (case bridge of None \<Rightarrow> retM None | Some (g, p) \<Rightarrow> bindM (txn_producer p) (\<lambda>q. retM (Some q))) (\<lambda>selected.
         bindM (publish pg c selected) (\<lambda>receipts. liftE (publish_json P c receipts)))
     | SubscribeCommand c \<Rightarrow> liftE (subscribe_json (ap_ctx P) c)
     | PollCommand c \<Rightarrow> bindM (poll cg c) (\<lambda>ds. retM (JList (map (ap_delivery_dict P) ds)))
     | NegativeAcknowledgeCommand c \<Rightarrow>
         if bridge \<noteq> None then throwM aborted
         else bindM (negative_acknowledge cg c) (\<lambda>r. retM (nack_json r))
     | AcknowledgeCommand c \<Rightarrow>
         bindM (whenM (bridge \<noteq> None) (touch (ack_key c))) (\<lambda>_.
         bindM (acknowledge cg c (bridge \<noteq> None)) (\<lambda>r. retM (ack_json P r)))
     | ReadRangeCommand c \<Rightarrow> bindM (range_read cg c) (\<lambda>page. retM (ap_page_dict P page))
     | GroupPositionCommand c \<Rightarrow>
         if bridge \<noteq> None then throwM aborted
         else bindM (group_position cg c) (\<lambda>r. retM (position_json r))
     | ValidateSchemaCommand c \<Rightarrow> bindM (rtM rt_settings) (\<lambda>s. liftE (validate_schema s req c))
     | ValidateResourceCommand c \<Rightarrow> retM (validate_resource_json (g_core (ap_ctx P)) c)
     | TransactionalConsumePublishCommand c \<Rightarrow> execute_transactional P c))))"

section \<open>Execution\<close>

definition execution_provenance :: "settings \<Rightarrow> string \<Rightarrow> execution_request \<Rightarrow> (string, string) dict" where
  "execution_provenance s capability req =
     [(''adapterId'', ADAPTER_ID), (''capabilityFingerprint'', capability), (''engineProfile'', st_engine_profile s),
      (''engineVersion'', st_engine_version s), (''operationFingerprint'', er_request_fingerprint req)]"

definition execute_command :: "adapter_params \<Rightarrow> execution_request \<Rightarrow> ('w, json) runtime_op" where
  "execute_command P req =
     bindM (rtM rt_settings) (\<lambda>s.
     bindM (liftE (compile (g_core (ap_ctx P)) s (er_operation req))) (\<lambda>command. dispatch P command req))"

definition execution_report :: "adapter_params \<Rightarrow> execution_request \<Rightarrow> json \<Rightarrow> ('w, execution_result) runtime_op" where
  "execution_report P req data =
     bindM (sesM ss_active) (\<lambda>active.
     bindM (emit (g_env (ap_ctx P)) ''meridian.kafka.operation.completed''
       [(''operationContract'', TText (op_contract (er_operation req))), (''transactional'', TBool active)]) (\<lambda>_.
     bindM (runtime_probe P) (\<lambda>pr.
     bindM (liftE (canonical_json_bytes data)) (\<lambda>bytes.
     bindM (rtM rt_settings) (\<lambda>s.
     retM \<lparr>xr_data = data, xr_bytes = length bytes,
       xr_provenance = execution_provenance s (sp_manifest_fingerprint (ap_spi P) (ap_manifest pr)) req\<rparr>)))))"

definition execute :: "adapter_params \<Rightarrow> execution_request \<Rightarrow> ('w, execution_result) runtime_op" where
  "execute P req =
     bindM ensure_open (\<lambda>_.
     bindM (sesM id) (\<lambda>s.
     if ss_transactional s \<and> \<not> ss_active s then throwM aborted
     else if er_tenant req = None then throwM (raised_for StreamingPolicyDenied ''operation.tenant'')
     else let contract = op_contract (er_operation req) in
       bindM (emit (g_env (ap_ctx P)) ''meridian.kafka.operation.started''
         [(''operationContract'', TText contract), (''attempt'', TInt (er_attempt req))]) (\<lambda>_.
       bindM (adaptedM (g_attrs (ap_ctx P)) contract (execute_command P req)) (execution_report P req))))"

end
