(* ===== verification/Session_Safety.thy ===== *)
theory Session_Safety
  imports Session
begin

text \<open>
  What holds of the sessions of a runtime, however their operations are interleaved: at most one
  of them has a transaction, and the bridge is used as its protocol asks.
\<close>

section \<open>What a session's operation changes\<close>

text \<open>The runtime, whether the session at work is active, and the bridge's flags.\<close>

definition status :: "'w runtime_world_scheme \<Rightarrow> runtime \<times> bool \<times> bool \<times> bool" where
  "status w = (rt w, ss_active (ses w), txn_active w, txn_lease w)"

lemma status_updates [simp]:
  "status (w\<lparr>hist := h\<rparr>) = status w" "status (w\<lparr>tel_events := evs\<rparr>) = status w"
  "status (w\<lparr>idempotency := d\<rparr>) = status w" "status (w\<lparr>grp := s\<rparr>) = status w"
  "status (w\<lparr>states := ss\<rparr>) = status w" "status (w\<lparr>engine_closed := b\<rparr>) = status w"
  "status (w\<lparr>txn_offsets := offsets\<rparr>) = status w" "status (w\<lparr>txn_group_metadata := md\<rparr>) = status w"
  "status (w\<lparr>txn_group_key := k\<rparr>) = status w"
  by (simp_all only: status_def) simp_all

lemma ignores_status [simp, intro]: "ignores_calls status"
  by (simp add: ignores_calls_def)

interpretation statuses: engine_frame "unchanged status" "\<lambda>_. True"
proof unfold_locales
  show "keeps (unchanged status) (stage_offset g key co tp pt n)" for g key co tp pt n
    unfolding stage_offset_def staged_def by (intro keeps_intros ignores_status) simp_all
qed (simp_all add: unchanged_def)

lemma touched_status:
  "keeps (unchanged status) (touch key)" "keeps (unchanged status) clear_touched"
  unfolding touch_def clear_touched_def set_ses_def by (intro keeps_intros; simp add: status_def)+

lemma reading_status:
  "keeps (unchanged status) (rtM f)" "keeps (unchanged status) (sesM h)"
  unfolding rtM_def sesM_def by (rule keeps_intros)+

lemma parts_status:
  "keeps (unchanged status) ensure_open" "keeps (unchanged status) require_open"
  "keeps (unchanged status) the_bridge" "keeps (unchanged status) producer_engine"
  "keeps (unchanged status) consumer_engine"
  unfolding ensure_open_def require_open_def the_bridge_def producer_engine_def consumer_engine_def
  by (intro keeps_intros reading_status)+

lemma recover_status: "keeps (unchanged status) recover_touched"
  unfolding recover_touched_def by (intro keeps_intros reading_status parts_status statuses.ef_recover)

lemma txn_producer_status: "keeps (unchanged status) (txn_producer p)"
  unfolding txn_producer_def by (intro keeps_intros)

lemma outputs_status: "keeps (unchanged status) (publish_outputs p outs rs)"
  by (induction outs arbitrary: rs) (auto intro!: keeps_intros parts_status txn_producer_status statuses.ef_publish)

lemma wp_true: "wp m (\<lambda>_ _. True) (\<lambda>_ _. True) s"
  by (simp add: wp_def split: prod.split sum.split)

lemma wp_status: "keeps (unchanged status) m \<Longrightarrow> wp m (\<lambda>_ t. status t = status s) (\<lambda>_ t. status t = status s) s"
  by (auto simp: wp_def unchanged_def split: prod.split sum.split dest: keepsD)

subsection \<open>The operations of the bridge\<close>

definition held :: "'w runtime_world_scheme \<Rightarrow> runtime \<times> session" where
  "held w = (rt w, ses w)"

lemma held_updates [simp]:
  "held (w\<lparr>hist := h\<rparr>) = held w" "held (w\<lparr>tel_events := evs\<rparr>) = held w"
  "held (w\<lparr>txn_active := a\<rparr>) = held w" "held (w\<lparr>txn_lease := a\<rparr>) = held w"
  "held (cleared w) = held w" "held (txn_finish w) = held w"
  by (simp_all only: held_def cleared_def txn_finish_def) simp_all

lemma ignores_held [simp, intro]: "ignores_calls held"
  by (simp add: ignores_calls_def)

lemma bridge_held:
  "keeps (unchanged held) (txn_begin g p)" "keeps (unchanged held) (txn_commit g p)"
  "keeps (unchanged held) (txn_abort g p)"
  unfolding txn_begin_def txn_commit_def txn_abort_def send_staged_def
  by (intro keeps_intros ignores_held held_updates)+

lemma begin_status:
  assumes "quiet_sink (g_env g)" and "txn_lease w = txn_active w"
  shows "wp (txn_begin g p) (\<lambda>_ u. \<not> txn_active w \<and> status u = (rt w, ss_active (ses w), True, True))
    (\<lambda>x u. x \<noteq> Diverged \<longrightarrow> status u = status w) w"
  using assms
  by (auto simp: txn_begin_def wp_simps cleared_def status_def push_def split: option.splits intro!: wp_emit_txn)

text \<open>A commit and an abort of an active bridge leave it idle, whatever else happens.\<close>

lemma wp_finished:
  assumes "wp m (\<lambda>x t. Q x (f t)) (\<lambda>x t. x \<noteq> Diverged \<longrightarrow> E x (f t)) s"
  shows "wp (alwaysM m (modM f)) Q (\<lambda>x t. x \<noteq> Diverged \<longrightarrow> E x t) s"
  unfolding wp_always by (rule wp_mono [OF assms]) (auto simp: wp_mod)

lemma finished_status:
  fixes w :: "'w runtime_world_scheme"
  assumes "txn_active w"
  shows "wp (txn_commit g p) (\<lambda>_ u. \<not> txn_active u \<and> \<not> txn_lease u)
      (\<lambda>x u. x \<noteq> Diverged \<longrightarrow> \<not> txn_active u \<and> \<not> txn_lease u) w"
    "wp (txn_abort g p) (\<lambda>_ u. \<not> txn_active u \<and> \<not> txn_lease u)
      (\<lambda>x u. x \<noteq> Diverged \<longrightarrow> \<not> txn_active u \<and> \<not> txn_lease u) w"
proof -
  have "\<not> txn_active (txn_finish v) \<and> \<not> txn_lease (txn_finish v)" for v :: "'w runtime_world_scheme"
    by (simp add: txn_finish_def cleared_def)
  then have fin: "wp (alwaysM m (modM txn_finish)) (\<lambda>_ u. \<not> txn_active u \<and> \<not> txn_lease u)
      (\<lambda>x u. x \<noteq> Diverged \<longrightarrow> \<not> txn_active u \<and> \<not> txn_lease u) v"
    for m :: "(exc, 'w runtime_world_scheme, unit) op" and v
    by (intro wp_finished wp_mono [OF wp_true]) simp_all
  show "wp (txn_commit g p) (\<lambda>_ u. \<not> txn_active u \<and> \<not> txn_lease u)
      (\<lambda>x u. x \<noteq> Diverged \<longrightarrow> \<not> txn_active u \<and> \<not> txn_lease u) w"
    unfolding txn_commit_def wp_bind [of "getM txn_active"] wp_get using assms fin by simp
  show "wp (txn_abort g p) (\<lambda>_ u. \<not> txn_active u \<and> \<not> txn_lease u)
      (\<lambda>x u. x \<noteq> Diverged \<longrightarrow> \<not> txn_active u \<and> \<not> txn_lease u) w"
    unfolding txn_abort_def wp_bind [of "getM txn_active"] wp_get using assms fin by (simp add: whenM_def)
qed

lemma ended_status:
  fixes w :: "'w runtime_world_scheme"
  assumes "txn_active w" and "m = txn_commit g p \<or> m = txn_abort g p"
  shows "wp m (\<lambda>_ u. status u = (rt w, ss_active (ses w), False, False))
    (\<lambda>x u. x \<noteq> Diverged \<longrightarrow> status u = (rt w, ss_active (ses w), False, False)) w"
proof -
  have "wp m (\<lambda>_ u. \<not> txn_active u \<and> \<not> txn_lease u) (\<lambda>x u. x \<noteq> Diverged \<longrightarrow> \<not> txn_active u \<and> \<not> txn_lease u) w"
    using assms(2) finished_status [OF assms(1)] by blast
  moreover have "wp m (\<lambda>_. unchanged held w) (\<lambda>_. unchanged held w) w"
    using assms(2) bridge_held by (blast intro: keeps_wp)
  ultimately show ?thesis
    by (rule wp_mono [OF wp_conj]) (auto simp: unchanged_def held_def status_def)
qed

subsection \<open>Operations that restore the status\<close>

text \<open>With the bridge in order and a quiet sink, an operation that ends leaves the status as it was.\<close>

definition calm :: "'w runtime_world_scheme \<Rightarrow> bool" where
  "calm w \<longleftrightarrow> txn_lease w = txn_active w
     \<and> (case rt_bridge (rt w) of None \<Rightarrow> True | Some (g, _) \<Rightarrow> quiet_sink (g_env g))"

lemma calm_status: "status u = status w \<Longrightarrow> calm u = calm w"
  by (simp add: calm_def status_def)

definition restores :: "('w, 'a) runtime_op \<Rightarrow> bool" where
  "restores m \<longleftrightarrow> (\<forall>w. calm w \<longrightarrow>
     wp m (\<lambda>_ u. status u = status w) (\<lambda>x u. x \<noteq> Diverged \<longrightarrow> status u = status w) w)"

lemma restores_wp: "restores m \<Longrightarrow> calm w \<Longrightarrow> status w = s \<Longrightarrow>
    wp m (\<lambda>_ u. status u = s) (\<lambda>x u. x \<noteq> Diverged \<longrightarrow> status u = s) w"
  by (auto simp: restores_def)

lemma restores_keeps: "keeps (unchanged status) m \<Longrightarrow> restores m"
  unfolding restores_def by (auto intro!: wp_mono [OF wp_status])

lemma restores_bind:
  fixes m :: "('w, 'a) runtime_op"
  assumes "restores m" and "\<And>x. restores (f x)" shows "restores (bindM m f)"
  unfolding restores_def wp_bind
proof (intro allI impI)
  fix w :: "'w runtime_world_scheme"
  assume w: "calm w"
  have "wp (f x) (\<lambda>_ u. status u = status w) (\<lambda>x u. x \<noteq> Diverged \<longrightarrow> status u = status w) u"
    if "status u = status w" for x u
    by (rule restores_wp [OF assms(2) _ that]) (use calm_status [OF that] w in simp)
  then show "wp m (\<lambda>x. wp (f x) (\<lambda>_ u. status u = status w) (\<lambda>x u. x \<noteq> Diverged \<longrightarrow> status u = status w))
      (\<lambda>x u. x \<noteq> Diverged \<longrightarrow> status u = status w) w"
    by (rule wp_mono [OF restores_wp [OF assms(1) w refl]]) simp_all
qed

lemma restores_if: "restores m \<Longrightarrow> restores n \<Longrightarrow> restores (if b then m else n)"
  by simp

lemma restores_adapted:
  assumes "restores m" shows "restores (adaptedM a contract m)"
  unfolding restores_def wp_adapted by (intro allI impI wp_mono [OF restores_wp [OF assms _ refl]]) auto

text \<open>One operation after another that keeps the status.\<close>

lemma wp_after:
  assumes "keeps (unchanged status) m"
    and "\<And>x u. status u = status w \<Longrightarrow> wp (f x) Q E u" and "\<And>x u. status u = status w \<Longrightarrow> E x u"
  shows "wp (bindM m f) Q E w"
  unfolding wp_bind using assms(2,3) by (intro wp_mono [OF wp_status [OF assms(1)]])

section \<open>The operations of a session\<close>

lemma wp_marked:
  assumes "status v = s" and "\<And>u. status u = s \<Longrightarrow> Q () u"
  shows "wp (touch key) Q E v" and "wp clear_touched Q E v"
  using assms by (simp_all add: touch_def clear_touched_def set_ses_def wp_mod status_def)

lemma body_status:
  assumes "status w = (r, a, True, True)"
  shows "wp (transactional_body P g p True cmd) (\<lambda>_ u. status u = (r, a, False, False))
    (\<lambda>x u. x \<noteq> Diverged \<longrightarrow> status u = (r, a, True, True) \<or> status u = (r, a, False, False)) w"
proof -
  have commit: "wp (txn_commit g p) (\<lambda>_ u. status u = (r, a, False, False))
      (\<lambda>x u. x \<noteq> Diverged \<longrightarrow> status u = (r, a, False, False)) u" if "status u = (r, a, True, True)"
    for u :: "'a runtime_world_scheme"
    using that ended_status [of u "txn_commit g p" g p] by (auto simp: status_def)
  show ?thesis
    unfolding transactional_body_def
    by (intro wp_after [OF outputs_status] wp_after [OF parts_status(5)] wp_after [OF statuses.ef_acknowledge])
      (auto simp: assms wp_simps intro!: wp_mono [OF commit] wp_marked(2) [where s = "(r, a, False, False)"])
qed

lemma failed_status:
  assumes "status w = (r, a, True, True) \<or> status w = (r, a, False, False)"
  shows "wp (transactional_failed g p True x) (\<lambda>_ _. False) (\<lambda>x u. x \<noteq> Diverged \<longrightarrow> status u = (r, a, False, False)) w"
proof -
  have abort: "wp (txn_abort g p) (\<lambda>_ u. status u = (r, a, False, False))
      (\<lambda>x u. x \<noteq> Diverged \<longrightarrow> status u = (r, a, False, False)) u" if "status u = (r, a, True, True)"
    for u :: "'a runtime_world_scheme"
    using that ended_status [of u "txn_abort g p" g p] by (auto simp: status_def)
  have "wp (bindM recover_touched (\<lambda>_. bindM clear_touched (\<lambda>_. throwM x))) (\<lambda>_ _. False)
      (\<lambda>x u. x \<noteq> Diverged \<longrightarrow> status u = (r, a, False, False)) v" if "status v = (r, a, False, False)"
    for v :: "'a runtime_world_scheme"
    using that by (intro wp_after [OF recover_status] wp_after [OF touched_status(2)]) (auto simp: wp_throw)
  then show ?thesis
    unfolding transactional_failed_def wp_bind [of "getM txn_active"] wp_get wp_bind [of "whenM _ _"] wp_when
    using assms by (auto simp: status_def intro!: wp_mono [OF abort])
qed

lemma wp_bridge:
  "wp (bindM the_bridge f) Q E w = (case rt_bridge (rt w) of None \<Rightarrow> E aborted w | Some b \<Rightarrow> wp (f b) Q E w)"
  by (simp add: the_bridge_def rtM_def wp_simps split: option.split)

lemma wp_session: "wp (bindM (sesM f) k) Q E w = wp (k (f (ses w))) Q E w"
  by (simp add: sesM_def wp_simps)

lemma transactional_restores: "restores (execute_transactional P cmd)"
  unfolding restores_def
proof (intro allI impI)
  fix w :: "'w runtime_world_scheme"
  assume w: "calm w"
  let ?E = "\<lambda>x u. x \<noteq> Diverged \<longrightarrow> status u = status w"
  have joined: "keeps (unchanged status) (transactional_body P g p False cmd)"
    "keeps (unchanged status) (transactional_failed g p False x)" for g p x
    unfolding transactional_body_def transactional_failed_def simp_thms whenM_def if_False
    by (intro keeps_intros outputs_status parts_status touched_status recover_status statuses.ef_acknowledge; simp)+
  show "wp (execute_transactional P cmd) (\<lambda>_ u. status u = status w) ?E w"
  proof (cases "rt_bridge (rt w)")
    case (Some b)
    obtain g p where b: "b = (g, p)" by (cases b)
    show ?thesis
    proof (cases "ss_active (ses w)")
      case True
      have "keeps (unchanged status) (bindM (touch (state_key (tx_poll cmd))) (\<lambda>_.
          exceptM (transactional_body P g p False cmd) (transactional_failed g p False)))"
        by (intro keeps_intros touched_status joined)
      from wp_status [OF this, of w] show ?thesis
        unfolding execute_transactional_def wp_bridge Some b option.case prod.case wp_session Let_def
        by (simp add: True whenM_def wp_bind [of "retM ()"] wp_ret) (erule wp_mono; simp)
    next
      case False
      let ?r = "rt w"
      have s: "status w = (?r, False, txn_active w, txn_active w)" and q: "quiet_sink (g_env g)"
        "txn_lease w = txn_active w"
        using w Some b False by (auto simp: calm_def status_def)
      have main: "wp (bindM (touch (state_key (tx_poll cmd))) (\<lambda>_.
          exceptM (transactional_body P g p True cmd) (transactional_failed g p True)))
          (\<lambda>_ u. status u = (?r, False, False, False)) (\<lambda>x u. x \<noteq> Diverged \<longrightarrow> status u = (?r, False, False, False)) u"
        if "status u = (?r, False, True, True)" for u :: "'w runtime_world_scheme"
        unfolding wp_bind
        by (rule wp_marked(1) [OF that]) (auto simp: wp_except intro!: wp_mono [OF body_status] wp_mono [OF failed_status])
      show ?thesis
        unfolding execute_transactional_def wp_bridge Some b option.case prod.case wp_session Let_def
        using False s begin_status [OF q, of p]
        by (auto simp: wp_bind [of "whenM _ _"] wp_when intro!: wp_mono [OF begin_status [OF q]] wp_mono [OF main])
    qed
  qed (simp add: execute_transactional_def wp_bridge)
qed

text \<open>Whatever a session executes, it leaves the transaction as it found it.\<close>

lemma dispatch_restores: "restores (dispatch P cmd req)"
proof (cases "\<exists>c. cmd = TransactionalConsumePublishCommand c")
  case True
  then obtain c where c: "cmd = TransactionalConsumePublishCommand c" by blast
  show ?thesis
    unfolding dispatch_def c compiled_command.case
    by (intro restores_bind transactional_restores; intro restores_keeps keeps_intros parts_status reading_status)
next
  case False
  then have "keeps (unchanged status) (dispatch P cmd req)"
    unfolding dispatch_def
    by (cases cmd)
      (auto intro!: keeps_intros parts_status reading_status txn_producer_status touched_status statuses.ef_publish
        statuses.ef_poll statuses.ef_negative statuses.ef_acknowledge statuses.ef_range_read statuses.ef_group_position)
  then show ?thesis by (rule restores_keeps)
qed

lemma execute_restores: "restores (execute P req)"
proof -
  have "keeps (unchanged status) (runtime_probe P)"
    unfolding runtime_probe_def require_probe_def
    by (intro keeps_intros parts_status reading_status statuses.ef_probe)
  then have "keeps (unchanged status) (execution_report P req d)" for d
    unfolding execution_report_def by (intro keeps_intros reading_status statuses.ef_emit)
  moreover have "restores (execute_command P req)"
    unfolding execute_command_def
    by (intro restores_bind dispatch_restores restores_keeps reading_status keeps_intros)
  ultimately show ?thesis
    unfolding execute_def Let_def
    by (intro restores_bind restores_if restores_adapted) (auto intro!: restores_keeps keeps_intros parts_status reading_status statuses.ef_emit)
qed

text \<open>The operations that begin and end a transaction.\<close>

lemma wp_ensure: "wp (bindM ensure_open f) Q E w \<longleftrightarrow>
    (if ss_closed (ses w) \<or> \<not> rt_opened (rt w) \<or> rt_closed (rt w) then E (PyExc RuntimeError) w else wp (f ()) Q E w)"
proof -
  have "ensure_open w = (if ss_closed (ses w) \<or> \<not> rt_opened (rt w) \<or> rt_closed (rt w) then Inl (PyExc RuntimeError) else Inr (), w)"
    by (simp add: ensure_open_def require_open_def rtM_def sesM_def op_defs)
  then show ?thesis by (simp add: wp_def bindM_def)
qed

lemma wp_set_ses: "wp (set_ses f) Q E w = Q () (w\<lparr>ses := f (ses w)\<rparr>)"
  by (simp add: set_ses_def wp_mod)

lemma status_ses: "status (w\<lparr>ses := s\<rparr>) = (rt w, ss_active s, txn_active w, txn_lease w)"
  by (simp add: status_def)

lemma session_begin_status:
  assumes "calm w"
  shows "wp session_begin
    (\<lambda>_ u. \<not> ss_active (ses w) \<and> \<not> txn_active w \<and> rt_bridge (rt w) \<noteq> None \<and> status u = (rt w, True, True, True))
    (\<lambda>x u. x \<noteq> Diverged \<longrightarrow> status u = status w) w"
  using assms
  by (auto simp: session_begin_def wp_ensure wp_session wp_if wp_throw wp_bridge wp_bind [of "txn_begin _ _"] wp_set_ses status_ses
      calm_def status_def split: option.split intro!: wp_mono [OF begin_status])

lemma session_commit_status:
  assumes "ss_active (ses w) \<Longrightarrow> txn_active w \<and> rt_bridge (rt w) \<noteq> None"
  shows "wp session_commit (\<lambda>_ u. ss_active (ses w) \<and> status u = (rt w, False, False, False))
    (\<lambda>x u. x \<noteq> Diverged \<longrightarrow> ss_active (ses w) \<and> status u = (rt w, False, False, False) \<or> status u = status w) w"
proof (cases "ss_active (ses w)")
  case True
  then obtain g p where b: "rt_bridge (rt w) = Some (g, p)" and a: "txn_active w" using assms by auto
  have cleared: "wp (set_ses (\<lambda>s. s\<lparr>ss_active := False, ss_touched := []\<rparr>)) Q E u"
    if "status u = (rt w, True, False, False)" "\<And>v. status v = (rt w, False, False, False) \<Longrightarrow> Q () v" for Q E u
    using that by (simp add: wp_set_ses status_ses) (simp add: status_def)
  have again: "wp (bindM recover_touched (\<lambda>_. throwM x)) (\<lambda>_ _. False) (\<lambda>_ v. status v = (rt w, True, False, False)) u"
    if "status u = (rt w, True, False, False)" for u and x :: exc
    using that by (intro wp_after [OF recover_status]) (auto simp: wp_throw)
  have "status w = (rt w, True, True, txn_lease w)" using True a by (simp add: status_def)
  then show ?thesis
    using True unfolding session_commit_def wp_ensure wp_session wp_if wp_always wp_except wp_bridge b option.case prod.case
    by (auto intro!: wp_mono [OF ended_status [OF a]] cleared wp_mono [OF again])
next
  case False
  then show ?thesis by (simp add: session_commit_def wp_ensure wp_session wp_throw)
qed

lemma session_rollback_status:
  assumes "ss_active (ses w) \<Longrightarrow> txn_active w \<and> rt_bridge (rt w) \<noteq> None"
  shows "wp session_rollback (\<lambda>_ u. status u = (if ss_active (ses w) then (rt w, False, False, False) else status w))
    (\<lambda>x u. x \<noteq> Diverged \<longrightarrow> ss_active (ses w) \<and> status u = (rt w, False, False, False) \<or> status u = status w) w"
proof (cases "ss_active (ses w)")
  case True
  then obtain g p where b: "rt_bridge (rt w) = Some (g, p)" and a: "txn_active w" using assms by auto
  have cleared: "wp (bindM (set_ses (\<lambda>s. s\<lparr>ss_active := False\<rparr>)) (\<lambda>_. bindM recover_touched (\<lambda>_. clear_touched)))
      (\<lambda>_ v. status v = (rt w, False, False, False)) (\<lambda>_ v. status v = (rt w, False, False, False)) u"
    if "status u = (rt w, True, False, False)" for u
    using that unfolding wp_bind [of "set_ses _"] wp_set_ses
    by (intro wp_after [OF recover_status] wp_marked(2)) (auto simp: status_ses, auto simp: status_def)
  have "status w = (rt w, True, True, txn_lease w)" using True a by (simp add: status_def)
  then show ?thesis
    using True unfolding session_rollback_def wp_ensure wp_session wp_if wp_always wp_bridge b option.case prod.case
    by (auto intro!: wp_mono [OF ended_status [OF a]] wp_mono [OF cleared])
next
  case False
  then show ?thesis by (simp add: session_rollback_def wp_ensure wp_session wp_ret)
qed

lemma session_close_status:
  assumes "ss_active (ses w) \<Longrightarrow> txn_active w \<and> rt_bridge (rt w) \<noteq> None"
  shows "wp session_close (\<lambda>_ u. ss_active (ses w) \<and> status u = (rt w, False, False, False) \<or> status u = status w)
    (\<lambda>x u. x \<noteq> Diverged \<longrightarrow> ss_active (ses w) \<and> status u = (rt w, False, False, False) \<or> status u = status w) w"
proof -
  have "wp session_rollback
      (\<lambda>_ u. status u = (if ss_active (ses w) then (rt w, False, False, False) else status w))
      (\<lambda>x u. x \<noteq> Diverged \<longrightarrow> ss_active (ses w) \<and> status u = (rt w, False, False, False) \<or> status u = status w) w"
    by (rule session_rollback_status [OF assms])
  moreover have "status (u\<lparr>ses := ses u\<lparr>ss_closed := True\<rparr>\<rparr>) = status u" for u :: "'a runtime_world_scheme"
    by (simp add: status_def)
  ultimately show ?thesis
    unfolding session_close_def wp_session wp_bind [of "whenM _ _"] wp_when wp_if wp_ret
    by (auto simp: wp_set_ses split: if_splits elim: wp_mono)
qed

section \<open>Sessions as a state machine\<close>

text \<open>
  The sessions of a runtime, in the order they were opened, with the world they share; any of
  them may act at any time. An operation that ends, returning or raising, is a step.
\<close>

datatype session_action = BeginAction | CommitAction | RollbackAction | CloseAction | ExecuteAction execution_request

fun act :: "adapter_params \<Rightarrow> session_action \<Rightarrow> ('w, unit) runtime_op" where
  "act P BeginAction = session_begin"
| "act P CommitAction = session_commit"
| "act P RollbackAction = session_rollback"
| "act P CloseAction = session_close"
| "act P (ExecuteAction req) = bindM (execute P req) (\<lambda>_. retM ())"

inductive session_step :: "adapter_params \<Rightarrow> session list \<times> 'w runtime_world_scheme
    \<Rightarrow> session list \<times> 'w runtime_world_scheme \<Rightarrow> bool" for P :: adapter_params where
  opened: "open_session transactional w = (Inr s, w') \<Longrightarrow> session_step P (ss, w) (ss @ [s], w')"
| acted: "i < length ss \<Longrightarrow> act P a (w\<lparr>ses := ss ! i\<rparr>) = (r, w') \<Longrightarrow> r \<noteq> Inl Diverged
    \<Longrightarrow> session_step P (ss, w) (ss[i := ses w'], w')"

inductive_cases session_stepE: "session_step P (ss, w) (ss', w')"

text \<open>The invariant of the sessions and the bridge.\<close>

definition actives :: "session list \<Rightarrow> nat" where
  "actives ss = length (filter ss_active ss)"

definition coherent :: "runtime \<Rightarrow> session list \<times> 'w runtime_world_scheme \<Rightarrow> bool" where
  "coherent R = (\<lambda>(ss, w). rt w = R \<and> txn_lease w = txn_active w \<and> actives ss = of_bool (txn_active w)
     \<and> (txn_active w \<longrightarrow> rt_bridge R \<noteq> None))"

lemma actives_update:
  "i < length ss \<Longrightarrow> actives (ss[i := s]) + of_bool (ss_active (ss ! i)) = actives ss + of_bool (ss_active s)"
proof (induction ss arbitrary: i)
  case (Cons x ss)
  then show ?case by (cases i) (auto simp: actives_def)
qed simp

lemma actives_0: "i < length ss \<Longrightarrow> actives ss = 0 \<Longrightarrow> \<not> ss_active (ss ! i)"
  by (simp add: actives_def filter_empty_conv)

lemma act_status:
  assumes "calm w" and "ss_active (ses w) \<Longrightarrow> txn_active w \<and> rt_bridge (rt w) \<noteq> None"
    and "act P a w = (r, u)" and "r \<noteq> Inl Diverged"
  shows "status u = status w
    \<or> ss_active (ses w) \<and> status u = (rt w, False, False, False)
    \<or> \<not> ss_active (ses w) \<and> \<not> txn_active w \<and> rt_bridge (rt w) \<noteq> None \<and> status u = (rt w, True, True, True)"
proof (cases a)
  case BeginAction
  then show ?thesis
    using session_begin_status [OF assms(1)] assms(3,4) by (cases r) (auto dest: wp_Inr wp_Inl)
next
  case CommitAction
  then show ?thesis
    using session_commit_status [OF assms(2)] assms(3,4) by (cases r) (auto dest: wp_Inr wp_Inl)
next
  case RollbackAction
  then show ?thesis
    using session_rollback_status [OF assms(2)] assms(3,4)
    by (cases r; cases "ss_active (ses w)") (auto dest: wp_Inr wp_Inl)
next
  case CloseAction
  then show ?thesis
    using session_close_status [OF assms(2)] assms(3,4) by (cases r) (auto dest: wp_Inr wp_Inl)
next
  case (ExecuteAction req)
  have "restores (act P a)"
    unfolding ExecuteAction act.simps by (intro restores_bind execute_restores restores_keeps keeps_intros)
  from restores_wp [OF this assms(1) refl] show ?thesis
    using assms(3,4) by (cases r) (auto dest: wp_Inr wp_Inl)
qed

lemma open_session_Inr:
  assumes "open_session transactional w = (Inr s, w')"
  shows "w' = w" and "\<not> ss_active s" and "rt_opened (rt w) \<and> \<not> rt_closed (rt w)"
    and "transactional \<Longrightarrow> rt_bridge (rt w) \<noteq> None"
  using assms
  by (auto simp: open_session_def require_open_def rtM_def op_defs split: if_splits)

lemma coherent_step:
  assumes "session_step P (ss, w) (ss', w')" and "coherent R (ss, w)"
    and "\<And>g p. rt_bridge R = Some (g, p) \<Longrightarrow> quiet_sink (g_env g)"
  shows "coherent R (ss', w')"
  using assms(1)
proof cases
  case (opened transactional s)
  then show ?thesis using assms(2) open_session_Inr [OF opened(2)] by (auto simp: coherent_def actives_def)
next
  case (acted i a r)
  let ?w = "w\<lparr>ses := ss ! i\<rparr>"
  have st: "status ?w = (R, ss_active (ss ! i), txn_active w, txn_active w)" and rt: "rt ?w = R"
    using assms(2) by (auto simp: coherent_def status_def)
  have calm: "calm ?w"
    using assms(2,3) by (auto simp: calm_def coherent_def split: option.split)
  have active: "txn_active ?w \<and> rt_bridge (rt ?w) \<noteq> None" if "ss_active (ses ?w)"
    using that assms(2) acted(2) actives_0 [of i ss] by (auto simp: coherent_def of_bool_def split: if_splits)
  from act_status [OF calm active acted(3,4)] show ?thesis
    using assms(2) active actives_update [OF acted(2), of "ses w'"] acted(1)
    by (auto simp: st rt coherent_def status_def of_bool_def split: if_splits)
qed

section \<open>Properties\<close>

text \<open>
  C5. However the sessions of a runtime are opened and their operations interleaved, at most one
  of them has begun a transaction that it has not finished, one has exactly when the bridge has a
  transaction, and the bridge's lease is held exactly then: no error path of a begin, a commit, a
  rollback, a close or an executed operation leaves a session active without a transaction or a
  transaction without its session. The telemetry sink is assumed not to raise.
\<close>

theorem one_transaction:
  assumes "(session_step P)\<^sup>*\<^sup>* ([], w) (ss, w')" and "\<not> txn_active w" and "\<not> txn_lease w"
    and "\<And>g p. rt_bridge (rt w) = Some (g, p) \<Longrightarrow> quiet_sink (g_env g)"
  shows "length (filter ss_active ss) = (if txn_active w' then 1 else 0)
    \<and> txn_lease w' = txn_active w' \<and> rt w' = rt w"
proof -
  have "coherent (rt w) s" if "(session_step P)\<^sup>*\<^sup>* ([], w) s" for s
    using that
  proof (induction rule: rtranclp_induct)
    case base
    show ?case using assms(2,3) by (simp add: coherent_def actives_def)
  next
    case (step s t)
    then show ?case using coherent_step assms(4) by (metis prod.collapse)
  qed
  from this [OF assms(1)] show ?thesis by (simp add: coherent_def actives_def)
qed

subsection \<open>Witnesses\<close>

text \<open>An open runtime with a bridge, and two sessions that both try to begin.\<close>

definition sample_params :: adapter_params where
  "sample_params = \<lparr>ap_ctx = sample_ctx, ap_scram = sample_scram_digests, ap_spi = sample_spi,
     ap_same_binding = (\<lambda>a b. cx_binding_id a = cx_binding_id b), ap_receipt_dict = (\<lambda>_. JNull),
     ap_delivery_dict = (\<lambda>_. JNull), ap_page_dict = (\<lambda>_. JNull), ap_position_dict = (\<lambda>_. JNull)\<rparr>"

definition sample_runtime :: runtime where
  "sample_runtime = \<lparr>rt_context = sample_context, rt_settings = sample_settings, rt_admin = Some 3,
     rt_probe = Some (sample_ctx, 3), rt_producer = Some sample_ctx, rt_consumer = Some sample_ctx,
     rt_bridge = Some (sample_ctx, 0), rt_opened = True, rt_closed = False\<rparr>"

definition sample_session :: session where
  "sample_session = \<lparr>ss_transactional = True, ss_active = False, ss_closed = False, ss_touched = []\<rparr>"

definition sample_runtime_world :: runtime_world where
  "sample_runtime_world = \<lparr>hist = [], tel_events = [], tel_maximum = 4, idempotency = [], txn_active = False,
     txn_lease = False, txn_offsets = [], txn_group_metadata = None, txn_group_key = None,
     states = [((sample_ref ''sub'', sample_ref ''g''), sample_group_state)], engine_closed = False,
     grp = sample_group_state, rt = sample_runtime, ses = sample_session\<rparr>"

lemma sample_begins:
  "case session_begin sample_runtime_world of (Inr _, w) \<Rightarrow> ss_active (ses w) \<and> txn_active w \<and> length (hist w) = 3
     \<and> (case session_begin (w\<lparr>ses := sample_session\<rparr>) of (Inl (Meridian _), v) \<Rightarrow>
          \<not> ss_active (ses v) \<and> txn_active v \<and> length (hist v) = 3 | _ \<Rightarrow> False) | _ \<Rightarrow> False"
  by code_simp

lemma sample_sessions_run:
  "\<exists>a b w. (session_step sample_params)\<^sup>*\<^sup>* ([], sample_runtime_world) ([a, b], w)
     \<and> ss_active a \<and> \<not> ss_active b \<and> txn_active w \<and> length (hist w) = 3"
proof -
  let ?s = sample_session and ?w = sample_runtime_world
  obtain w v x where begins: "session_begin ?w = (Inr (), w)" "session_begin (w\<lparr>ses := ?s\<rparr>) = (Inl (Meridian x), v)"
    and after: "ss_active (ses w)" "\<not> ss_active (ses v)" "txn_active v" "length (hist v) = 3"
    using sample_begins by (auto split: prod.splits sum.splits exc.splits)
  have same: "?w\<lparr>ses := ?s\<rparr> = ?w" by (simp add: sample_runtime_world_def)
  have opens: "open_session True ?w = (Inr ?s, ?w)"
    by (simp add: open_session_def require_open_def rtM_def op_defs sample_runtime_world_def sample_runtime_def sample_session_def)
  have s1: "session_step sample_params ([], ?w) ([?s], ?w)" using session_step.opened [OF opens, of sample_params "[]"] by simp
  have s2: "session_step sample_params ([?s], ?w) ([?s, ?s], ?w)"
    using session_step.opened [OF opens, of sample_params "[?s]"] by simp
  have s3: "session_step sample_params ([?s, ?s], ?w) ([ses w, ?s], w)"
    using session_step.acted [of 0 "[?s, ?s]" sample_params BeginAction ?w "Inr ()" w] begins(1) by (simp add: same)
  have s4: "session_step sample_params ([ses w, ?s], w) ([ses w, ses v], v)"
    using session_step.acted [of 1 "[ses w, ?s]" sample_params BeginAction w "Inl (Meridian x)" v] begins(2) by simp
  have "(session_step sample_params)\<^sup>*\<^sup>* ([], ?w) ([ses w, ses v], v)"
    using s1 s2 s3 s4 by (meson rtranclp.rtrancl_into_rtrancl rtranclp.rtrancl_refl)
  then show ?thesis using after by blast
qed

theorem one_transaction_witness:
  "\<exists>a b w. (session_step sample_params)\<^sup>*\<^sup>* ([], sample_runtime_world) ([a, b], w)
     \<and> ss_active a \<and> length (filter ss_active [a, b]) = 1 \<and> txn_lease w"
proof -
  obtain a b w where r: "(session_step sample_params)\<^sup>*\<^sup>* ([], sample_runtime_world) ([a, b], w)" "ss_active a" "txn_active w"
    using sample_sessions_run by blast
  have "length (filter ss_active [a, b]) = (if txn_active w then 1 else 0) \<and> txn_lease w = txn_active w
      \<and> rt w = rt sample_runtime_world"
    by (rule one_transaction [OF r(1)]) (use sample_ctx_env(1) in \<open>auto simp: sample_runtime_world_def sample_runtime_def\<close>)
  then have "length (filter ss_active [a, b]) = 1" "txn_lease w" using r(3) by presburger+
  then show ?thesis using r(1,2) by blast
qed

end
