(* ===== verification/Session_Protocol.thy ===== *)
theory Session_Protocol
  imports Session_Safety
begin

text \<open>
  The sessions of a runtime refine the bridge: whatever they do is a run of the bridge's state
  machine of \<^verbatim>\<open>Transactions\<close>, so that the producer of the transactions is used as its protocol
  asks. The frame of the engines is interpreted on "is reached by steps of the bridge".
\<close>

section \<open>Runs of the bridge\<close>

text \<open>
  In a runtime whose bridge is \<open>(g, p)\<close>. A run stages at most as many offsets as it makes calls;
  that and the bound on the calls are what a step of the bridge asks.
\<close>

definition bridge_run :: "ctx \<Rightarrow> client \<Rightarrow> 'w runtime_world_scheme \<Rightarrow> 'w runtime_world_scheme \<Rightarrow> bool" where
  "bridge_run g p w w' \<longleftrightarrow> (rt_bridge (rt w) = Some (g, p) \<and> rt_consumer (rt w) = Some g \<longrightarrow>
     rt w' = rt w \<and> length (hist w) \<le> length (hist w')
     \<and> (small (int (length (hist w'))) \<and> length (txn_offsets w) \<le> length (hist w) \<longrightarrow>
        length (txn_offsets w') \<le> length (hist w') \<and> (txn_step g p)\<^sup>*\<^sup>* w w'))"

lemma small_le: "small (int n) \<Longrightarrow> m \<le> n \<Longrightarrow> small (int m)"
  by (auto simp: small_def)

lemma run_step:
  assumes "rt w' = rt w" and "length (hist w) \<le> length (hist w')"
    and "length (txn_offsets w') + length (hist w) \<le> length (txn_offsets w) + length (hist w')"
    and "small (int (length (txn_offsets w))) \<Longrightarrow> txn_step g p w w'"
  shows "bridge_run g p w w'"
  unfolding bridge_run_def
  using assms small_le [of "length (hist w')" "length (txn_offsets w)"] by auto

lemma run_other:
  assumes "rt w' = rt w" and "calls_only txn_neutral w w'" and "bridge w' = bridge w"
  shows "bridge_run g p w w'"
proof (rule run_step [OF assms(1) calls_longer [OF assms(2)]])
  show "length (txn_offsets w') + length (hist w) \<le> length (txn_offsets w) + length (hist w')"
    using calls_longer [OF assms(2)] assms(3) by (simp add: bridge_def)
  show "txn_step g p w w'" using assms(2,3) by (rule txn_step.other)
qed

lemma run_same:
  "rt w' = rt w \<Longrightarrow> hist w' = hist w \<Longrightarrow> bridge w' = bridge w \<Longrightarrow> bridge_run g p w w'"
  by (rule run_other) (simp_all add: calls_only_def)

lemma engine_neutral: "engine_call c \<Longrightarrow> txn_neutral c"
  by (cases c) simp_all

lemma length_dset_le: "length (dset k v d) \<le> Suc (length d)"
  by (induction d) auto

lemma stage_offset_grows:
  assumes "stage_offset g key co tp pt n w = (r, w')"
  shows "held w' = held w" and "length (hist w) \<le> length (hist w')"
    and "length (txn_offsets w') + length (hist w) \<le> length (txn_offsets w) + length (hist w')"
proof -
  have "keeps (unchanged held) (stage_offset g key co tp pt n)"
    unfolding stage_offset_def staged_def by (intro keeps_intros ignores_held; simp add: held_def)
  then show "held w' = held w" using assms by (rule unchangedD)
  have "keeps (calls_only (\<lambda>_. True)) (stage_offset g key co tp pt n)"
    unfolding stage_offset_def by (intro keeps_intros; simp)
  from keepsD [OF this assms] show l: "length (hist w) \<le> length (hist w')" by (rule calls_longer)
  show "length (txn_offsets w') + length (hist w) \<le> length (txn_offsets w) + length (hist w')"
    using assms length_dset_le [of "(tp, pt)" _ "txn_offsets w"]
    by (auto simp: stage_offset_def op_defs request_def push_def Let_def split: if_splits option.splits)
qed

lemma stage_run: "keeps (bridge_run g p) (stage_offset g key co tp pt n)"
  unfolding keeps_def
proof
  fix w :: "'w runtime_world_scheme"
  obtain r w' where e: "stage_offset g key co tp pt n w = (r, w')" by force
  show "bridge_run g p w (snd (stage_offset g key co tp pt n w))"
    using stage_offset_grows [OF e] txn_step.staged [OF e] unfolding e by (intro run_step) (simp_all add: held_def)
qed

lemma bridge_updates [simp]:
  "bridge (w\<lparr>idempotency := d\<rparr>) = bridge w" "bridge (w\<lparr>grp := s\<rparr>) = bridge w"
  "bridge (w\<lparr>states := ss\<rparr>) = bridge w" "bridge (w\<lparr>engine_closed := b\<rparr>) = bridge w"
  "bridge (w\<lparr>ses := s'\<rparr>) = bridge w"
  by (simp_all add: bridge_def)

interpretation runs: engine_frame "bridge_run g p" "\<lambda>g'. g' = g" for g p
proof unfold_locales
  show "bridge_run g p w w" for w :: "'a runtime_world_scheme" by (simp add: run_same)
  show "bridge_run g p w v" if "bridge_run g p w u" "bridge_run g p u v" for w u v :: "'a runtime_world_scheme"
    using that small_le [of "length (hist v)" "length (hist u)"] unfolding bridge_run_def
    by (auto intro: rtranclp_trans)
  show "bridge_run g p w (push c w)" if "engine_call c" for c and w :: "'a runtime_world_scheme"
    using that engine_neutral by (intro run_other) (simp_all add: push_def calls_only_def [of txn_neutral])
  show "keeps (bridge_run g p) (stage_offset g' key co tp pt n)" if "g' = g" for g' key co tp pt n
    unfolding that by (rule stage_run)
qed (rule run_same; simp add: bridge_def)+

section \<open>The operations of a session are such runs\<close>

lemmas run_intros = runs.keeps_rules

lemma run_parts:
  "keeps (bridge_run g p) (sesM h)" "keeps (bridge_run g p) (rtM h')"
  "keeps (bridge_run g p) ensure_open" "keeps (bridge_run g p) require_open"
  "keeps (bridge_run g p) producer_engine" "keeps (bridge_run g p) (txn_producer q)"
  unfolding ensure_open_def require_open_def producer_engine_def txn_producer_def sesM_def rtM_def
  by (intro run_intros)+

lemma run_marks:
  "keeps (bridge_run g p) (set_ses f)" "keeps (bridge_run g p) (touch key)" "keeps (bridge_run g p) clear_touched"
proof -
  show "keeps (bridge_run g p) (set_ses f)" for f
    unfolding set_ses_def keeps_def by (simp add: modM_def run_same)
  then show "keeps (bridge_run g p) (touch key)" "keeps (bridge_run g p) clear_touched"
    unfolding touch_def clear_touched_def by blast+
qed

text \<open>The engines are those of the runtime.\<close>

lemma run_bridge:
  fixes f :: "ctx \<times> client \<Rightarrow> ('w, 'a) runtime_op"
  assumes "keeps (bridge_run g p) (f (g, p))" shows "keeps (bridge_run g p) (bindM the_bridge f)"
  unfolding keeps_def
proof
  fix w :: "'w runtime_world_scheme"
  have "rt_bridge (rt w) = Some (g, p) \<Longrightarrow> bindM the_bridge f w = f (g, p) w"
    by (simp add: the_bridge_def rtM_def op_defs)
  then show "bridge_run g p w (snd (bindM the_bridge f w))"
    using assms by (cases "rt_bridge (rt w) = Some (g, p)") (auto simp: keeps_def bridge_run_def)
qed

lemma run_consumer:
  fixes f :: "ctx \<Rightarrow> ('w, 'a) runtime_op"
  assumes "keeps (bridge_run g p) (f g)" shows "keeps (bridge_run g p) (bindM consumer_engine f)"
  unfolding keeps_def
proof
  fix w :: "'w runtime_world_scheme"
  have "rt_consumer (rt w) = Some g \<Longrightarrow> bindM consumer_engine f w = f g w"
    by (simp add: consumer_engine_def rtM_def op_defs)
  then show "bridge_run g p w (snd (bindM consumer_engine f w))"
    using assms by (cases "rt_consumer (rt w) = Some g") (auto simp: keeps_def bridge_run_def)
qed

lemma run_recover: "keeps (bridge_run g p) recover_touched"
  unfolding recover_touched_def by (intro run_consumer run_intros run_parts runs.ef_recover)

lemma run_outputs: "keeps (bridge_run g p) (publish_outputs q outs rs)"
  by (induction outs arbitrary: rs) (auto intro!: run_intros run_parts runs.ef_publish)

subsection \<open>Beginning and ending transactions\<close>

interpretation fewer: op_preorder "\<lambda>w w'. length (txn_offsets w') \<le> length (txn_offsets w)"
  by unfold_locales simp_all

lemma fewer_offsets:
  "keeps (\<lambda>w w'. length (txn_offsets w') \<le> length (txn_offsets w)) (txn_begin g p)"
  "keeps (\<lambda>w w'. length (txn_offsets w') \<le> length (txn_offsets w)) (txn_commit g p)"
  "keeps (\<lambda>w w'. length (txn_offsets w') \<le> length (txn_offsets w)) (txn_abort g p)"
proof -
  have same: "keeps (\<lambda>w w'. length (txn_offsets w') \<le> length (txn_offsets w)) m"
    if "keeps (unchanged txn_offsets) m" for m :: "(exc, 'w txn_world_scheme, unit) op"
    using that by (simp add: keeps_def unchanged_def)
  have ignored: "ignores_calls (txn_offsets :: 'w txn_world_scheme \<Rightarrow> _)"
    unfolding ignores_calls_def by (intro allI conjI) simp_all
  have change: "keeps (\<lambda>w w'. length (txn_offsets w') \<le> length (txn_offsets w)) (modM h)"
    if "\<And>w :: 'w txn_world_scheme. length (txn_offsets (h w)) \<le> length (txn_offsets w)" for h
    using that by (simp add: keeps_def modM_def)
  have calls: "keeps (\<lambda>w w'. length (txn_offsets w') \<le> length (txn_offsets w)) (command e c :: (exc, 'w txn_world_scheme, _) op)"
    "keeps (\<lambda>w w'. length (txn_offsets w') \<le> length (txn_offsets w)) (emit e n as :: (exc, 'w txn_world_scheme, _) op)" for e c n as
    by (rule same, (intro keeps_intros ignored)[1])+
  note rules = fewer.keeps_rules calls change
  show "keeps (\<lambda>w w'. length (txn_offsets w') \<le> length (txn_offsets w)) (txn_begin g p)"
    "keeps (\<lambda>w w'. length (txn_offsets w') \<le> length (txn_offsets w)) (txn_commit g p)"
    "keeps (\<lambda>w w'. length (txn_offsets w') \<le> length (txn_offsets w)) (txn_abort g p)"
    unfolding txn_begin_def txn_commit_def txn_abort_def send_staged_def
    by (intro rules; simp add: cleared_def txn_finish_def)+
qed

lemma run_bridge_ops:
  "keeps (bridge_run g p) (txn_begin g p)" "keeps (bridge_run g p) (txn_commit g p)"
  "keeps (bridge_run g p) (txn_abort g p)"
proof -
  have all: "keeps (calls_only (\<lambda>_. True)) (txn_begin g p)" "keeps (calls_only (\<lambda>_. True)) (txn_commit g p)"
    "keeps (calls_only (\<lambda>_. True)) (txn_abort g p)"
    unfolding txn_begin_def txn_commit_def txn_abort_def send_staged_def
    by (intro keeps_intros TrueI; simp add: cleared_def txn_finish_def)+
  have run: "keeps (bridge_run g p) m"
    if "keeps (unchanged held) m" "keeps (calls_only (\<lambda>_. True)) m"
      "keeps (\<lambda>w w'. length (txn_offsets w') \<le> length (txn_offsets w)) m"
      and "\<And>r w w'. m w = (r, w') \<Longrightarrow> small (int (length (txn_offsets w))) \<Longrightarrow> txn_step g p w w'"
    for m :: "(exc, 'w runtime_world_scheme, unit) op"
    unfolding keeps_def
  proof
    fix w
    obtain r w' where e: "m w = (r, w')" by force
    show "bridge_run g p w (snd (m w))"
      unfolding e using unchangedD [OF that(1) e] calls_longer [OF keepsD [OF that(2) e]] keepsD [OF that(3) e] that(4) [OF e]
      by (intro run_step) (simp_all add: held_def)
  qed
  show "keeps (bridge_run g p) (txn_begin g p)" "keeps (bridge_run g p) (txn_commit g p)"
    "keeps (bridge_run g p) (txn_abort g p)"
    by (rule run [OF bridge_held(1) all(1) fewer_offsets(1)] run [OF bridge_held(2) all(2) fewer_offsets(2)]
        run [OF bridge_held(3) all(3) fewer_offsets(3)], blast intro: txn_step.intros)+
qed

subsection \<open>Whole operations\<close>

lemma run_transactional: "keeps (bridge_run g p) (execute_transactional P cmd)"
proof -
  have "keeps (bridge_run g p) (transactional_body P g p owns cmd)" for owns
    unfolding transactional_body_def
    by (intro run_intros run_outputs run_consumer run_bridge_ops run_marks runs.ef_acknowledge) simp
  moreover have "keeps (bridge_run g p) (transactional_failed g p owns x)" for owns x
    unfolding transactional_failed_def by (intro run_intros run_bridge_ops run_recover run_marks)
  ultimately show ?thesis
    unfolding execute_transactional_def Let_def
    by (intro run_bridge, simp only: prod.case) (intro run_intros run_parts run_marks run_bridge_ops)
qed

lemma run_dispatch: "keeps (bridge_run g p) (dispatch P cmd req)"
proof -
  have bridge: "keeps (bridge_run g p) (if active then bindM the_bridge (\<lambda>b. retM (Some b)) else retM None)" for active
    by (intro run_intros run_bridge)
  show ?thesis
    unfolding dispatch_def
    by (intro run_consumer runs.keeps_bind run_parts bridge, cases cmd)
      (auto intro!: run_intros run_parts run_marks run_transactional runs.ef_publish runs.ef_poll runs.ef_negative
        runs.ef_acknowledge runs.ef_range_read runs.ef_group_position)
qed

lemmas run_steps = runs.keeps_bind [OF run_parts(3)] runs.keeps_bind [OF run_parts(1)] runs.keeps_bind [OF run_recover]
  runs.keeps_bind [OF run_marks(1)] runs.keeps_if runs.keeps_pure runs.keeps_always runs.keeps_except run_marks

lemma run_act: "keeps (bridge_run g p) (act P a)"
proof (cases a)
  case (ExecuteAction req)
  have "keeps (bridge_run g p) (runtime_probe P)"
    unfolding runtime_probe_def require_probe_def by (intro run_intros run_parts runs.ef_probe)
  then have "keeps (bridge_run g p) (execution_report P req d)" for d
    unfolding execution_report_def by (intro run_intros run_parts runs.ef_emit)
  then show ?thesis
    unfolding ExecuteAction act.simps execute_def execute_command_def Let_def
    by (intro run_intros run_parts run_dispatch runs.ef_emit)
next
  case BeginAction
  have "keeps (bridge_run g p) (bindM the_bridge (\<lambda>(g, p). bindM (txn_begin g p) (\<lambda>_. set_ses f)))" for f
    by (intro run_bridge, simp only: prod.case) (intro runs.keeps_bind run_bridge_ops run_marks)
  then show ?thesis
    unfolding BeginAction act.simps session_begin_def
    by (intro run_steps)
next
  case CommitAction
  have "keeps (bridge_run g p) (bindM the_bridge (\<lambda>(g, p). txn_commit g p))"
    by (rule run_bridge) (simp add: run_bridge_ops)
  then show ?thesis
    unfolding CommitAction act.simps session_commit_def by (intro run_steps)
next
  case RollbackAction
  have "keeps (bridge_run g p) (bindM the_bridge (\<lambda>(g, p). txn_abort g p))"
    by (rule run_bridge) (simp add: run_bridge_ops)
  then show ?thesis
    unfolding RollbackAction act.simps session_rollback_def by (intro run_steps)
next
  case CloseAction
  have "keeps (bridge_run g p) (bindM the_bridge (\<lambda>(g, p). txn_abort g p))"
    by (rule run_bridge) (simp add: run_bridge_ops)
  then have "keeps (bridge_run g p) session_rollback"
    unfolding session_rollback_def by (intro run_steps)
  then show ?thesis
    unfolding CloseAction act.simps session_close_def by (intro run_intros run_parts run_marks)
qed

lemma run_session_step:
  assumes "session_step P (ss, w) (ss', w')" shows "bridge_run g p w w'"
  using assms
proof cases
  case (opened transactional s)
  then show ?thesis using open_session_Inr(1) runs.rel_refl by metis
next
  case (acted i a r)
  have "bridge_run g p w (w\<lparr>ses := ss ! i\<rparr>)" by (rule run_same) simp_all
  then show ?thesis using keepsD [OF run_act acted(3)] by (rule runs.rel_trans)
qed

section \<open>Properties\<close>


subsection \<open>Witness\<close>


end
