(* ===== verification/Session_Atomic.thy ===== *)
theory Session_Atomic
  imports Session_Protocol
begin

text \<open>
  A consume-transform-publish command that owns its transaction is all or nothing: it returns
  with one transaction committed, or raises with none.
\<close>

section \<open>Commits that took effect\<close>

fun commits :: "env \<Rightarrow> client \<Rightarrow> history \<Rightarrow> nat" where
  "commits e p [] = 0"
| "commits e p (c # h) = commits e p h + (case c of
     CommitTransaction q _ \<Rightarrow> of_bool (q = p \<and> e_raises e (c # h) = None) | _ \<Rightarrow> 0)"

fun no_commit_call :: "call \<Rightarrow> bool" where
  "no_commit_call (CommitTransaction _ _) = False"
| "no_commit_call _ = True"

lemma commits_other: "list_all no_commit_call cs \<Longrightarrow> commits e p (cs @ h) = commits e p h"
  by (induction cs) (auto split: call.split)

lemma commits_engine: "list_all engine_call cs \<Longrightarrow> commits e p (cs @ h) = commits e p h"
  by (induction cs) (auto split: call.split)

text \<open>The parts of the command between its begin and its commit.\<close>

definition between :: "ctx \<Rightarrow> client \<Rightarrow> ('w, 'a) runtime_op \<Rightarrow> bool" where
  "between g p m \<longleftrightarrow> keeps (bridge_run g p) m \<and> keeps (calls_only engine_call) m \<and> keeps (unchanged status) m"

lemma keeps_calls_parts:
  "keeps (calls_only engine_call) (rtM f)" "keeps (calls_only engine_call) (sesM h)"
  "keeps (calls_only engine_call) (set_ses k)"
  unfolding rtM_def sesM_def set_ses_def by (intro keeps_intros; simp)+

lemma between_parts:
  "between g p (publish_outputs q outs rs)" "between g p recover_touched" "between g p clear_touched"
  "between g p (touch key)" "between g p (acknowledge g cmd tx)"
proof -
  have "keeps (calls_only engine_call) (publish_outputs q outs rs)" for outs rs
    by (induction outs arbitrary: rs)
      (auto simp: producer_engine_def txn_producer_def intro!: keeps_intros keeps_calls_parts engine_calls.ef_publish)
  then show "between g p (publish_outputs q outs rs)" by (simp add: between_def run_outputs outputs_status)
  have "keeps (calls_only engine_call) recover_touched"
    unfolding recover_touched_def consumer_engine_def by (intro keeps_intros keeps_calls_parts engine_calls.ef_recover)
  then show "between g p recover_touched" by (simp add: between_def run_recover recover_status)
  have "keeps (calls_only engine_call) clear_touched" "keeps (calls_only engine_call) (touch key)"
    unfolding clear_touched_def touch_def by (rule keeps_calls_parts)+
  then show "between g p clear_touched" "between g p (touch key)"
    by (simp_all add: between_def run_marks touched_status)
  show "between g p (acknowledge g cmd tx)"
    by (simp add: between_def runs.ef_acknowledge engine_calls.ef_acknowledge statuses.ef_acknowledge)
qed

text \<open>
  The transaction of the command is open, or it is over, with \<open>n\<close> commits made; as long as the
  run makes at most \<open>N\<close> calls.
\<close>

definition account :: "ctx \<Rightarrow> client \<Rightarrow> nat \<Rightarrow> runtime \<Rightarrow> bool \<Rightarrow> nat \<Rightarrow> 'w runtime_world_scheme \<Rightarrow> bool" where
  "account g p N R active n u \<longleftrightarrow> (length (hist u) \<le> N \<longrightarrow>
     rt u = R \<and> txn_ok (g_env g) p u \<and> length (txn_offsets u) \<le> length (hist u)
     \<and> txn_active u = active \<and> commits (g_env g) p (hist u) = n)"

lemma wp_between:
  assumes "between g p m" and "account g p N R a n s"
    and "rt_bridge R = Some (g, p)" and "rt_consumer R = Some g" and "small (int N)"
    and "quiet_sink (g_env g)" and "env_returns (g_env g)"
  shows "wp m (\<lambda>_. account g p N R a n) (\<lambda>_. account g p N R a n) s"
proof -
  have "account g p N R a n t" if run: "bridge_run g p s t" and c: "calls_only engine_call s t" and st: "status t = status s" for t
    unfolding account_def
  proof (intro impI)
    assume t: "length (hist t) \<le> N"
    obtain cs where cs: "hist t = cs @ hist s" "list_all engine_call cs" using c by (auto simp: calls_only_def)
    then have s: "rt s = R" "txn_ok (g_env g) p s" "length (txn_offsets s) \<le> length (hist s)"
      "txn_active s = a" "commits (g_env g) p (hist s) = n"
      using assms(2) t by (simp_all add: account_def)
    have sm: "small (int (length (hist t)))" using assms(5) t by (rule small_le)
    then have steps: "(txn_step g p)\<^sup>*\<^sup>* s t" and offs: "length (txn_offsets t) \<le> length (hist t)" and rt: "rt t = R"
      using run s(1,3) assms(3,4) by (auto simp: bridge_run_def)
    have "txn_ok (g_env g) p t"
      using steps by (induction rule: rtranclp_induct) (use s(2) assms(6,7) txn_step_ok in blast)+
    then show "rt t = R \<and> txn_ok (g_env g) p t \<and> length (txn_offsets t) \<le> length (hist t)
        \<and> txn_active t = a \<and> commits (g_env g) p (hist t) = n"
      using offs rt st s(4,5) cs commits_engine [of cs "g_env g" p "hist s"] by (simp add: status_def)
  qed
  moreover obtain x t where m: "m s = (x, t)" by force
  ultimately have "account g p N R a n t"
    using assms(1) keepsD unchangedD unfolding between_def by metis
  then show ?thesis using m by (simp add: wp_def split: sum.split)
qed

lemma account_ended:
  assumes "length (hist u) \<le> length (hist t)"
    and "length (hist t) \<le> N \<Longrightarrow> rt t = R \<and> txn_ok (g_env g) p t \<and> length (txn_offsets t) \<le> length (hist t)
      \<and> txn_active t = a \<and> commits (g_env g) p (hist t) = n"
  shows "account g p N R a n t"
  using assms by (simp add: account_def)

lemma wp_grown:
  assumes "keeps (calls_only (\<lambda>_. True)) m" and "\<not> length (hist u) \<le> N"
  shows "wp m (\<lambda>_. account g p N R a n) (\<lambda>_. account g p N R b k) u"
  using keeps_wp [OF assms(1), of u] by (rule wp_mono) (use assms(2) in \<open>auto simp: account_def dest: calls_longer\<close>)

lemma bridge_calls:
  "keeps (calls_only (\<lambda>_. True)) (txn_commit g p)"
  "keeps (calls_only no_commit_call) (txn_abort g p)" "keeps (calls_only no_commit_call) (txn_begin g p)"
  unfolding txn_begin_def txn_commit_def txn_abort_def send_staged_def
  by (intro keeps_intros TrueI; simp add: cleared_def txn_finish_def)+

text \<open>Beginning and aborting commit nothing; a commit counts when it returns.\<close>

lemma wp_account:
  assumes m: "keeps (calls_only no_commit_call) m" "keeps (unchanged held) m"
    "keeps (\<lambda>w w'. length (txn_offsets w') \<le> length (txn_offsets w)) m"
    and "account g p N R a n u"
    and "length (hist u) \<le> N \<Longrightarrow> wp m (\<lambda>_ t. txn_ok (g_env g) p t \<and> txn_active t = b)
      (\<lambda>_ t. txn_ok (g_env g) p t \<and> txn_active t = b') u"
  shows "wp m (\<lambda>_. account g p N R b n) (\<lambda>_. account g p N R b' n) u"
proof (cases "length (hist u) \<le> N")
  case True
  have "wp m (\<lambda>_ t. calls_only no_commit_call u t \<and> unchanged held u t \<and> length (txn_offsets t) \<le> length (txn_offsets u))
      (\<lambda>_ t. calls_only no_commit_call u t \<and> unchanged held u t \<and> length (txn_offsets t) \<le> length (txn_offsets u)) u"
    by (intro wp_conj keeps_wp m)
  from wp_conj [OF this assms(5) [OF True]] show ?thesis
    using assms(4) True
    by (elim wp_mono) (auto simp: account_def unchanged_def held_def calls_only_def commits_other)
qed (rule wp_grown, rule keeps_calls_mono [OF m(1)], simp_all)

lemma wp_account_abort:
  assumes "account g p N R True n u" and "quiet_sink (g_env g)" and "env_returns (g_env g)" and "small (int N)"
  shows "wp (txn_abort g p) (\<lambda>_. account g p N R False n) (\<lambda>_. account g p N R False n) u"
proof (rule wp_account [OF bridge_calls(2) bridge_held(3) fewer_offsets(3) assms(1)])
  assume "length (hist u) \<le> N"
  then have "txn_ok (g_env g) p u" "small (int (length (txn_offsets u)))"
    using assms(1) small_le [OF assms(4)] by (simp_all add: account_def)
  from txn_abort_ok [OF assms(2,3) this]
  show "wp (txn_abort g p) (\<lambda>_ t. txn_ok (g_env g) p t \<and> txn_active t = False)
      (\<lambda>_ t. txn_ok (g_env g) p t \<and> txn_active t = False) u"
    by simp
qed

lemma wp_account_begin:
  assumes "account g p N R False n u" and "quiet_sink (g_env g)" and "env_returns (g_env g)"
    and "length (hist u) \<le> N"
  shows "wp (txn_begin g p) (\<lambda>_. account g p N R True n) (\<lambda>_. account g p N R False n) u"
proof (rule wp_account [OF bridge_calls(3) bridge_held(1) fewer_offsets(1) assms(1)])
  have "txn_ok (g_env g) p u" "\<not> txn_active u" "txn_lease u = txn_active u"
    using assms(1,4) by (auto simp: account_def txn_ok_def)
  then show "wp (txn_begin g p) (\<lambda>_ t. txn_ok (g_env g) p t \<and> txn_active t = True)
      (\<lambda>_ t. txn_ok (g_env g) p t \<and> txn_active t = False) u"
    using assms(2,3)
    by (auto simp: txn_begin_def wp_simps cleared_def txn_ok_def push_def env_returns_def
      split: option.splits intro!: wp_emit_txn)
qed

lemma wp_account_commit:
  assumes "account g p N R True n u" and env: "quiet_sink (g_env g)" "env_returns (g_env g)" and "small (int N)"
  shows "wp (txn_commit g p) (\<lambda>_. account g p N R False (Suc n)) (\<lambda>_. account g p N R False n) u"
proof (cases "length (hist u) \<le> N")
  case True
  then have u: "txn_ok (g_env g) p u" "txn_active u" "rt u = R" "commits (g_env g) p (hist u) = n"
    and s: "small (int (length (txn_offsets u)))"
    using assms(1) small_le [OF assms(4)] by (simp_all add: account_def)
  have sent: "commits (g_env g) p (sends g p u @ hist u) = n"
    using u(4) by (simp add: sends_def split: option.split)
  have "wp (txn_commit g p) (\<lambda>_ t. rt t = R \<and> txn_offsets t = [] \<and> \<not> txn_active t \<and> commits (g_env g) p (hist t) = Suc n)
      (\<lambda>_ t. rt t = R \<and> txn_offsets t = [] \<and> \<not> txn_active t \<and> commits (g_env g) p (hist t) = n) u"
    by (rule wp_txn_commit [OF env u(1) s u(2)]) (use sent u(3) in \<open>auto simp: txn_finish_def cleared_def\<close>)
  from wp_conj [OF this txn_commit_ok [OF env u(1) s]] show ?thesis
    by (rule wp_mono) (simp_all add: account_def)
qed (rule wp_grown [OF bridge_calls(1)])

section \<open>The command\<close>

lemma bind_assoc: "bindM m (\<lambda>x. bindM (f x) k) = bindM (bindM m f) k"
  by (auto simp: bindM_def fun_eq_iff split: prod.split sum.split)

lemma between_ack: "between g p (bindM consumer_engine (\<lambda>cg. acknowledge cg cmd True))"
proof -
  have "keeps (calls_only engine_call) (bindM consumer_engine (\<lambda>cg. acknowledge cg cmd True))"
    unfolding consumer_engine_def by (intro keeps_intros keeps_calls_parts engine_calls.ef_acknowledge) simp
  moreover have "keeps (unchanged status) (bindM consumer_engine (\<lambda>cg. acknowledge cg cmd True))"
    by (intro keeps_intros parts_status statuses.ef_acknowledge) simp
  ultimately show ?thesis by (simp add: between_def run_consumer runs.ef_acknowledge)
qed

lemma account_ses: "account g p N R a n (u\<lparr>ses := s\<rparr>) = account g p N R a n u"
  by (simp add: account_def txn_ok_def)

lemma body_account:
  assumes engines: "rt_bridge R = Some (g, p)" "rt_consumer R = Some g" and bound: "small (int N)"
    and env: "quiet_sink (g_env g)" "env_returns (g_env g)" and "account g p N R True n u"
  shows "wp (transactional_body P g p True cmd) (\<lambda>_. account g p N R False (Suc n))
    (\<lambda>_ t. account g p N R True n t \<or> account g p N R False n t) u"
proof -
  note part = wp_between [OF _ _ engines bound env]
  show ?thesis
    unfolding transactional_body_def bind_assoc [of consumer_engine] whenM_def if_True
      wp_bind [of "publish_outputs _ _ _"] wp_bind [of "bindM consumer_engine _"] wp_bind [of "bindM (txn_commit _ _) _"]
      wp_bind [of "txn_commit _ _"]
    by (intro wp_mono [OF part [OF between_parts(1) assms(6)]], intro wp_mono [OF part [OF between_ack]], assumption,
        intro wp_mono [OF wp_account_commit [OF _ env bound]], assumption)
      (auto simp: wp_ret clear_touched_def set_ses_def wp_mod account_ses)
qed

lemma failed_account:
  assumes engines: "rt_bridge R = Some (g, p)" "rt_consumer R = Some g" and bound: "small (int N)"
    and env: "quiet_sink (g_env g)" "env_returns (g_env g)"
    and "account g p N R True n u \<or> account g p N R False n u"
  shows "wp (transactional_failed g p True x) (\<lambda>_ _. False) (\<lambda>_. account g p N R False n) u"
proof -
  note part = wp_between [OF _ _ engines bound env]
  have now: "account g p N R (txn_active u) n u" using assms(6) by (auto simp: account_def)
  have tail: "wp (bindM recover_touched (\<lambda>_. bindM clear_touched (\<lambda>_. throwM x))) (\<lambda>_ _. False) (\<lambda>_. account g p N R False n) v"
    if "account g p N R False n v" for v
    unfolding wp_bind
    by (intro wp_mono [OF part [OF between_parts(2) that]], intro wp_mono [OF part [OF between_parts(3)]])
      (auto simp: wp_throw)
  show ?thesis
    unfolding transactional_failed_def wp_bind [of "getM txn_active"] wp_get wp_bind [of "whenM _ _"] wp_when
    using now tail by (auto intro!: wp_mono [OF wp_account_abort [OF _ env bound]])
qed

lemma transactional_account:
  assumes engines: "rt_bridge (rt w) = Some (g, p)" "rt_consumer (rt w) = Some g" and bound: "small (int N)"
    and env: "quiet_sink (g_env g)" "env_returns (g_env g)"
    and "\<not> ss_active (ses w)" and "account g p N (rt w) False n w" and "length (hist w) \<le> N"
  shows "wp (execute_transactional P cmd) (\<lambda>_. account g p N (rt w) False (Suc n))
    (\<lambda>x u. x \<noteq> Diverged \<longrightarrow> account g p N (rt w) False n u) w"
proof -
  have touched: "account g p N (rt w) True n u \<Longrightarrow> (\<And>v. account g p N (rt w) True n v \<Longrightarrow> Q () v) \<Longrightarrow> wp (touch key) Q E u"
    for key Q E u by (simp add: touch_def set_ses_def wp_mod account_ses)
  note inside = wp_mono [OF body_account [OF engines bound env]] and after = wp_mono [OF failed_account [OF engines bound env]]
  have main: "wp (bindM (touch key) (\<lambda>_. exceptM (transactional_body P g p True cmd) (transactional_failed g p True)))
      (\<lambda>_. account g p N (rt w) False (Suc n)) (\<lambda>x u. x \<noteq> Diverged \<longrightarrow> account g p N (rt w) False n u) u"
    if "account g p N (rt w) True n u" for key u
    unfolding wp_bind by (rule touched [OF that]) (auto simp: wp_except intro!: inside after)
  show ?thesis
    unfolding execute_transactional_def wp_bridge engines(1) option.case prod.case wp_session Let_def
    using assms(6)
    by (auto simp: wp_bind [of "whenM _ _"] wp_when intro!: wp_mono [OF wp_account_begin [OF assms(7) env assms(8)]] wp_mono [OF main])
qed

section \<open>Properties\<close>

text \<open>
  C3. A consume-transform-publish command outside a transaction is all or nothing. If it returns,
  exactly one more transaction of the bridge's producer has been committed; if it raises, at
  whatever call of the begin, the publications, the acknowledgement, the commit or the recovery
  of the touched groups, none has. Either way the bridge is idle and in order afterwards. The
  sink is assumed not to raise and the run to make fewer than \<open>10 ^ 500\<close> calls.
\<close>

theorem transactional_all_or_nothing:
  assumes "execute_transactional P cmd w = (r, w')" and "r \<noteq> Inl Diverged"
    and "rt_bridge (rt w) = Some (g, p)" and "rt_consumer (rt w) = Some g"
    and "\<not> ss_active (ses w)" and "txn_ok (g_env g) p w" and "\<not> txn_active w"
    and "quiet_sink (g_env g)" and "env_returns (g_env g)" and "small (int (length (hist w')))"
  shows "commits (g_env g) p (hist w') = commits (g_env g) p (hist w) + (case r of Inr _ \<Rightarrow> 1 | Inl _ \<Rightarrow> 0)
    \<and> \<not> txn_active w' \<and> txn_ok (g_env g) p w'"
proof -
  let ?N = "length (hist w')"
  have "bridge_run g p w w'" by (rule keepsD [OF run_transactional assms(1)])
  then have "length (hist w) \<le> ?N" using assms(3,4) by (simp add: bridge_run_def)
  moreover have "account g p ?N (rt w) False (commits (g_env g) p (hist w)) w"
    using assms(6,7) by (simp add: account_def txn_ok_def)
  ultimately have "wp (execute_transactional P cmd)
      (\<lambda>_. account g p ?N (rt w) False (Suc (commits (g_env g) p (hist w))))
      (\<lambda>x u. x \<noteq> Diverged \<longrightarrow> account g p ?N (rt w) False (commits (g_env g) p (hist w)) u) w"
    by (intro transactional_account assms)
  then show ?thesis
    using assms(1,2) by (cases r) (auto simp: account_def dest: wp_Inr wp_Inl)
qed

subsection \<open>Witness\<close>

text \<open>A runtime whose consumer holds the event of \<open>sample_issued\<close>, and a command that acknowledges it.\<close>

definition working_world :: runtime_world where
  "working_world = sample_runtime_world\<lparr>rt := sample_runtime\<lparr>rt_producer := Some sample_consumer_ctx,
     rt_consumer := Some sample_consumer_ctx, rt_bridge := Some (sample_consumer_ctx, 0)\<rparr>\<rparr>"

definition sample_transform :: "string \<Rightarrow> transactional_command" where
  "sample_transform tok = \<lparr>tx_poll = sample_poll, tx_delivery = JStr tok, tx_outputs = []\<rparr>"

lemma begin_runs:
  fixes w :: "'w txn_world_scheme"
  assumes "\<forall>h. e_raises (g_env g) h = None" and "\<not> txn_lease w"
  shows "wp (txn_begin g p) (\<lambda>_ u. \<exists>evs ev. u = w\<lparr>txn_lease := True, txn_active := True, txn_offsets := [],
      txn_group_metadata := None, txn_group_key := None, tel_events := evs,
      hist := SinkEmit ev # UtcNow # BeginTransaction p # hist w\<rparr>) (\<lambda>_ _. False) w"
proof -
  have q: "quiet_sink (g_env g)" using assms(1) by (simp add: quiet_sink_def)
  show ?thesis
    using assms by (auto simp: txn_begin_def wp_simps cleared_def push_def intro!: wp_emit_txn [OF q] exI)
qed

lemma dset_nonempty: "dset k v d \<noteq> []"
  by (cases d) (auto split: prod.split)

lemma settle_runs:
  fixes w :: "'w consumer_world_scheme"
  assumes env: "\<forall>h. e_raises (g_env g) h = None" and "txn_active w" and "txn_group_key w = None"
    and "\<forall>h. \<not> isl (encode_position (g_core g) (g_digests g) (g_codec g) (ps_ref (ack_stream cmd))
      (ps_topic (ack_stream cmd)) (dc_partition co) (safe_target (dc_partition co) (dc_offset co) (grp w)) None
      (e_time_ns (g_env g) h div 1000000))"
    and "safe_start (dc_partition co) (dc_offset co) (grp w) < safe_target (dc_partition co) (dc_offset co) (grp w)"
  shows "wp (settle g cmd True co) (\<lambda>_ u. txn_active u \<and> txn_group_metadata u \<noteq> None \<and> txn_offsets u \<noteq> []
      \<and> length (txn_offsets u) \<le> Suc (length (txn_offsets w)) \<and> length (hist u) = length (hist w) + 4) (\<lambda>_ _. False) w"
proof -
  let ?part = "dc_partition co" and ?off = "dc_offset co"
  have q: "quiet_sink (g_env g)" using env by (simp add: quiet_sink_def)
  obtain pos where pos: "encode_position (g_core g) (g_digests g) (g_codec g) (ps_ref (ack_stream cmd))
      (ps_topic (ack_stream cmd)) ?part (safe_target ?part ?off (grp w)) None
      (e_time_ns (g_env g) (TimeNs # GroupMetadata (gs_consumer (grp w)) # hist w) div 1000000) = Inr pos"
    using assms(4) by (metis isl_def sum.exhaust_sel)
  show ?thesis
    using assms(1-3,5) pos length_dset_le [of "(ps_topic (ack_stream cmd), ?part)" _ "txn_offsets w"]
    by (auto simp: settle_def settle_from_def commit_safe_def stage_offset_def wp_simps Let_def push_def
        resolved_update_def safe_update_def dset_nonempty intro!: wp_emit_quiet [OF q acknowledge_attributes])
qed

lemma commit_runs:
  fixes w :: "'w txn_world_scheme"
  assumes env: "\<forall>h. e_raises (g_env g) h = None" and "txn_active w" and "txn_group_metadata w \<noteq> None"
    and "txn_offsets w \<noteq> []" and "small (int (length (txn_offsets w)))"
  shows "wp (txn_commit g p) (\<lambda>_ u. length (hist u) \<le> length (hist w) + 4) (\<lambda>_ _. False) w"
proof -
  have q: "quiet_sink (g_env g)" using env by (simp add: quiet_sink_def)
  show ?thesis
    using assms
    by (auto simp: txn_commit_def send_staged_def wp_simps push_def txn_finish_def cleared_def
        intro!: wp_emit_txn(3) [OF q])
qed

lemma transform_returns:
  "wp (execute_transactional P (sample_transform sample_issued)) (\<lambda>_ u. length (hist u) \<le> 12) (\<lambda>_ _. False) working_world"
proof -
  let ?g = sample_consumer_ctx and ?w = working_world and ?ack = "transactional_ack (sample_transform sample_issued)"
  have w: "rt_bridge (rt ?w) = Some (?g, 0)" "rt_consumer (rt ?w) = Some ?g" "\<not> txn_lease ?w" "\<not> ss_active (ses ?w)" "hist ?w = []"
    "states ?w = [((sample_ref ''sub'', sample_ref ''g''), sample_group_state)]"
    by (simp_all add: working_world_def sample_runtime_world_def sample_session_def)
  have ack: "ack_key ?ack = (sample_ref ''sub'', sample_ref ''g'')" "ack_delivery ?ack = JStr sample_issued"
    "ps_ref (ack_stream ?ack) = sample_ref ''a''" "ps_topic (ack_stream ?ack) = ''t''"
    "sub_ref (ack_subscription ?ack) = sample_ref ''sub''" "cg_ref (ack_consumer_group ?ack) = sample_ref ''g''"
    by (simp_all add: transactional_ack_def sample_transform_def sample_poll_def ack_key_def sample_subscription_def
        sample_group_def)
  obtain u1 where began: "txn_begin ?g 0 ?w = (Inr (), u1)" and u1: "txn_active u1" "txn_group_key u1 = None" "txn_offsets u1 = []"
      "rt u1 = rt ?w" "states u1 = states ?w" "length (hist u1) = 3"
    using begin_runs [of ?g ?w 0] w(3,5) by (auto simp: wp_def split: prod.splits sum.splits)
  define s2 where "s2 = (ses u1)\<lparr>ss_touched := (if state_key sample_poll \<in> set (ss_touched (ses u1)) then ss_touched (ses u1)
      else ss_touched (ses u1) @ [state_key sample_poll])\<rparr>"
  let ?u2 = "u1\<lparr>ses := s2\<rparr>"
  let ?u3 = "push TimeNs (?u2\<lparr>grp := sample_group_state\<rparr>)"
  have enc: "\<forall>h. \<not> isl (encode_position (g_core ?g) (g_digests ?g) (g_codec ?g) (ps_ref (ack_stream ?ack))
      (ps_topic (ack_stream ?ack)) 0 (safe_target 0 5 sample_group_state) None (e_time_ns (g_env ?g) h div 1000000))"
    using sample_position by (simp add: ack sample_settles)
  have co: "dc_partition sample_coordinates = 0" "dc_offset sample_coordinates = 5" by (simp_all add: sample_coordinates_def)
  have "wp (settle ?g ?ack True sample_coordinates) (\<lambda>_ u. txn_active u \<and> txn_group_metadata u \<noteq> None \<and> txn_offsets u \<noteq> []
      \<and> length (txn_offsets u) \<le> Suc (length (txn_offsets ?u3)) \<and> length (hist u) = length (hist ?u3) + 4) (\<lambda>_ _. False) ?u3"
    by (rule settle_runs) (use enc u1 in \<open>simp_all add: co sample_settles push_def\<close>)
  then obtain ar u4 where settle: "settle ?g ?ack True sample_coordinates ?u3 = (Inr ar, u4)" and u4: "txn_active u4"
      "txn_group_metadata u4 \<noteq> None" "txn_offsets u4 \<noteq> []" "length (txn_offsets u4) \<le> 1" "length (hist u4) = 8"
    using u1 by (auto simp: wp_def push_def split: prod.splits sum.splits)
  have g3: "grp ?u3 = sample_group_state" by (simp add: push_def)
  let ?u5 = "u4\<lparr>states := dset (ack_key ?ack) (grp u4) (states u4)\<rparr>"
  have "ack_group ?g ?ack True (?u2\<lparr>grp := sample_group_state\<rparr>) = (Inr ar, u4)"
    using settle g3 by (simp add: ack_group_def bindM_def decode_token_run getM_def ack sample_decoded sample_settles)
  then have ack_run: "acknowledge ?g ?ack True ?u2 = (Inr ar, ?u5)"
    unfolding acknowledge_def by (rule existing_run [rotated]) (simp add: u1 w ack)
  have "wp (txn_commit ?g 0) (\<lambda>_ u. length (hist u) \<le> length (hist ?u5) + 4) (\<lambda>_ _. False) ?u5"
    by (rule commit_runs) (use u4 in \<open>simp_all add: small_def\<close>)
  then obtain u6 where commit: "txn_commit ?g 0 ?u5 = (Inr (), u6)" and u6: "length (hist u6) \<le> 12"
    using u4 by (auto simp: wp_def split: prod.splits sum.splits)
  have rt: "rt ?u2 = rt ?w" using u1 by simp
  have "transactional_body P ?g 0 True (sample_transform sample_issued) ?u2
      = (Inr (JObj [(''receipts'', JList []), (''acknowledgement'', ack_json P ar), (''transactional'', JBool True)]),
         u6\<lparr>ses := (ses u6)\<lparr>ss_touched := []\<rparr>\<rparr>)"
    using ack_run commit w(2) u1(4)
    by (simp add: transactional_body_def sample_transform_def consumer_engine_def rtM_def clear_touched_def set_ses_def op_defs)
  then have "exceptM (transactional_body P ?g 0 True (sample_transform sample_issued))
      (transactional_failed ?g 0 True) ?u2
      = (Inr (JObj [(''receipts'', JList []), (''acknowledgement'', ack_json P ar), (''transactional'', JBool True)]),
         u6\<lparr>ses := (ses u6)\<lparr>ss_touched := []\<rparr>\<rparr>)"
    by (simp add: exceptM_def catchM_def)
  moreover have "touch (state_key (tx_poll (sample_transform sample_issued))) u1 = (Inr (), ?u2)"
    by (simp add: touch_def set_ses_def modM_def s2_def sample_transform_def)
  ultimately have "execute_transactional P (sample_transform sample_issued) ?w
      = (Inr (JObj [(''receipts'', JList []), (''acknowledgement'', ack_json P ar), (''transactional'', JBool True)]),
         u6\<lparr>ses := (ses u6)\<lparr>ss_touched := []\<rparr>\<rparr>)"
    using began w(1,4) by (simp add: execute_transactional_def the_bridge_def rtM_def sesM_def op_defs)
  then show ?thesis using u6 by (simp add: wp_def)
qed

theorem transactional_all_or_nothing_witness:
  "\<exists>d w'. execute_transactional sample_params (sample_transform sample_issued) working_world = (Inr d, w')
     \<and> commits sample_consumer_env 0 (hist w') = 1 \<and> \<not> txn_active w'"
proof -
  obtain d w' where run: "execute_transactional sample_params (sample_transform sample_issued) working_world = (Inr d, w')"
    and l: "length (hist w') \<le> 12"
    using transform_returns [of sample_params] by (auto simp: wp_def split: prod.splits sum.splits)
  have s: "small (int (length (hist w')))" using l by (simp add: small_def)
  have env: "quiet_sink (g_env sample_consumer_ctx)" "env_returns (g_env sample_consumer_ctx)"
    by (simp_all add: quiet_sink_def env_returns_def)
  have w: "rt_bridge (rt working_world) = Some (sample_consumer_ctx, 0)" "rt_consumer (rt working_world) = Some sample_consumer_ctx"
    "\<not> ss_active (ses working_world)" "txn_ok (g_env sample_consumer_ctx) 0 working_world" "\<not> txn_active working_world"
    "hist working_world = []"
    by (simp_all add: working_world_def sample_runtime_world_def sample_session_def txn_ok_def)
  from transactional_all_or_nothing [OF run _ w(1-5) env s] show ?thesis
    using run w(6) by simp
qed

end
