(* ===== verification/Lifecycle.thy ===== *)
theory Lifecycle
  imports Session_Safety
begin

text \<open>
  Opening, closing and rotating a runtime: it is open with all its components, of one Binding and
  probed, or it has none.
\<close>

section \<open>Closing\<close>

abbreviation keeps_rt :: "('w, 'a) runtime_op \<Rightarrow> bool" where
  "keeps_rt m \<equiv> keeps (unchanged rt) m"

lemma status_rt: "keeps (unchanged status) m \<Longrightarrow> keeps_rt m"
  by (simp add: keeps_def unchanged_def status_def)

lemma held_rt: "keeps (unchanged held) m \<Longrightarrow> keeps_rt m"
  by (simp add: keeps_def unchanged_def held_def)

lemma wp_rt: "keeps_rt m \<Longrightarrow> wp m (\<lambda>_ u. rt u = rt w) (\<lambda>_ u. rt u = rt w) w"
  by (auto simp: wp_def unchanged_def split: prod.split sum.split dest: keepsD)

lemma closing_rt: "keeps_rt (close_engines consumer transaction producer)"
proof -
  have "keeps (unchanged held) (txn_close g p)" for g p
    unfolding txn_close_def by (intro keeps_intros ignores_held bridge_held)
  then show ?thesis
    unfolding close_engines_def
    by (intro keeps_intros status_rt [OF statuses.ef_consumer_close] status_rt [OF statuses.ef_producer_close] held_rt)
qed

lemma wp_close_components:
  "wp close_components (\<lambda>_ u. rt u = stripped (rt w)) (\<lambda>_ u. rt u = stripped (rt w)) w"
  using wp_rt [OF closing_rt, of _ _ _ "w\<lparr>rt := stripped (rt w)\<rparr>"]
  by (simp add: close_components_def rtM_def set_rt_def wp_simps)

section \<open>Opening\<close>

text \<open>A runtime with all its components, built on one client configuration.\<close>

definition complete :: "adapter_params \<Rightarrow> runtime \<Rightarrow> bool" where
  "complete P r \<longleftrightarrow> (\<exists>g admin. rt_admin r = Some admin \<and> rt_probe r = Some (g, admin) \<and> rt_producer r = Some g
     \<and> rt_consumer r = Some g \<and> g_settings g = rt_settings r
     \<and> (case rt_bridge r of None \<Rightarrow> \<not> transaction_enabled (rt_settings r)
        | Some (h, _) \<Rightarrow> transaction_enabled (rt_settings r) \<and> h = g))"

definition empty :: "runtime \<Rightarrow> bool" where
  "empty r \<longleftrightarrow> rt_admin r = None \<and> rt_probe r = None \<and> rt_producer r = None \<and> rt_consumer r = None \<and> rt_bridge r = None"

text \<open>Between two worlds, the runtime's probe has been run and has succeeded.\<close>

definition probed :: "adapter_params \<Rightarrow> 'w runtime_world_scheme \<Rightarrow> 'w runtime_world_scheme \<Rightarrow> bool" where
  "probed P w u \<longleftrightarrow> (\<exists>g admin pr v v'. rt_probe (rt u) = Some (g, admin)
     \<and> probe g (ap_scram P) (ap_spi P) admin v = (Inr pr, v')
     \<and> calls_only (\<lambda>_. True) w v \<and> calls_only (\<lambda>_. True) v' u)"

lemma opened_attributes:
  assumes "small (int n)"
  shows "list_all valid_attribute [(''transactionEnabled'', TBool b), (''resourceCount'', TInt (int n))]"
    "valid_key ''meridian.kafka.runtime.opened''"
proof -
  have "valid_key ''transactionEnabled''" "valid_key ''resourceCount''" by code_simp+
  then show "list_all valid_attribute [(''transactionEnabled'', TBool b), (''resourceCount'', TInt (int n))]"
    using assms by (simp add: valid_attribute_TBool valid_attribute_TInt)
qed code_simp

text \<open>What opening does not assign.\<close>

definition core_of :: "runtime \<Rightarrow> create_context \<times> settings \<times> bool \<times> bool" where
  "core_of r = (rt_context r, rt_settings r, rt_opened r, rt_closed r)"

lemma later_push: "calls_only (\<lambda>_. True) v u \<Longrightarrow> hist v = c # hist w \<Longrightarrow> calls_only (\<lambda>_. True) w u"
  by (auto simp: calls_only_def intro: exI [of _ "_ @ [c]"])

lemma transactions_opened:
  "wp (open_transactions P g)
    (\<lambda>_ u. (\<exists>client. rt u = (rt w)\<lparr>rt_bridge := Some (g, client)\<rparr>) \<and> calls_only (\<lambda>_. True) w u)
    (\<lambda>_ u. core_of (rt u) = core_of (rt w)) w"
proof -
  have "keeps (unchanged held) (txn_open g client)" for client
    unfolding txn_open_def by (intro keeps_intros ignores_held)
  moreover have "keeps (calls_only (\<lambda>_. True)) (txn_open g client)" for client
    unfolding txn_open_def by (intro keeps_intros TrueI)
  ultimately have opens: "wp (txn_open g client) (\<lambda>_ u. rt u = rt v \<and> calls_only (\<lambda>_. True) v u) (\<lambda>_ u. rt u = rt v) v"
    for client and v :: "'w runtime_world_scheme"
    by (rule wp_mono [OF wp_conj [OF wp_rt [OF held_rt] keeps_wp]]) simp_all
  show ?thesis
    unfolding open_transactions_def
    by (auto simp: wp_simps set_rt_def push_def new_bridge_def core_of_def split: sum.split option.split
        intro!: wp_mono [OF opens] elim: later_push)
qed

lemma probe_rt: "keeps_rt (probe g d s admin)"
  by (rule status_rt [OF statuses.ef_probe])

lemma wp_result: "wp m (\<lambda>x t. m s = (Inr x, t)) (\<lambda>x t. m s = (Inl x, t)) s"
  by (simp add: wp_def split: prod.split sum.split)

lemma later_refl: "calls_only (\<lambda>_. True) w w" and later_trans:
  "calls_only (\<lambda>_. True) w u \<Longrightarrow> calls_only (\<lambda>_. True) u v \<Longrightarrow> calls_only (\<lambda>_. True) w v"
  by (rule calls.rel_refl) (rule calls.rel_trans)

lemma wp_set_rt: "wp (set_rt f) Q E w = Q () (w\<lparr>rt := f (rt w)\<rparr>)"
  by (simp add: set_rt_def wp_mod)

lemma reported_opened:
  assumes "quiet_sink e" and "small (int n)"
  shows "wp (bindM (set_rt (\<lambda>r. r\<lparr>rt_opened := True\<rparr>)) (\<lambda>_. emit e ''meridian.kafka.runtime.opened''
      [(''transactionEnabled'', TBool b), (''resourceCount'', TInt (int n))]))
    (\<lambda>_ u. rt u = (rt v)\<lparr>rt_opened := True\<rparr> \<and> calls_only (\<lambda>_. True) v u) E v"
  unfolding wp_bind wp_set_rt
  by (rule wp_emit_quiet [OF assms(1) opened_attributes [OF assms(2)]])
    (auto simp: calls_only_def intro: exI [of _ "[_, _]"])

lemma tail_opened:
  fixes v :: "'w runtime_world_scheme"
  assumes "quiet_sink e" and "small (int n)"
    and "rt v = r\<lparr>rt_admin := Some admin, rt_probe := Some (g, admin), rt_producer := Some g, rt_consumer := Some g\<rparr>"
    and "rt_bridge r = None" and "g_settings g = rt_settings r"
  shows "wp (bindM (probe g (ap_scram P) (ap_spi P) admin) (\<lambda>_.
      bindM (whenM (transaction_enabled (rt_settings r)) (open_transactions P g)) (\<lambda>_.
      bindM (set_rt (\<lambda>r. r\<lparr>rt_opened := True\<rparr>)) (\<lambda>_. emit e ''meridian.kafka.runtime.opened''
        [(''transactionEnabled'', TBool b), (''resourceCount'', TInt (int n))]))))
    (\<lambda>_ u. complete P (rt u) \<and> core_of (rt u) = (rt_context r, rt_settings r, True, rt_closed r) \<and> probed P v u)
    (\<lambda>_ u. core_of (rt u) = core_of r) v"
proof -
  let ?m = "probe g (ap_scram P) (ap_spi P) admin"
  note report = wp_mono [OF reported_opened [OF assms(1,2)]]
  have rest: "wp (bindM (whenM (transaction_enabled (rt_settings r)) (open_transactions P g)) (\<lambda>_.
      bindM (set_rt (\<lambda>r. r\<lparr>rt_opened := True\<rparr>)) (\<lambda>_. emit e ''meridian.kafka.runtime.opened''
        [(''transactionEnabled'', TBool b), (''resourceCount'', TInt (int n))])))
    (\<lambda>_ u. complete P (rt u) \<and> core_of (rt u) = (rt_context r, rt_settings r, True, rt_closed r) \<and> probed P v u)
    (\<lambda>_ u. core_of (rt u) = core_of r) t" if "?m v = (Inr pr, t)" and "rt t = rt v" for pr t
  proof (cases "transaction_enabled (rt_settings r)")
    case True
    have "wp (bindM (set_rt (\<lambda>r. r\<lparr>rt_opened := True\<rparr>)) (\<lambda>_. emit e ''meridian.kafka.runtime.opened''
        [(''transactionEnabled'', TBool b), (''resourceCount'', TInt (int n))]))
      (\<lambda>_ u. complete P (rt u) \<and> core_of (rt u) = (rt_context r, rt_settings r, True, rt_closed r) \<and> probed P v u) E u"
      if "rt u = (rt t)\<lparr>rt_bridge := Some (g, client)\<rparr>" "calls_only (\<lambda>_. True) t u" for E u client
      by (rule report)
        (use True that \<open>?m v = _\<close> \<open>rt t = _\<close> assms in \<open>auto simp: complete_def core_of_def probed_def intro: later_refl later_trans\<close>)
    then show ?thesis
      using True that assms(3)
      by (simp add: wp_bind [of "whenM _ _"] wp_when)
        (auto simp: core_of_def intro!: wp_mono [OF transactions_opened])
  next
    case False
    have "wp (bindM (set_rt (\<lambda>r. r\<lparr>rt_opened := True\<rparr>)) (\<lambda>_. emit e ''meridian.kafka.runtime.opened''
        [(''transactionEnabled'', TBool b), (''resourceCount'', TInt (int n))]))
      (\<lambda>_ u. complete P (rt u) \<and> core_of (rt u) = (rt_context r, rt_settings r, True, rt_closed r) \<and> probed P v u) E t" for E
      by (rule report)
        (use False that assms in \<open>auto simp: complete_def core_of_def probed_def intro: later_refl later_trans\<close>)
    then show ?thesis using False by (simp add: wp_bind [of "whenM _ _"] wp_when)
  qed
  have "wp ?m (\<lambda>x t. ?m v = (Inr x, t) \<and> rt t = rt v) (\<lambda>_ t. rt t = rt v) v"
    by (rule wp_mono [OF wp_conj [OF wp_result wp_rt [OF probe_rt]]]) simp_all
  then show ?thesis
    unfolding wp_bind [of ?m] using rest assms(3) by (elim wp_mono) (auto simp: core_of_def)
qed

lemma probed_later: "calls_only (\<lambda>_. True) w v \<Longrightarrow> probed P v u \<Longrightarrow> probed P w u"
  unfolding probed_def using later_trans by blast

lemma components_opened:
  assumes "quiet_sink (g_env (ap_ctx P))" and "small (int (length (st_resources (rt_settings (rt w)))))"
    and "rt_bridge (rt w) = None"
  shows "wp (open_components P)
    (\<lambda>_ u. complete P (rt u) \<and> core_of (rt u) = (rt_context (rt w), rt_settings (rt w), True, rt_closed (rt w)) \<and> probed P w u)
    (\<lambda>_ u. core_of (rt u) = core_of (rt w)) w"
proof -
  note tail = wp_mono [OF tail_opened [OF assms(1,2) _ assms(3)]]
  have later: "calls_only (\<lambda>_. True) w (w\<lparr>hist := c # d # hist w, idempotency := x, states := y, engine_closed := z, rt := r\<rparr>)"
    for c d x y z r by (auto simp: calls_only_def intro: exI [of _ "[_, _]"])
  show ?thesis
    unfolding open_components_def Let_def rtM_def wp_bind [of "getM _"] wp_get wp_bind [of "liftE _"] wp_lift
      wp_bind [of "request _ _ _"] wp_request wp_bind [of "modM _"] wp_mod wp_bind [of "set_rt _"] wp_set_rt new_engines_def push_def
    by (auto split: sum.split option.split simp: engine_ctx_def intro!: tail intro: probed_later [OF later])
qed

lemma runtime_opened:
  assumes "quiet_sink (g_env (ap_ctx P))" and "small (int (length (st_resources (rt_settings (rt w)))))"
    and "rt_bridge (rt w) = None" and "\<not> rt_opened (rt w)" and "\<not> rt_closed (rt w)"
  shows "wp (open_runtime P)
    (\<lambda>_ u. complete P (rt u) \<and> core_of (rt u) = (rt_context (rt w), rt_settings (rt w), True, False) \<and> probed P w u)
    (\<lambda>x u. x \<noteq> Diverged \<longrightarrow> empty (rt u) \<and> core_of (rt u) = core_of (rt w)) w"
proof -
  have closed: "wp (bindM close_components (\<lambda>_. throwM x)) (\<lambda>_ _. False)
      (\<lambda>_ u. empty (rt u) \<and> core_of (rt u) = core_of (rt v)) v" for x and v :: "'a runtime_world_scheme"
    unfolding wp_bind
    by (rule wp_mono [OF wp_close_components]) (simp_all add: wp_throw empty_def core_of_def stripped_def)
  show ?thesis
    using assms(4,5) unfolding open_runtime_def rtM_def wp_bind [of "getM _"] wp_get
    by (auto simp: wp_except intro!: wp_mono [OF components_opened [OF assms(1-3)]] wp_mono [OF closed])
qed

section \<open>Rotating credentials\<close>

lemma engines_put [simp]: "engines_of (put_engines es w) = es"
  by (simp add: engines_of_def put_engines_def)

lemma engines_rt [simp]: "engines_of (w\<lparr>rt := r\<rparr>) = engines_of w" "rt (put_engines es w) = rt w"
  by (simp_all add: engines_of_def put_engines_def)

lemma wp_reraise: "wp (bindM m (\<lambda>_. throwM x)) Q (\<lambda>_ _. True) w"
  by (simp add: wp_def bindM_def throwM_def split: prod.split sum.split)

lemma ignores_owned: "ignores_calls (\<lambda>w. (rt w, engines_of w))"
  unfolding ignores_calls_def by (simp add: engines_of_def)

text \<open>A replacement that opened is a complete runtime of the new context, and its probe succeeded.\<close>

lemma replacement_opened:
  assumes "quiet_sink (g_env (ap_ctx P))" and "small (int (length (st_resources (rt_settings new))))"
    and "empty new" and "\<not> rt_opened new" and "\<not> rt_closed new"
    and "on_replacement new (open_replacement P) w = (Inr (new', es), w')"
  shows "rt w' = rt w \<and> engines_of w' = engines_of w \<and> complete P new'
    \<and> rt_context new' = rt_context new \<and> rt_settings new' = rt_settings new"
proof -
  let ?w = "put_engines fresh_engines (w\<lparr>rt := new\<rparr>)"
  obtain u where run: "open_replacement P ?w = (Inr (), u)" and u: "new' = rt u" "w' = put_engines (engines_of w) (u\<lparr>rt := rt w\<rparr>)"
    using assms(6) by (auto simp: on_replacement_def split: prod.splits sum.splits)
  have opened: "wp (open_runtime P)
    (\<lambda>_ u. complete P (rt u) \<and> core_of (rt u) = (rt_context new, rt_settings new, True, False) \<and> probed P ?w u)
    (\<lambda>x u. x \<noteq> Diverged \<longrightarrow> empty (rt u) \<and> core_of (rt u) = core_of new) ?w"
    using runtime_opened [OF assms(1), of ?w] assms(2-5) by (simp add: empty_def)
  have probing: "keeps_rt (runtime_probe P)"
    unfolding runtime_probe_def require_probe_def
    by (intro keeps_intros probe_rt status_rt [OF parts_status(2)] status_rt [OF reading_status(1)])
  have "wp (exceptM (bindM (runtime_probe P) (\<lambda>_. retM ())) (\<lambda>x. bindM (close_runtime P) (\<lambda>_. throwM x)))
      (\<lambda>_ t. rt t = rt v) (\<lambda>_ _. True) v" for v :: "'a runtime_world_scheme"
    unfolding wp_except wp_bind [of "runtime_probe P"]
    by (rule wp_mono [OF wp_rt [OF probing]]) (auto simp: wp_ret wp_reraise)
  note kept = this
  have "wp (open_replacement P) (\<lambda>_ u. complete P (rt u) \<and> core_of (rt u) = (rt_context new, rt_settings new, True, False))
      (\<lambda>_ _. True) ?w"
    unfolding open_replacement_def wp_bind [of "open_runtime P"]
    by (rule wp_mono [OF opened], rule wp_mono [OF kept]) simp_all
  from wp_Inr [OF this run] show ?thesis using u by (simp add: core_of_def)
qed

lemma mk_runtime_Inr:
  assumes "mk_runtime P a b cx = Inr r"
  shows "empty r" and "\<not> rt_opened r" and "\<not> rt_closed r" and "rt_context r = cx"
    and "from_context (g_core (ap_ctx P)) (sp_version (ap_spi P)) cx = Inr (rt_settings r)"
  using assms by (auto simp: mk_runtime_def empty_def bindE_def split: if_splits sum.splits)

lemma swapped_eq: "swapped new r = new\<lparr>rt_opened := rt_opened r, rt_closed := rt_closed r\<rparr>"
  by (simp add: swapped_def)

lemma closing_old_engines:
  "wp (with_engines old (close_engines a b c)) (\<lambda>_ t. rt t = rt u \<and> engines_of t = engines_of u)
     (\<lambda>_ t. rt t = rt u \<and> engines_of t = engines_of u) u"
  using wp_rt [OF closing_rt, of a b c "put_engines old u"]
  by (auto simp: wp_def with_engines_def split: prod.splits sum.splits)

text \<open>The swap of a rotation, and the closing of the old engines and the evidence after it.\<close>

lemma swap_wp:
  fixes w v :: "'w runtime_world_scheme"
  assumes S: "\<And>u :: 'w runtime_world_scheme. rt u = swapped new (rt w) \<Longrightarrow> engines_of u = es \<Longrightarrow> S u"
    and v: "rt v = rt w" "engines_of v = engines_of w"
  shows "wp (bindM require_open (\<lambda>_. bindM (getM engines_of) (\<lambda>old_es. bindM (set_rt (swapped new)) (\<lambda>_.
      bindM (modM (put_engines es)) (\<lambda>_. bindM (with_engines old_es (close_engines a b c)) (\<lambda>_.
      emit e name as))))))
    (\<lambda>_. S) (\<lambda>_ u. rt u = rt w \<and> engines_of u = engines_of w \<or> S u) v"
proof -
  have r: "require_open v = (if \<not> rt_opened (rt v) \<or> rt_closed (rt v) then Inl (PyExc RuntimeError) else Inr (), v)"
    by (simp add: require_open_def rtM_def op_defs)
  have evidence: "wp (emit e name as) (\<lambda>_. S) (\<lambda>_ t. rt t = rt w \<and> engines_of t = engines_of w \<or> S t) u"
    if "rt u = swapped new (rt w)" "engines_of u = es" for u
  proof (rule wp_mono [OF keeps_wp [OF unchanged_emit [OF ignores_owned], of e name as u]])
    fix t
    assume "unchanged (\<lambda>w. (rt w, engines_of w)) u t"
    then have "rt t = swapped new (rt w)" "engines_of t = es" using that by (simp_all add: unchanged_def)
    then show "S t" by (rule S)
    then show "rt t = rt w \<and> engines_of t = engines_of w \<or> S t" ..
  qed
  have "rt (put_engines es (v\<lparr>rt := swapped new (rt v)\<rparr>)) = swapped new (rt w)" using v by simp
  then have "wp (bindM (with_engines (engines_of v) (close_engines a b c)) (\<lambda>_. emit e name as))
      (\<lambda>_. S) (\<lambda>_ u. rt u = rt w \<and> engines_of u = engines_of w \<or> S u) (put_engines es (v\<lparr>rt := swapped new (rt v)\<rparr>))"
    unfolding wp_bind
    by (intro wp_mono [OF closing_old_engines] evidence disjI2 S) simp_all
  moreover have "bindM require_open (\<lambda>_. bindM (getM engines_of) (\<lambda>old_es. bindM (set_rt f) (\<lambda>_.
      bindM (modM h) (\<lambda>_. k old_es)))) v = (if \<not> rt_opened (rt v) \<or> rt_closed (rt v) then (Inl (PyExc RuntimeError), v)
        else k (engines_of v) (h (v\<lparr>rt := f (rt v)\<rparr>)))" for f h and k :: "engine_state \<Rightarrow> ('w, unit) runtime_op"
    by (simp add: bindM_def r getM_def modM_def set_rt_def)
  ultimately show ?thesis using v by (simp add: wp_def)
qed

section \<open>Properties\<close>

text \<open>
  C9. Opening a runtime is all or nothing. If it returns, the runtime is open with an admin
  client, a probe that has succeeded, a producer and a consumer built on the settings of its
  Binding, and a bridge exactly when transactions are enabled. If it raises, at whatever client
  or broker call, no component is left and the runtime is not open. The sink is assumed not to
  raise.
\<close>

theorem open_all_or_nothing:
  assumes "open_runtime P w = (r, w')" and "r \<noteq> Inl Diverged"
    and "empty (rt w)" and "\<not> rt_opened (rt w)" and "\<not> rt_closed (rt w)"
    and "quiet_sink (g_env (ap_ctx P))" and "small (int (length (st_resources (rt_settings (rt w)))))"
  shows "rt_settings (rt w') = rt_settings (rt w) \<and> rt_context (rt w') = rt_context (rt w)
    \<and> (case r of Inr _ \<Rightarrow> rt_opened (rt w') \<and> complete P (rt w') \<and> probed P w w'
       | Inl _ \<Rightarrow> \<not> rt_opened (rt w') \<and> empty (rt w'))"
proof -
  have "rt_bridge (rt w) = None" using assms(3) by (simp add: empty_def)
  from runtime_opened [OF assms(6,7) this assms(4,5)] show ?thesis
    using assms(1,2,4) by (cases r) (auto simp: core_of_def dest: wp_Inr wp_Inl)
qed


subsection \<open>Witnesses\<close>

text \<open>A runtime of the sample cluster that has not been opened.\<close>

definition cluster_params :: adapter_params where
  "cluster_params = sample_params\<lparr>ap_ctx := cluster_ctx\<rparr>"

definition fresh_runtime :: "settings \<Rightarrow> runtime" where
  "fresh_runtime s = \<lparr>rt_context = sample_context, rt_settings = s, rt_admin = None, rt_probe = None,
     rt_producer = None, rt_consumer = None, rt_bridge = None, rt_opened = False, rt_closed = False\<rparr>"

definition unopened_world :: runtime_world where
  "unopened_world = sample_runtime_world\<lparr>rt := fresh_runtime cluster_settings\<rparr>"

lemma cluster_opens: "\<exists>w'. open_runtime cluster_params unopened_world = (Inr (), w')"
proof -
  let ?s = cluster_settings and ?w = unopened_world
  have P: "g_env (ap_ctx cluster_params) = cluster_env" "ap_scram cluster_params = sample_scram_digests"
    "ap_spi cluster_params = sample_spi"
    by (simp_all add: cluster_params_def sample_params_def)
  have rt: "rt ?w = fresh_runtime ?s" by (simp add: unopened_world_def)
  have "\<not> isl (admin_config ?s)" "\<not> isl (producer_config ?s False)"
    "\<not> isl (cursor_codec (se_cursor_keys (st_secrets ?s)) (st_cursor_ttl_ms ?s))" by code_simp+
  then obtain a p c where cfg: "admin_config ?s = Inr a" "producer_config ?s False = Inr p"
    "cursor_codec (se_cursor_keys (st_secrets ?s)) (st_cursor_ttl_ms ?s) = Inr c" by (metis isl_def sum.exhaust_sel)
  have n: "small (int (length (st_resources ?s)))" by code_simp
  have probes: "wp (probe (engine_ctx cluster_params ?s c producer) sample_scram_digests sample_spi admin)
      (\<lambda>_ t. True) (\<lambda>_ _. False) v" for producer admin and v :: runtime_world
    using cluster_probe_runs [of "engine_ctx cluster_params ?s c producer" admin v]
    by (auto simp: engine_ctx_def cluster_params_def cluster_ctx_def sample_ctx_def sample_params_def wp_def)
  have "wp (open_components cluster_params) (\<lambda>_ _. True) (\<lambda>_ _. False) ?w"
    unfolding open_components_def Let_def rtM_def wp_bind [of "getM _"] wp_get wp_bind [of "liftE _"] wp_lift
      wp_bind [of "request _ _ _"] wp_request wp_bind [of "modM _"] wp_mod wp_bind [of "set_rt _"] wp_set_rt
    using cfg
    by (simp add: rt fresh_runtime_def P wp_bind [of "probe _ _ _ _"] whenM_def)
      (intro wp_mono [OF probes], simp_all add: wp_bind [of "retM ()"] wp_ret,
       rule wp_mono [OF reported_opened [OF _ n, unfolded wp_set_rt]], simp_all)
  then have "wp (open_runtime cluster_params) (\<lambda>_ _. True) (\<lambda>_ _. False) ?w"
    unfolding open_runtime_def rtM_def wp_bind [of "getM _"] wp_get
    by (simp add: rt fresh_runtime_def wp_except) (erule wp_mono; simp)
  then show ?thesis by (auto simp: wp_def split: prod.splits sum.splits)
qed

theorem open_all_or_nothing_witness:
  "\<exists>w'. open_runtime cluster_params unopened_world = (Inr (), w') \<and> complete cluster_params (rt w')
     \<and> rt_opened (rt w') \<and> probed cluster_params unopened_world w'"
proof -
  obtain w' where run: "open_runtime cluster_params unopened_world = (Inr (), w')" using cluster_opens by blast
  have "empty (rt unopened_world)" "\<not> rt_opened (rt unopened_world)" "\<not> rt_closed (rt unopened_world)"
    "quiet_sink (g_env (ap_ctx cluster_params))"
    by (simp_all add: unopened_world_def fresh_runtime_def empty_def cluster_params_def sample_params_def)
  moreover have "small (int (length (st_resources (rt_settings (rt unopened_world)))))" by code_simp
  ultimately show ?thesis using open_all_or_nothing [OF run] run by simp
qed

text \<open>The rotation of an open runtime to a replacement whose admin client cannot be created.\<close>

definition refusing_params :: adapter_params where
  "refusing_params = sample_params\<lparr>ap_ctx := sample_ctx\<lparr>g_env := sample_consumer_env\<lparr>e_raises :=
     (\<lambda>h. case h of AdminCreate _ # _ \<Rightarrow> Some (PyExc ValueError) | _ \<Rightarrow> None)\<rparr>\<rparr>\<rparr>"

lemma refusing_context: "from_context (g_core (ap_ctx refusing_params)) (sp_version (ap_spi refusing_params)) sample_context = Inr sample_settings"
  using sample_settings by (simp add: refusing_params_def sample_params_def sample_ctx_def sample_spi_def)

lemma isl_bind: "isl (fst (m w)) \<Longrightarrow> isl (fst (bindM m f w))"
  by (cases "m w") (auto simp: bindM_def isl_def)

lemma isl_replacement:
  "isl (fst (m (put_engines fresh_engines (w\<lparr>rt := new\<rparr>)))) \<Longrightarrow> isl (fst (on_replacement new m w))"
  by (auto simp: on_replacement_def isl_def split: prod.split sum.split)

lemma refused: "isl (fst (on_replacement (fresh_runtime sample_settings) (open_replacement refusing_params) sample_runtime_world))"
proof (rule isl_replacement)
  let ?w = "put_engines fresh_engines (sample_runtime_world\<lparr>rt := fresh_runtime sample_settings\<rparr>)"
  have w: "rt ?w = fresh_runtime sample_settings" by simp
  have "\<not> isl (admin_config sample_settings)" by code_simp
  then obtain a where a: "admin_config sample_settings = Inr a" by (metis isl_def sum.exhaust_sel)
  have "open_components refusing_params u = (Inl (PyExc ValueError), push (AdminCreate a) u)"
    if "rt u = fresh_runtime sample_settings" for u :: runtime_world
    using that a
    by (simp add: open_components_def rtM_def op_defs fresh_runtime_def refusing_params_def request_def Let_def)
  note opens = this [OF w]
  have "rt (push c u) = rt u" for c and u :: runtime_world by (simp add: push_def)
  then have "isl (fst (open_runtime refusing_params ?w))"
    using w opens
    by (simp add: open_runtime_def rtM_def op_defs exceptM_def close_components_def close_engines_def set_rt_def
        fresh_runtime_def)
  then show "isl (fst (open_replacement refusing_params ?w))"
    unfolding open_replacement_def by (rule isl_bind)
qed


end
