(* ===== verification/Spec2Isabelle.thy ===== *)
theory Spec2Isabelle
  imports Consumer_Fencing Session_Atomic Lifecycle
begin

text \<open>
  Verification of the Kafka adapter of Meridian storage (\<^verbatim>\<open>src/meridian_storage/adapters/kafka/\<close>).

  \<^bold>\<open>The program.\<close> An \<open>AdapterRuntime\<close> (\<^verbatim>\<open>runtime.py\<close>) is created for a Binding, whose settings,
  identity and secrets \<^verbatim>\<open>config.py\<close> parses into a closed record. Opening it creates an admin client
  with the probe (\<^verbatim>\<open>probe/\<close>), an idempotent producer engine (\<^verbatim>\<open>producer/\<close>), a group consumer
  engine with its range reader (\<^verbatim>\<open>consumer/\<close>), both sharing the codec of opaque tokens
  (\<^verbatim>\<open>cursor/\<close>), and, when transactions are enabled, the transaction bridge (\<^verbatim>\<open>transactions/\<close>). A
  session compiles an operation (\<^verbatim>\<open>compiler/\<close>) to a private command and runs it on those engines,
  directly or inside the bridge's transaction. Client failures become Meridian failures
  (\<^verbatim>\<open>errors.py\<close>), and bounded evidence goes to a sink (\<^verbatim>\<open>telemetry.py\<close>). The descriptor
  (\<^verbatim>\<open>descriptor/\<close>) says what the adapter advertises.

  \<^bold>\<open>How effects are read.\<close> A fallible pure function returns a sum, \<open>Inl\<close> the exception. A
  stateful operation is a function of a world that returns its outcome and the world after it,
  also when it raised. The world is a record that grows by inheritance with the components:
  \<open>world\<close> (the history of calls and the kept telemetry), \<open>producer_world\<close>, \<open>txn_world\<close>,
  \<open>consumer_world\<close>, \<open>runtime_world\<close>. Kafka, sockets, clocks and the sink are outside: every call
  is put on the history, and an environment, a parameter, answers from the history. So every
  schedule of answers, failures, rebalances and delivery reports is some environment, and what an
  operation did to the outside is read off the history.

  \<^bold>\<open>Theories\<close>, in the order of the imports:
  \<^item> \<^verbatim>\<open>Prelude\<close>: sums, dictionaries (association lists in insertion order), state operations,
    weakest preconditions, and the locale \<open>op_preorder\<close>: a preorder on states that every
    combinator of operations keeps when its parts do.
  \<^item> \<^verbatim>\<open>Errors\<close>, \<^verbatim>\<open>Json\<close>, \<^verbatim>\<open>Canonical\<close>, \<^verbatim>\<open>Base64\<close>: exceptions and their normalization; the part of
    Python's JSON and base64 that is used, with their round trips; canonical bytes.
  \<^item> \<^verbatim>\<open>Core\<close>: what is used of other Meridian distributions, as one parameter.
  \<^item> \<^verbatim>\<open>Config\<close>, \<^verbatim>\<open>Cursor\<close>: settings and client dictionaries; signed tokens, their round trips,
    authenticity, scope and key rotation.
  \<^item> \<^verbatim>\<open>Clients\<close>, \<^verbatim>\<open>Telemetry\<close>, \<^verbatim>\<open>Compiler\<close>, \<^verbatim>\<open>Descriptor\<close>: calls and environments, with the two
    relations "only such calls" and "this part unchanged"; evidence; commands; capabilities.
  \<^item> \<^verbatim>\<open>Producer\<close>, \<^verbatim>\<open>Transactions\<close>: publication; the bridge and its state machine \<open>txn_step\<close>,
    checked against an automaton of a transactional producer over the history.
  \<^item> \<^verbatim>\<open>Consumer\<close> holds the group consumer's definitions; \<^verbatim>\<open>Consumer_Safety\<close> its effects and which
    offsets are ever committed, \<^verbatim>\<open>Consumer_Progress\<close> its refinement of an abstract tracker of
    unsettled offsets (locale \<open>tracking\<close>), \<^verbatim>\<open>Consumer_Delivery\<close> what polls do and that they end,
    \<^verbatim>\<open>Consumer_Fencing\<close> the invariant of a group (locale \<open>group_invariant\<close>), fencing by epochs,
    dead letters and the group position. \<^verbatim>\<open>Range\<close> is the range reader.
  \<^item> \<^verbatim>\<open>Protocol\<close>, \<^verbatim>\<open>Probe\<close>: the wire protocol of the probe (locale \<open>fixed_width\<close> for its integers)
    and the probe with the verification of physical resources.
  \<^item> \<^verbatim>\<open>Engines\<close>: the locale \<open>engine_frame\<close>, what all engine operations leave alone, proved once and
    interpreted on three relations by the theories of the sessions.
  \<^item> \<^verbatim>\<open>Runtime\<close>, \<^verbatim>\<open>Session\<close> hold the definitions of \<^verbatim>\<open>runtime.py\<close>; \<^verbatim>\<open>Session_Safety\<close> shows that at
    most one session is in a transaction, \<^verbatim>\<open>Session_Protocol\<close> that runs of sessions are runs of
    the bridge, \<^verbatim>\<open>Session_Atomic\<close> that a consume-transform-publish command is all or nothing,
    \<^verbatim>\<open>Lifecycle\<close> that opening and rotating are.

  \<^bold>\<open>Bounds.\<close> Loops that wait for the clock or the broker carry fuel (\<open>g_fuel\<close> for publication and
  polling, the bytes still to read for a connection) and answer \<open>Diverged\<close>, which is no
  exception of the program, when it is used up; \<open>publish_terminates\<close> and \<open>poll_terminates\<close> give
  the fuel that is enough for a clock that advances, \<open>probe_confined\<close> and \<open>probe_covers_cluster\<close>
  need none. \<open>small\<close> excludes numbers of more than 500 digits, which a telemetry attribute does
  not hold. Statements about the flow of control assume a sink that does not raise
  (\<open>quiet_sink\<close>); \<open>begin_sink_leak\<close> and \<open>commit_sink_misreport\<close> show why.

  \<^bold>\<open>Not modelled.\<close> Threads: every lock is left out and operations run one after the other, in any
  order. Message texts of exceptions. The bodies of Core and Streaming classes (parsing and
  printing of references, events, receipts, pages; fingerprints), hash functions, TLS and the
  librdkafka client: they are parameters, or answers of the environment. The constructors of the
  confluent clients. The release scripts (\<^verbatim>\<open>scripts/\<close>) and the conformance runner
  (\<^verbatim>\<open>conformance/\<close>), which work on files, archives and containers and are no part of the adapter.
\<close>

end
